(* ===== verification/Prelude.thy ===== *)
theory Prelude
  imports Main "HOL-Library.Word" "HOL-Library.Monad_Syntax" "HOL-Library.While_Combinator"
begin

text \<open>
  Shared vocabulary of the development: the fixed-width integer types of
  \<^verbatim>\<open>src/eth/datatypes.h\<close>, byte strings, the collections of rewrite rules used by the
  component theories, and the generic lemmas on lists and words that carry their proofs.
\<close>

unbundle bit_operations_syntax

section \<open>Machine integers\<close>

type_synonym u8 = "8 word"
type_synonym u16 = "16 word"
type_synonym u32 = "32 word"
type_synonym u64 = "64 word"

text \<open>
  \<open>mem_simps\<close> collects read-over-write facts of byte memory, \<open>frame_simps\<close> the facts that an
  operation leaves a part of the state alone, \<open>wf_intros\<close> the preservation lemmas of the
  component invariants.
\<close>

named_theorems mem_simps
named_theorems frame_simps
named_theorems wf_intros

section \<open>Byte strings\<close>

text \<open>A C string literal without its terminating NUL.\<close>

definition bytes_of :: "string \<Rightarrow> u8 list" where
  "bytes_of s = map of_char s"

lemma bytes_of_simps [simp]:
  "bytes_of [] = []"
  "bytes_of (c # s) = of_char c # bytes_of s"
  by (simp_all add: bytes_of_def)

lemma bytes_of_append [simp]: "bytes_of (s @ t) = bytes_of s @ bytes_of t"
  by (simp add: bytes_of_def)

lemma length_bytes_of [simp]: "length (bytes_of s) = length s"
  by (simp add: bytes_of_def)

section \<open>Lists\<close>

lemma map_upt_nth_append:
  "map (\<lambda>i. f (k + i)) [0..<n] = map f [k..<k + n]"
  by (rule nth_equalityI) simp_all

lemma nth_eq_drop_hd: "k < length xs \<Longrightarrow> drop k xs = xs ! k # drop (Suc k) xs"
  by (rule Cons_nth_drop_Suc [symmetric])

section \<open>Words\<close>

lemma unat_of_nat_small [simp]:
  "n < 2 ^ LENGTH('a) \<Longrightarrow> unat (of_nat n :: 'a::len word) = n"
  by (simp add: unat_of_nat take_bit_nat_eq_self_iff)

lemma unat_lt [simp]: "unat (x :: 'a::len word) < 2 ^ LENGTH('a)"
  by (rule unsigned_less)

lemma unat_bounds [simp]:
  "unat (a :: u8) < 256" "unat (b :: u16) < 65536" "unat (c :: u32) < 4294967296"
  using unsigned_less [of a, where 'a = nat] unsigned_less [of b, where 'a = nat]
    unsigned_less [of c, where 'a = nat] by simp_all

lemma unat_ucast_up [simp]:
  "unat (ucast (a :: u8) :: u16) = unat a" "unat (ucast (a :: u8) :: u32) = unat a"
  "unat (ucast (b :: u16) :: u32) = unat b"
  by (simp_all add: unsigned_ucast_eq take_bit_nat_eq_self_iff order_less_trans [OF unat_bounds(1)]
      order_less_trans [OF unat_bounds(2)])

lemma u32_as_nat:
  fixes w :: u32
  obtains n where "w = of_nat n" and "unat w = n" and "n < 2 ^ 32"
  using that [of "unat w"] by simp

lemma unat_2p: "k < LENGTH('a) \<Longrightarrow> unat (2 ^ k :: 'a::len word) = 2 ^ k"
  using unat_of_nat_small [of "2 ^ k", where 'a = 'a] by simp

lemma and_not_mask: "x AND NOT (mask k) = x - take_bit k (x :: 'a::len word)"
proof -
  have "x AND NOT (mask k) = push_bit k (drop_bit k x)"
    by (rule bit_word_eqI) (auto simp: bit_simps)
  also have "\<dots> = x - take_bit k x"
    using bits_ident [of k x] by (simp add: algebra_simps)
  finally show ?thesis .
qed

lemma unat_and_not_mask:
  "unat (x AND NOT (mask k)) = unat x - unat (x :: 'a::len word) mod 2 ^ k"
proof -
  have t: "unat (take_bit k x) = unat x mod 2 ^ k"
    by (simp only: unsigned_take_bit_eq take_bit_nat_def)
  then have "take_bit k x \<le> x" by (simp add: word_le_nat_alt)
  then show ?thesis unfolding and_not_mask by (simp add: unat_sub t)
qed

lemma unat_diff_of_nat:
  fixes p a :: u32
  assumes "unat (p - a) + i < 2 ^ 32"
  shows "unat (p + of_nat i - a) = unat (p - a) + i"
proof -
  have "unat (of_nat i :: u32) = i" using assms by simp
  then have "unat ((p - a) + of_nat i) = unat (p - a) + i"
    using assms by (simp add: unat_word_ariths(1))
  then show ?thesis by (simp add: algebra_simps)
qed

lemma sint_small:
  fixes w :: u32
  assumes "unat w < 2 ^ 31"
  shows "sint w = int (unat w)"
proof -
  have "unat w < 2147483648" using assms by simp
  then have "int (unat w) < 2147483648" by linarith
  moreover have u: "uint w = int (unat w)" by (rule uint_nat)
  ultimately have "- 2147483648 \<le> uint w \<and> uint w < 2147483648" by linarith
  then have "signed_take_bit 31 (uint w) = uint w" by (intro signed_take_bit_int_eq_self) simp_all
  then have "sint w = uint w" by (simp add: sint_uint)
  then show ?thesis using u by (rule trans)
qed

section \<open>Loops that may not end\<close>

text \<open>
  Polling loops are \<^const>\<open>while_option\<close>: the value \<open>None\<close> is a loop that never leaves. The loop
  returns exactly when its guard fails after some number of rounds, and a relation that is
  reflexive, transitive and kept by one round holds between entry and exit.
\<close>

lemma while_option_returns:
  "(\<exists>t. while_option b c s = Some t) \<longleftrightarrow> (\<exists>k. \<not> b ((c ^^ k) s))"
  by (simp add: while_option_def)

lemma while_option_first:
  assumes "\<not> b ((c ^^ k) s)" and "\<And>j. j < k \<Longrightarrow> b ((c ^^ j) s)"
  shows "while_option b c s = Some ((c ^^ k) s)"
proof -
  have "(LEAST k. \<not> b ((c ^^ k) s)) = k"
    using assms by (intro Least_equality) (auto simp: not_less [symmetric])
  then show ?thesis using assms(1) by (auto simp: while_option_def)
qed

lemma while_option_rel:
  assumes "while_option b c s = Some t"
    and "R s s" and "\<And>u. R s u \<Longrightarrow> b u \<Longrightarrow> R s (c u)"
  shows "R s t"
  using while_option_rule [of "R s" b c s t] assms by blast

end
