(* ===== verification/Machine.thy ===== *)
theory Machine
  imports Prelude
begin

text \<open>
  The i386 platform under the Ethernet debugger: byte memory, the port instructions of
  \<^verbatim>\<open>src/eth/ioport.h\<close> and the string routines of the language (\<open>memcpy\<close>, \<open>memset\<close>) together with
  the \<open>memcmp\<close> of \<^verbatim>\<open>src/eth/c-main.c\<close>.

  The hardware is not part of the program. It is the parameter \<open>hw\<close> of the model: what a port
  read returns may depend on everything the program did to the ports before, which is the
  history kept in the state. What an uploaded routine does when it is called is a parameter too,
  and so are the addresses that the linker gives to the objects whose address the code uses.
\<close>

section \<open>State\<close>

type_synonym memory = "u32 \<Rightarrow> u8"

datatype io_width = W8 | W16 | W32

datatype io_event =
    PortIn io_width u16 u32
  | PortOut io_width u16 u32
  | VolatileRead u32
  | CallAddr u32

text \<open>The undefined behaviours the C code can run into, recorded as a value.\<close>

datatype c_fault = Null_Call | Missing_Return

record bus =
  mem :: memory
  hist :: "io_event list" \<comment> \<open>newest first\<close>
  fault :: "c_fault option"

record hw =
  hw_in :: "io_event list \<Rightarrow> io_width \<Rightarrow> u16 \<Rightarrow> u32"
  hw_call :: "u32 \<Rightarrow> memory \<Rightarrow> io_event list \<Rightarrow> (memory \<times> io_event list) option"
  ld_last_byte :: u32 \<comment> \<open>end.asm\<close>
  ld_default_int :: u32 \<comment> \<open>the \<^verbatim>\<open>iret\<close> stub of interrupt.c\<close>
  ld_irq_stub :: "nat \<Rightarrow> u32" \<comment> \<open>\<^verbatim>\<open>default_irq_picN_n_iret\<close> of pic-8259.c\<close>
  ld_IDT :: u32
  ld_pcnet32_init_data :: u32

definition set_fault :: "c_fault \<Rightarrow> 'a bus_scheme \<Rightarrow> 'a bus_scheme" where
  "set_fault f m = (if fault m = None then m\<lparr>fault := Some f\<rparr> else m)"

section \<open>Port instructions (ioport.h)\<close>

definition io_outb :: "u32 \<Rightarrow> u8 \<Rightarrow> 'a bus_scheme \<Rightarrow> 'a bus_scheme" where
  "io_outb port b m = m\<lparr>hist := PortOut W8 (ucast port) (ucast b) # hist m\<rparr>"

definition io_outw :: "u32 \<Rightarrow> u16 \<Rightarrow> 'a bus_scheme \<Rightarrow> 'a bus_scheme" where
  "io_outw port b m = m\<lparr>hist := PortOut W16 (ucast port) (ucast b) # hist m\<rparr>"

definition io_outl :: "u32 \<Rightarrow> u32 \<Rightarrow> 'a bus_scheme \<Rightarrow> 'a bus_scheme" where
  "io_outl port b m = m\<lparr>hist := PortOut W32 (ucast port) b # hist m\<rparr>"

definition io_outbi :: "u8 \<Rightarrow> u8 \<Rightarrow> 'a bus_scheme \<Rightarrow> 'a bus_scheme" where
  "io_outbi port b m = m\<lparr>hist := PortOut W8 (ucast port) (ucast b) # hist m\<rparr>"

definition io_inb :: "'h hw_scheme \<Rightarrow> u32 \<Rightarrow> 'a bus_scheme \<Rightarrow> u8 \<times> 'a bus_scheme" where
  "io_inb h port m = (let d = ucast (hw_in h (hist m) W8 (ucast port)) :: u8
     in (d, m\<lparr>hist := PortIn W8 (ucast port) (ucast d) # hist m\<rparr>))"

definition io_inw :: "'h hw_scheme \<Rightarrow> u32 \<Rightarrow> 'a bus_scheme \<Rightarrow> u16 \<times> 'a bus_scheme" where
  "io_inw h port m = (let d = ucast (hw_in h (hist m) W16 (ucast port)) :: u16
     in (d, m\<lparr>hist := PortIn W16 (ucast port) (ucast d) # hist m\<rparr>))"

definition io_inl :: "'h hw_scheme \<Rightarrow> u32 \<Rightarrow> 'a bus_scheme \<Rightarrow> u32 \<times> 'a bus_scheme" where
  "io_inl h port m = (let d = hw_in h (hist m) W32 (ucast port)
     in (d, m\<lparr>hist := PortIn W32 (ucast port) d # hist m\<rparr>))"

text \<open>The immediate form encodes the port in eight bits.\<close>

definition io_inbi :: "'h hw_scheme \<Rightarrow> u8 \<Rightarrow> 'a bus_scheme \<Rightarrow> u8 \<times> 'a bus_scheme" where
  "io_inbi h port m = (let d = ucast (hw_in h (hist m) W8 (ucast port)) :: u8
     in (d, m\<lparr>hist := PortIn W8 (ucast port) (ucast d) # hist m\<rparr>))"

definition io_delay :: "'h hw_scheme \<Rightarrow> 'a bus_scheme \<Rightarrow> 'a bus_scheme" where
  "io_delay h m =
    (let m = snd (io_inbi h 0x80 m); m = snd (io_inbi h 0x80 m); m = snd (io_inbi h 0x80 m)
     in snd (io_inbi h 0x80 m))"

definition io_outb_d :: "'h hw_scheme \<Rightarrow> u32 \<Rightarrow> u8 \<Rightarrow> 'a bus_scheme \<Rightarrow> 'a bus_scheme" where
  "io_outb_d h port b m = io_delay h (io_outb port b m)"

definition io_outbi_d :: "'h hw_scheme \<Rightarrow> u8 \<Rightarrow> u8 \<Rightarrow> 'a bus_scheme \<Rightarrow> 'a bus_scheme" where
  "io_outbi_d h port b m = io_delay h (io_outbi port b m)"

definition io_inb_d :: "'h hw_scheme \<Rightarrow> u32 \<Rightarrow> 'a bus_scheme \<Rightarrow> u8 \<times> 'a bus_scheme" where
  "io_inb_d h port m = (let (r, m) = io_inb h port m in (r, io_delay h m))"

definition io_inbi_d :: "'h hw_scheme \<Rightarrow> u8 \<Rightarrow> 'a bus_scheme \<Rightarrow> u8 \<times> 'a bus_scheme" where
  "io_inbi_d h port m = (let (r, m) = io_inbi h port m in (r, io_delay h m))"

text \<open>Every port operation changes the history and nothing else.\<close>

lemmas io_defs = io_outb_def io_outw_def io_outl_def io_outbi_def io_inb_def io_inw_def io_inl_def
  io_inbi_def io_delay_def io_outb_d_def io_outbi_d_def io_inb_d_def io_inbi_d_def

lemma io_out_mem [frame_simps, simp]:
  "mem (io_outb p b m) = mem m" "mem (io_outw p w m) = mem m" "mem (io_outl p l m) = mem m"
  "mem (io_outbi q b m) = mem m" "mem (io_outb_d h p b m) = mem m"
  "mem (io_outbi_d h q b m) = mem m" "mem (io_delay h m) = mem m"
  by (simp_all add: io_defs Let_def)

lemma io_in_mem [frame_simps, simp]:
  "mem (snd (io_inb h p m)) = mem m" "mem (snd (io_inw h p m)) = mem m"
  "mem (snd (io_inl h p m)) = mem m" "mem (snd (io_inbi h q m)) = mem m"
  "mem (snd (io_inb_d h p m)) = mem m" "mem (snd (io_inbi_d h q m)) = mem m"
  by (simp_all add: io_defs Let_def)

section \<open>Byte memory\<close>

definition mem_write :: "memory \<Rightarrow> u32 \<Rightarrow> u8 list \<Rightarrow> memory" where
  "mem_write m a bs = (\<lambda>x. if unat (x - a) < length bs then bs ! unat (x - a) else m x)"

definition load_bytes :: "memory \<Rightarrow> u32 \<Rightarrow> nat \<Rightarrow> u8 list" where
  "load_bytes m a n = map (\<lambda>i. m (a + of_nat i)) [0..<n]"

text \<open>Little-endian access to \<^verbatim>\<open>uint16_t\<close> and \<^verbatim>\<open>uint32_t\<close> objects.\<close>

definition le16 :: "u16 \<Rightarrow> u8 list" where
  "le16 w = [ucast w, ucast (drop_bit 8 w)]"

definition le32 :: "u32 \<Rightarrow> u8 list" where
  "le32 w = le16 (ucast w) @ le16 (ucast (drop_bit 16 w))"

definition load16 :: "memory \<Rightarrow> u32 \<Rightarrow> u16" where
  "load16 m a = ucast (m a) OR push_bit 8 (ucast (m (a + 1)))"

definition store16 :: "memory \<Rightarrow> u32 \<Rightarrow> u16 \<Rightarrow> memory" where
  "store16 m a w = mem_write m a (le16 w)"

definition memcpy :: "memory \<Rightarrow> u32 \<Rightarrow> u32 \<Rightarrow> u32 \<Rightarrow> memory" where
  "memcpy m dst src c = mem_write m dst (load_bytes m src (unat c))"

definition memset :: "memory \<Rightarrow> u32 \<Rightarrow> u8 \<Rightarrow> u32 \<Rightarrow> memory" where
  "memset m dst c l = mem_write m dst (replicate (unat l) c)"

text \<open>
  \<^verbatim>\<open>memcmp\<close> of \<^verbatim>\<open>c-main.c\<close> on the two \<open>c\<close>-byte objects its arguments point to.
\<close>

fun memcmp :: "u8 list \<Rightarrow> u8 list \<Rightarrow> int" where
  "memcmp (x # a) (y # b) =
    (let d = uint x - uint y in if d \<noteq> 0 then d else memcmp a b)"
| "memcmp _ _ = 0"

lemma memcmp_eq_0_iff:
  "length a = length b \<Longrightarrow> memcmp a b = 0 \<longleftrightarrow> a = b"
  by (induction a b rule: list_induct2) (auto simp: Let_def word_uint_eq_iff)

lemma length_load_bytes [simp]: "length (load_bytes m a n) = n"
  by (simp add: load_bytes_def)

lemma nth_load_bytes [simp]: "i < n \<Longrightarrow> load_bytes m a n ! i = m (a + of_nat i)"
  by (simp add: load_bytes_def)

lemma length_le16 [simp]: "length (le16 w) = 2"
  by (simp add: le16_def)

lemma length_le32 [simp]: "length (le32 w) = 4"
  by (simp add: le32_def)

subsection \<open>Read over write\<close>

text \<open>Two cyclic address ranges without a common byte.\<close>

definition apart :: "u32 \<Rightarrow> nat \<Rightarrow> u32 \<Rightarrow> nat \<Rightarrow> bool" where
  "apart p n a l \<longleftrightarrow> n \<le> unat (a - p) \<and> l \<le> unat (p - a)"

lemma apart_sym: "apart p n a l \<longleftrightarrow> apart a l p n"
  by (auto simp: apart_def)

lemma unat_neg_diff:
  fixes p a :: u32
  assumes "p \<noteq> a"
  shows "unat (a - p) + unat (p - a) = 2 ^ 32"
proof -
  have "unat (p - a) \<noteq> 0" using assms by (simp add: unat_eq_0)
  moreover have "unat (a - p) < 4294967296" "unat (p - a) < 4294967296" by simp_all
  moreover have "(unat (a - p) + unat (p - a)) mod 4294967296 = 0"
    using unat_word_ariths(1) [of "a - p" "p - a"] by simp
  then obtain k where "unat (a - p) + unat (p - a) = 4294967296 * k"
    by (auto simp: mod_eq_0_iff_dvd elim!: dvdE)
  ultimately have "k = 1" "unat (a - p) + unat (p - a) = 4294967296 * k" by linarith+
  then show ?thesis by simp
qed

lemma apart_not_in:
  assumes "apart p n a l" and "i < n"
  shows "l \<le> unat (p + of_nat i - a)"
proof (cases "p = a")
  case True
  with assms show ?thesis by (simp add: apart_def)
next
  case False
  then have "unat (p - a) + i < 2 ^ 32"
    using assms unat_neg_diff [of p a] by (simp add: apart_def)
  then show ?thesis
    using assms by (simp add: unat_diff_of_nat apart_def)
qed

text \<open>Ranges at increasing offsets from one base.\<close>

lemma apart_offset:
  assumes "i + n \<le> j" and "j + l \<le> 2 ^ 32" and "i < j" and "j < 2 ^ 32"
  shows "apart (a + of_nat i :: u32) n (a + of_nat j) l"
proof -
  have d: "(a + of_nat j) - (a + of_nat i :: u32) = of_nat (j - i)" using assms(3) by simp
  have "j - i < 2 ^ 32" using assms by linarith
  then have u: "unat (of_nat (j - i) :: u32) = j - i" by (intro unat_of_nat_small) simp
  have "(a + of_nat i :: u32) \<noteq> a + of_nat j" using d u assms(3) by auto
  from unat_neg_diff [OF this] have "j - i + unat ((a + of_nat i) - (a + of_nat j :: u32)) = 2 ^ 32"
    unfolding d u .
  then show ?thesis unfolding apart_def d u using assms by linarith
qed

lemma apart_offset_gt:
  assumes "j + l \<le> i" and "i + n \<le> 2 ^ 32" and "j < i" and "i < 2 ^ 32"
  shows "apart (a + of_nat i :: u32) n (a + of_nat j) l"
  using apart_offset [OF assms] by (simp add: apart_sym)

lemma load_write_apart [mem_simps]:
  "apart p n a (length bs) \<Longrightarrow> load_bytes (mem_write m a bs) p n = load_bytes m p n"
  by (rule nth_equalityI) (auto simp: mem_write_def not_less dest: apart_not_in)

lemma byte_write_apart [mem_simps]:
  "length bs \<le> unat (x - a) \<Longrightarrow> mem_write m a bs x = m x"
  by (simp add: mem_write_def)

lemma load16_write_apart [mem_simps]:
  assumes "apart p 2 a (length bs)"
  shows "load16 (mem_write m a bs) p = load16 m p"
  using apart_not_in [OF assms, of 0] apart_not_in [OF assms, of 1]
  by (simp add: load16_def mem_write_def)

text \<open>
  The view of a buffer of \<open>n\<close> bytes at \<open>p\<close>: a write inside it replaces a segment of the list
  that the buffer holds.
\<close>

lemma load_write_inside:
  assumes "k + length bs \<le> n" and "n < 2 ^ 32"
  shows "load_bytes (mem_write m (p + of_nat k) bs) p n =
    take k (load_bytes m p n) @ bs @ drop (k + length bs) (load_bytes m p n)"
proof (rule nth_equalityI)
  show "length (load_bytes (mem_write m (p + of_nat k) bs) p n) =
    length (take k (load_bytes m p n) @ bs @ drop (k + length bs) (load_bytes m p n))"
    using assms by simp
next
  fix i
  assume "i < length (load_bytes (mem_write m (p + of_nat k) bs) p n)"
  then have i: "i < n" by simp
  let ?d = "p + of_nat i - (p + of_nat k)"
  show "load_bytes (mem_write m (p + of_nat k) bs) p n ! i =
    (take k (load_bytes m p n) @ bs @ drop (k + length bs) (load_bytes m p n)) ! i"
  proof (cases "k \<le> i")
    case True
    then have "?d = of_nat (i - k)" by simp
    then have "unat ?d = i - k" using i assms by simp
    with True i assms show ?thesis by (auto simp: mem_write_def nth_append not_less)
  next
    case False
    then have d: "(of_nat (k - i) :: u32) = 0 - ?d" by simp
    have u: "unat (of_nat (k - i) :: u32) = k - i" using assms by simp
    then have "?d \<noteq> 0" using False d by auto
    then have "unat ?d + (k - i) = 2 ^ 32"
      using unat_neg_diff [of 0 ?d] u unfolding d by simp
    then have "length bs \<le> unat ?d" using False assms by simp
    with False i assms show ?thesis by (simp add: mem_write_def nth_append)
  qed
qed

lemma mem_write_outside:
  assumes "k + length bs \<le> n" and "n \<le> unat (x - a)"
  shows "mem_write m (a + of_nat k) bs x = m x"
proof -
  have "k < 4294967296" using assms unat_bounds(3) [of "x - a"] by linarith
  then have k: "unat (of_nat k :: u32) = k" by simp
  then have "(of_nat k :: u32) \<le> x - a" using assms by (simp add: word_le_nat_alt)
  then have "unat ((x - a) - of_nat k) = unat (x - a) - k" using k by (simp only: unat_sub)
  moreover have "x - (a + of_nat k) = (x - a) - of_nat k" by simp
  ultimately have "unat (x - (a + of_nat k)) = unat (x - a) - k" by (simp only:)
  then have "length bs \<le> unat (x - (a + of_nat k))" using assms by linarith
  then show ?thesis by (simp add: mem_write_def)
qed

lemma load_bytes_cong:
  "(\<And>i. i < n \<Longrightarrow> m (p + of_nat i) = m' (p + of_nat i)) \<Longrightarrow> load_bytes m p n = load_bytes m' p n"
  by (rule nth_equalityI) simp_all

lemma load_write_same:
  assumes "length bs < 2 ^ 32"
  shows "load_bytes (mem_write m p bs) p (length bs) = bs"
  using load_write_inside [of 0 bs "length bs" m p] assms by simp

lemma load_bytes_add:
  "load_bytes m p (j + k) = load_bytes m p j @ load_bytes m (p + of_nat j) k"
  by (rule nth_equalityI) (auto simp: nth_append algebra_simps of_nat_diff)

lemma load_bytes_sub:
  assumes "j + k \<le> n"
  shows "load_bytes m (p + of_nat j) k = take k (drop j (load_bytes m p n))"
  using assms by (intro nth_equalityI) (auto simp: algebra_simps)

lemma load16_bytes: "load16 m p = (let bs = load_bytes m p 2 in
    ucast (bs ! 0) OR push_bit 8 (ucast (bs ! 1)))"
  by (simp add: load16_def Let_def)

subsection \<open>A buffer and what lies outside it\<close>

text \<open>
  Building a packet in a buffer of \<open>n\<close> bytes at \<open>p\<close>: each write at a constant offset replaces a
  segment of the buffer's contents and leaves every range apart from the buffer alone.
\<close>

definition splice :: "nat \<Rightarrow> u8 list \<Rightarrow> u8 list \<Rightarrow> u8 list" where
  "splice k bs xs = take k xs @ bs @ drop (k + length bs) xs"

lemma length_splice [simp]: "k + length bs \<le> length xs \<Longrightarrow> length (splice k bs xs) = length xs"
  by (simp add: splice_def)

lemma view_write:
  assumes "unat k + length bs \<le> n" and "n < 2 ^ 32"
  shows "load_bytes (mem_write m (p + k) bs) p n = splice (unat k) bs (load_bytes m p n)"
  using load_write_inside [of "unat k" bs n m p] assms by (simp add: splice_def)

lemma view_write_0:
  assumes "length bs \<le> n" and "n < 2 ^ 32"
  shows "load_bytes (mem_write m p bs) p n = splice 0 bs (load_bytes m p n)"
  using load_write_inside [of 0 bs n m p] assms by (simp add: splice_def)

lemma outside_write:
  assumes "apart q l p n" and "unat k + length bs \<le> n"
  shows "load_bytes (mem_write m (p + k) bs) q l = load_bytes m q l"
proof (rule load_bytes_cong)
  fix i assume "i < l"
  then have "n \<le> unat (q + of_nat i - p)" by (rule apart_not_in [OF assms(1)])
  then show "mem_write m (p + k) bs (q + of_nat i) = m (q + of_nat i)"
    using mem_write_outside [of "unat k" bs n "q + of_nat i" p m] assms(2) by simp
qed

lemma outside_write_0:
  "apart q l p n \<Longrightarrow> length bs \<le> n \<Longrightarrow> load_bytes (mem_write m p bs) q l = load_bytes m q l"
  using outside_write [of q l p n 0 bs m] by simp

text \<open>Memory that differs only inside the \<open>n\<close> bytes at \<open>p\<close>.\<close>

definition only_in :: "memory \<Rightarrow> memory \<Rightarrow> u32 \<Rightarrow> nat \<Rightarrow> bool" where
  "only_in m m' p n \<longleftrightarrow> (\<forall>x. n \<le> unat (x - p) \<longrightarrow> m' x = m x)"

lemma only_in_refl [simp]: "only_in m m p n"
  by (simp add: only_in_def)

lemma only_in_trans: "only_in m m' p n \<Longrightarrow> only_in m' m'' p n \<Longrightarrow> only_in m m'' p n"
  by (simp add: only_in_def)

lemma only_in_mono: "only_in m m' p n \<Longrightarrow> n \<le> n' \<Longrightarrow> only_in m m' p n'"
  by (auto simp: only_in_def)

lemma only_in_write:
  "only_in m m' p n \<Longrightarrow> unat k + length bs \<le> n \<Longrightarrow> only_in m (mem_write m' (p + k) bs) p n"
  using mem_write_outside [of "unat k" bs n _ p m'] by (auto simp: only_in_def)

lemma only_in_write_0: "only_in m m' p n \<Longrightarrow> length bs \<le> n \<Longrightarrow> only_in m (mem_write m' p bs) p n"
  using only_in_write [of m m' p n 0 bs] by simp

lemma only_in_load: "only_in m m' p n \<Longrightarrow> apart q l p n \<Longrightarrow> load_bytes m' q l = load_bytes m q l"
  using apart_not_in [of q l p n] by (intro load_bytes_cong) (auto simp: only_in_def)

lemma only_in_before:
  assumes "only_in m m' p n" and "0 < j" and "n + j \<le> 2 ^ 32"
  shows "load_bytes m' (p - of_nat j) j = load_bytes m (p - of_nat j) j"
proof (cases "j < 2 ^ 32")
  case True
  then have "apart (p - of_nat j + of_nat 0) j (p - of_nat j + of_nat j) n"
    using assms by (intro apart_offset) simp_all
  then show ?thesis using only_in_load [OF assms(1)] by simp
next
  case False
  then have "n = 0" using assms(3) by simp
  then show ?thesis using assms(1) by (intro load_bytes_cong) (simp add: only_in_def)
qed

end
