(* ===== verification/Alloc.thy ===== *)
theory Alloc
  imports Machine
begin

text \<open>
  The bump allocator of \<^verbatim>\<open>src/eth/alloc.c\<close>: one pointer above the loaded image that only moves
  up. Drivers align it and carve their rings and packet buffers from it; the \<^verbatim>\<open>LOW\<close> command of the
  debugger reports it as the lowest address the host may use.
\<close>

record heap = bus +
  alloc :: u32

definition do_alloc :: "u32 \<Rightarrow> 'a heap_scheme \<Rightarrow> u32 \<times> 'a heap_scheme" where
  "do_alloc n m = (alloc m, m\<lparr>alloc := alloc m + n\<rparr>)"

definition init_alloc :: "'h hw_scheme \<Rightarrow> 'a heap_scheme \<Rightarrow> 'a heap_scheme" where
  "init_alloc h m = m\<lparr>alloc := ld_last_byte h + 0x20000\<rparr>"

definition align_alloc :: "u32 \<Rightarrow> 'a heap_scheme \<Rightarrow> 'a heap_scheme" where
  "align_alloc sz m = m\<lparr>alloc := (alloc m + sz - 1) AND NOT (sz - 1)\<rparr>"

text \<open>
  The pattern \<^verbatim>\<open>if (p == NULL) p = do_alloc(n)\<close> of the drivers' initialisation.
\<close>

definition alloc_if_null :: "u32 \<Rightarrow> u32 \<Rightarrow> 'a heap_scheme \<Rightarrow> u32 \<times> 'a heap_scheme" where
  "alloc_if_null p n m = (if p = 0 then do_alloc n m else (p, m))"

lemma alloc_if_null_frame: "snd (alloc_if_null p n m) = m\<lparr>alloc := alloc (snd (alloc_if_null p n m))\<rparr>"
  by (simp add: alloc_if_null_def do_alloc_def)

lemma alloc_if_null_bounds:
  assumes "unat (alloc m) + unat n < 2 ^ 32"
  shows "unat (alloc m) \<le> unat (alloc (snd (alloc_if_null p n m))) \<and>
    unat (alloc (snd (alloc_if_null p n m))) \<le> unat (alloc m) + unat n"
  using assms unat_add_lem [of "alloc m" n] by (simp add: alloc_if_null_def do_alloc_def)

text \<open>
  For a power of two the new pointer is the least multiple of it that is not below the old one,
  as long as rounding up stays inside the address space.
\<close>

lemma align_alloc_least:
  assumes "k < 32" and "unat (alloc m) + 2 ^ k \<le> 2 ^ 32"
  defines "a' \<equiv> unat (alloc (align_alloc (2 ^ k) m))"
  shows "2 ^ k dvd a' \<and> unat (alloc m) \<le> a' \<and> a' < unat (alloc m) + 2 ^ k"
proof -
  define S :: nat where "S = 2 ^ k"
  let ?x = "alloc m + 2 ^ k - 1"
  have S0: "0 < S" and "unat (2 ^ k :: u32) = S" and S1: "unat (2 ^ k - 1 :: u32) = S - 1"
    using assms(1) by (simp_all add: S_def unat_minus_one unat_2p)
  moreover have "unat (alloc m) + (S - 1) < 2 ^ 32" using S0 assms(2) by (simp add: S_def)
  ultimately have "unat (alloc m + (2 ^ k - 1)) = unat (alloc m) + (S - 1)"
    using unat_add_lem [of "alloc m" "2 ^ k - 1"] by simp
  then have x: "unat ?x = unat (alloc m) + (S - 1)" by (simp add: add_diff_eq)
  have "a' = unat ?x - unat ?x mod S"
    using unat_and_not_mask [of ?x k] unfolding a'_def align_alloc_def
    by (simp add: mask_eq_exp_minus_1 S_def)
  then have a: "a' = unat ?x div S * S" by (simp add: minus_mod_eq_div_mult)
  moreover have "unat ?x < unat ?x div S * S + S"
    using S0 by (metis dividend_less_div_times add.commute)
  moreover have "unat ?x div S * S \<le> unat ?x" by simp
  ultimately have "unat (alloc m) \<le> a' \<and> a' < unat (alloc m) + S" using x S0 by linarith
  then show ?thesis using a by (simp add: S_def)
qed

subsection \<open>Sequences of allocations\<close>

text \<open>The blocks that a sequence of requests returns, as address and size.\<close>

fun alloc_run :: "u32 list \<Rightarrow> 'a heap_scheme \<Rightarrow> (u32 \<times> u32) list \<times> 'a heap_scheme" where
  "alloc_run [] m = ([], m)"
| "alloc_run (n # ns) m =
    (let (p, m) = do_alloc n m; (bs, m) = alloc_run ns m in ((p, n) # bs, m))"

definition block_before :: "u32 \<times> u32 \<Rightarrow> u32 \<times> u32 \<Rightarrow> bool" where
  "block_before b c \<longleftrightarrow> unat (fst b) + unat (snd b) \<le> unat (fst c)"

lemma alloc_run_blocks:
  assumes "unat (alloc m) + sum_list (map unat ns) < 2 ^ 32"
    and "alloc_run ns m = (bs, m')"
  shows "sorted_wrt block_before bs \<and>
    unat (alloc m') = unat (alloc m) + sum_list (map unat ns) \<and>
    (\<forall>b \<in> set bs. unat (alloc m) \<le> unat (fst b) \<and>
      unat (fst b) + unat (snd b) \<le> unat (alloc m'))"
  using assms
proof (induction ns arbitrary: m bs)
  case Nil
  then show ?case by simp
next
  case (Cons n ns)
  define m1 where "m1 = m\<lparr>alloc := alloc m + n\<rparr>"
  obtain bs1 where run: "alloc_run ns m1 = (bs1, m')" and bs: "bs = (alloc m, n) # bs1"
    using Cons.prems(2) by (auto simp: do_alloc_def m1_def split: prod.splits)
  have m1: "unat (alloc m1) = unat (alloc m) + unat n"
    using Cons.prems(1) unat_add_lem [of "alloc m" n] by (simp add: m1_def)
  then have "unat (alloc m1) + sum_list (map unat ns) < 2 ^ 32" using Cons.prems(1) by simp
  from Cons.IH [OF this run] show ?case by (auto simp: bs m1 block_before_def)
qed

lemma alloc_run_frame:
  "alloc_run ns m = (bs, m') \<Longrightarrow> m' = m\<lparr>alloc := alloc m + sum_list ns\<rparr> \<and> map snd bs = ns \<and> length bs = length ns"
proof (induction ns arbitrary: m bs)
  case (Cons n ns)
  obtain bs1 where "alloc_run ns (m\<lparr>alloc := alloc m + n\<rparr>) = (bs1, m')" "bs = (alloc m, n) # bs1"
    using Cons.prems by (auto simp: do_alloc_def split: prod.splits)
  with Cons.IH [OF this(1)] show ?case by (simp add: add.assoc)
qed simp

lemma alloc_run_equal:
  assumes run: "alloc_run (replicate n sz) m = (bs, m')" and room: "unat (alloc m) + n * unat sz < 2 ^ 32"
  shows "sorted_wrt (\<lambda>p q. unat p + unat sz \<le> unat q) (map fst bs)" and "length bs = n"
    and "\<forall>p \<in> set (map fst bs). unat (alloc m) \<le> unat p \<and> unat p + unat sz \<le> unat (alloc m')"
    and "m' = m\<lparr>alloc := alloc m'\<rparr>" and "unat (alloc m') = unat (alloc m) + n * unat sz"
proof -
  have room': "unat (alloc m) + sum_list (map unat (replicate n sz)) < 2 ^ 32"
    using room by (simp add: sum_list_replicate)
  note b = alloc_run_blocks [OF room' run] and f = alloc_run_frame [OF run]
  have sz: "snd x = sz" if "x \<in> set bs" for x
  proof -
    have "snd x \<in> set (map snd bs)" using that by simp
    then show ?thesis using f by simp
  qed
  show "sorted_wrt (\<lambda>p q. unat p + unat sz \<le> unat q) (map fst bs)"
    using b sz unfolding sorted_wrt_map
    by (auto simp: block_before_def elim!: sorted_wrt_mono_rel [rotated])
  show "length bs = n" "m' = m\<lparr>alloc := alloc m'\<rparr>" using f by simp_all
  show "\<forall>p \<in> set (map fst bs). unat (alloc m) \<le> unat p \<and> unat p + unat sz \<le> unat (alloc m')"
    using b sz by fastforce
  show "unat (alloc m') = unat (alloc m) + n * unat sz" using b by (simp add: sum_list_replicate)
qed

end
