(* ===== verification/Vga.thy ===== *)
theory Vga
  imports Alloc
begin

text \<open>
  The text console of \<^verbatim>\<open>src/eth/vga.c\<close> and the console helpers of \<^verbatim>\<open>src/eth/c-main.c\<close>. The
  display is byte memory at \<open>VGA_alpha\<close>, two bytes a cell; the cursor is mirrored to the CRTC by
  port writes. An abstract terminal (a list of cells and a position) specifies the console, and the
  memory-level operations are shown to refine it.
\<close>

section \<open>State and operations\<close>

record vga = heap +
  VGA_alpha :: u32
  VGA_alpha_rows :: u32
  VGA_alpha_columns :: u32
  VGA_alpha_x :: u32
  VGA_alpha_y :: u32
  VGA_color :: u8
  VGA_iobase :: u32

definition hexes :: string where
  "hexes = ''0123456789ABCDEF''"

definition hexdigit :: "nat \<Rightarrow> u8" where
  "hexdigit i = bytes_of hexes ! i"

definition vga_alpha_char_ptr :: "u32 \<Rightarrow> u32 \<Rightarrow> 'a vga_scheme \<Rightarrow> u32" where
  "vga_alpha_char_ptr x y m = VGA_alpha m + 2 * (y * VGA_alpha_columns m) + 2 * x"

definition vga_scrollup :: "'a vga_scheme \<Rightarrow> 'a vga_scheme" where
  "vga_scrollup m =
    (let a = VGA_alpha m; r = VGA_alpha_rows m; c = VGA_alpha_columns m;
         mm = memcpy (mem m) a (a + 2 * c) ((r - 1) * c * 2)
     in m\<lparr>mem := memset mm (a + 2 * ((r - 1) * c)) 0 (c * 2)\<rparr>)"

definition vga_crtc_write :: "u8 \<Rightarrow> u8 \<Rightarrow> 'a vga_scheme \<Rightarrow> 'a vga_scheme" where
  "vga_crtc_write index val m =
    (let m = io_outb (VGA_iobase m + 4) index m in io_outb (VGA_iobase m + 5) val m)"

definition vga_update_cursor :: "'a vga_scheme \<Rightarrow> 'a vga_scheme" where
  "vga_update_cursor m =
    (let cursor_pos = (VGA_alpha_y m * VGA_alpha_columns m) + VGA_alpha_x m;
         m = vga_crtc_write 0x0E (ucast (drop_bit 8 cursor_pos)) m
     in vga_crtc_write 0x0F (ucast cursor_pos) m)"

definition vga_cursor_down :: "'a vga_scheme \<Rightarrow> 'a vga_scheme" where
  "vga_cursor_down m =
    (let m = m\<lparr>VGA_alpha_y := VGA_alpha_y m + 1\<rparr>
     in if VGA_alpha_y m \<ge> VGA_alpha_rows m
        then vga_scrollup (m\<lparr>VGA_alpha_y := VGA_alpha_rows m - 1\<rparr>) else m)"

definition vga_cursor_right :: "'a vga_scheme \<Rightarrow> 'a vga_scheme" where
  "vga_cursor_right m =
    (let m = m\<lparr>VGA_alpha_x := VGA_alpha_x m + 1\<rparr>
     in if VGA_alpha_x m \<ge> VGA_alpha_columns m
        then vga_cursor_down (m\<lparr>VGA_alpha_x := 0\<rparr>) else m)"

definition vga_writechar :: "u8 \<Rightarrow> 'a vga_scheme \<Rightarrow> 'a vga_scheme" where
  "vga_writechar c m =
    vga_update_cursor
      (if c = 13 then m\<lparr>VGA_alpha_x := 0\<rparr>
       else if c = 10 then vga_cursor_down m
       else vga_cursor_right (m\<lparr>mem :=
         store16 (mem m) (vga_alpha_char_ptr (VGA_alpha_x m) (VGA_alpha_y m) m)
           (push_bit 8 (ucast (VGA_color m)) OR ucast c)\<rparr>))"

fun vga_write_bytes :: "u8 list \<Rightarrow> 'a vga_scheme \<Rightarrow> 'a vga_scheme" where
  "vga_write_bytes [] m = m"
| "vga_write_bytes (c # s) m = (if c = 0 then m else vga_write_bytes s (vga_writechar c m))"

definition vga_write :: "string \<Rightarrow> 'a vga_scheme \<Rightarrow> 'a vga_scheme" where
  "vga_write s m = vga_write_bytes (bytes_of s) m"

fun vga_writehex :: "u32 \<Rightarrow> nat \<Rightarrow> 'a vga_scheme \<Rightarrow> 'a vga_scheme" where
  "vga_writehex val 0 m = m"
| "vga_writehex val (Suc digits) m =
    vga_writehex val digits (vga_writechar (hexdigit (unat (drop_bit (digits * 4) val AND 0xF))) m)"

text \<open>The two blocks of \<^verbatim>\<open>vga_init\<close> that read the BIOS data area.\<close>

definition vga_bios_geometry :: "'a vga_scheme \<Rightarrow> 'a vga_scheme" where
  "vga_bios_geometry m =
    (let bios_rows = mem m 0x484 + 1;
         bios_cols = ucast (load16 (mem m) 0x44A) :: u8
     in if (bios_cols = 40 \<or> bios_cols = 80 \<or> bios_cols = 32) \<and> bios_rows \<ge> 10 \<and> bios_rows \<le> 60
        then m\<lparr>VGA_alpha_rows := ucast bios_rows, VGA_alpha_columns := ucast bios_cols\<rparr> else m)"

definition vga_bios_cursor :: "'a vga_scheme \<Rightarrow> 'a vga_scheme" where
  "vga_bios_cursor m =
    (let x = mem m 0x450; y = mem m 0x451
     in if ucast x < VGA_alpha_columns m \<and> ucast y < VGA_alpha_rows m
        then m\<lparr>VGA_alpha_x := ucast x, VGA_alpha_y := ucast y\<rparr> else m)"

definition vga_init :: "'a vga_scheme \<Rightarrow> 'a vga_scheme" where
  "vga_init m =
    (let m = m\<lparr>VGA_alpha := 0xB8000, VGA_alpha_rows := 80, VGA_alpha_columns := 25,
               VGA_iobase := 0x3D0\<rparr>;
         m = vga_bios_geometry m;
         m = m\<lparr>VGA_alpha_x := 0, VGA_alpha_y := VGA_alpha_rows m - 1\<rparr>
     in vga_bios_cursor m)"

subsection \<open>Console helpers of c-main.c\<close>

definition vga_clear :: "'a vga_scheme \<Rightarrow> 'a vga_scheme" where
  "vga_clear m =
    (let xmax = VGA_alpha_rows m * VGA_alpha_columns m
     in m\<lparr>mem := fold (\<lambda>x mm. store16 mm (VGA_alpha m + 2 * of_nat x) 0x0720)
                   [0..<unat xmax] (mem m)\<rparr>)"

definition vga_home :: "'a vga_scheme \<Rightarrow> 'a vga_scheme" where
  "vga_home m = m\<lparr>VGA_alpha_x := 0, VGA_alpha_y := 0\<rparr>"

definition vga_color :: "u8 \<Rightarrow> 'a vga_scheme \<Rightarrow> 'a vga_scheme" where
  "vga_color c m = m\<lparr>VGA_color := c\<rparr>"

definition vga_normal :: "'a vga_scheme \<Rightarrow> 'a vga_scheme" where
  "vga_normal m = m\<lparr>VGA_color := 7\<rparr>"

text \<open>
  The digit stack of \<^verbatim>\<open>vga_write_dec\<close>: twelve slots filled from the end; the counter is the number
  of slots still free.
\<close>

fun dec_stack :: "nat \<Rightarrow> u32 \<Rightarrow> u8 list \<Rightarrow> u8 list" where
  "dec_stack 0 x stk = stk"
| "dec_stack (Suc stki) x stk =
    (if x \<noteq> 0 then dec_stack stki (x div 10) (ucast (x mod 10) # stk) else stk)"

definition vga_write_dec :: "u32 \<Rightarrow> 'a vga_scheme \<Rightarrow> 'a vga_scheme" where
  "vga_write_dec x m =
    fold (\<lambda>d. vga_writechar (d + 0x30)) (dec_stack 11 (x div 10) [ucast (x mod 10)]) m"

definition vga_write_ipv4 :: "u8 list \<Rightarrow> 'a vga_scheme \<Rightarrow> 'a vga_scheme" where
  "vga_write_ipv4 p m =
    (let m = vga_writechar 0x2E (vga_write_dec (ucast (p ! 0)) m);
         m = vga_writechar 0x2E (vga_write_dec (ucast (p ! 1)) m);
         m = vga_writechar 0x2E (vga_write_dec (ucast (p ! 2)) m)
     in vga_write_dec (ucast (p ! 3)) m)"

section \<open>What the console leaves alone\<close>

text \<open>
  One lemma carries every frame fact: a console write changes memory, the port history and the
  cursor, and no other component of the state, whatever record extends it.
\<close>

definition console_only :: "'a vga_scheme \<Rightarrow> 'a vga_scheme \<Rightarrow> bool" where
  "console_only m m' \<longleftrightarrow>
    (m' = m\<lparr>mem := mem m', hist := hist m', VGA_alpha_x := VGA_alpha_x m', VGA_alpha_y := VGA_alpha_y m'\<rparr>)"

lemma console_only_refl [simp]: "console_only m m"
  by (simp add: console_only_def)

lemma console_only_trans [trans]:
  "console_only m m' \<Longrightarrow> console_only m' m'' \<Longrightarrow> console_only m m''"
proof (unfold console_only_def)
  assume 1: "m' = m\<lparr>mem := mem m', hist := hist m', VGA_alpha_x := VGA_alpha_x m', VGA_alpha_y := VGA_alpha_y m'\<rparr>"
    and 2: "m'' = m'\<lparr>mem := mem m'', hist := hist m'', VGA_alpha_x := VGA_alpha_x m'', VGA_alpha_y := VGA_alpha_y m''\<rparr>"
  show "m'' = m\<lparr>mem := mem m'', hist := hist m'', VGA_alpha_x := VGA_alpha_x m'', VGA_alpha_y := VGA_alpha_y m''\<rparr>"
    by (subst 2, subst 1) simp
qed

lemma vga_writechar_console: "console_only m (vga_writechar c m)" for c m
  by (simp add: console_only_def vga_writechar_def vga_update_cursor_def vga_crtc_write_def
      vga_cursor_right_def vga_cursor_down_def vga_scrollup_def io_outb_def Let_def)

section \<open>Abstract terminal and refinement\<close>

record terminal =
  t_rows :: nat
  t_cols :: nat
  t_x :: nat
  t_y :: nat
  t_cells :: "u8 list" \<comment> \<open>character and attribute, row by row\<close>

definition t_scroll :: "terminal \<Rightarrow> terminal" where
  "t_scroll t = t\<lparr>t_cells := drop (2 * t_cols t) (t_cells t) @ replicate (2 * t_cols t) 0\<rparr>"

definition t_down :: "terminal \<Rightarrow> terminal" where
  "t_down t = (if Suc (t_y t) < t_rows t then t\<lparr>t_y := Suc (t_y t)\<rparr> else t_scroll t)"

definition t_right :: "terminal \<Rightarrow> terminal" where
  "t_right t = (if Suc (t_x t) < t_cols t then t\<lparr>t_x := Suc (t_x t)\<rparr> else t_down (t\<lparr>t_x := 0\<rparr>))"

definition t_put :: "u8 \<Rightarrow> u8 \<Rightarrow> terminal \<Rightarrow> terminal" where
  "t_put color c t =
    (let k = 2 * (t_y t * t_cols t + t_x t)
     in t\<lparr>t_cells := take k (t_cells t) @ [c, color] @ drop (k + 2) (t_cells t)\<rparr>)"

definition t_putc :: "u8 \<Rightarrow> terminal \<Rightarrow> u8 \<Rightarrow> terminal" where
  "t_putc color t c =
    (if c = 13 then t\<lparr>t_x := 0\<rparr> else if c = 10 then t_down t else t_right (t_put color c t))"

definition term_of :: "'a vga_scheme \<Rightarrow> terminal" where
  "term_of m = \<lparr>t_rows = unat (VGA_alpha_rows m), t_cols = unat (VGA_alpha_columns m),
     t_x = unat (VGA_alpha_x m), t_y = unat (VGA_alpha_y m),
     t_cells = load_bytes (mem m) (VGA_alpha m)
       (2 * (unat (VGA_alpha_rows m) * unat (VGA_alpha_columns m)))\<rparr>"

definition vga_ok :: "'a vga_scheme \<Rightarrow> bool" where
  "vga_ok m \<longleftrightarrow> unat (VGA_alpha_rows m) \<le> 255 \<and> unat (VGA_alpha_columns m) \<le> 255 \<and>
    unat (VGA_alpha_x m) < unat (VGA_alpha_columns m) \<and>
    unat (VGA_alpha_y m) < unat (VGA_alpha_rows m)"

lemma le16_cell: "le16 (push_bit 8 (ucast color) OR ucast c) = [c, color :: u8]"
proof -
  have "ucast (push_bit 8 (ucast color :: u16) OR ucast c) = c"
    by (rule bit_word_eqI) (auto simp: bit_simps)
  moreover have "ucast (drop_bit 8 (push_bit 8 (ucast color :: u16) OR ucast c)) = color"
    by (rule bit_word_eqI) (auto simp: bit_simps dest: bit_imp_le_length)
  ultimately show ?thesis by (simp add: le16_def)
qed

lemma vga_scrollup_fields [simp]:
  "VGA_alpha (vga_scrollup m) = VGA_alpha m"
  "VGA_alpha_rows (vga_scrollup m) = VGA_alpha_rows m"
  "VGA_alpha_columns (vga_scrollup m) = VGA_alpha_columns m"
  "VGA_alpha_x (vga_scrollup m) = VGA_alpha_x m" "VGA_alpha_y (vga_scrollup m) = VGA_alpha_y m"
  "VGA_color (vga_scrollup m) = VGA_color m"
  by (simp_all add: vga_scrollup_def Let_def)

text \<open>Scrolling as two writes at constant offsets into the display.\<close>

lemma vga_scrollup_mem:
  assumes "vga_ok m"
  defines "a \<equiv> VGA_alpha m" and "R \<equiv> unat (VGA_alpha_rows m)" and "C \<equiv> unat (VGA_alpha_columns m)"
  shows "mem (vga_scrollup m) =
    mem_write (mem_write (mem m) a (drop (2 * C) (load_bytes (mem m) a (2 * (R * C)))))
      (a + of_nat (2 * ((R - 1) * C))) (replicate (2 * C) 0)"
    and "2 * (R * C) = 2 * ((R - 1) * C) + 2 * C" and "2 * (R * C) < 2 ^ 32"
proof -
  have R1: "0 < R" "R \<le> 255" "C \<le> 255" using assms by (auto simp: vga_ok_def)
  have RC: "R * C \<le> 255 * 255" using mult_le_mono [OF R1(2,3)] by simp
  define q where "q = 2 * ((R - 1) * C)"
  have w: "VGA_alpha_rows m = of_nat R" "VGA_alpha_columns m = of_nat C"
    by (simp_all add: R_def C_def)
  show n: "2 * (R * C) = 2 * ((R - 1) * C) + 2 * C" using R1(1) by (cases R) simp_all
  show "2 * (R * C) < 2 ^ 32" using RC by (simp add: mult.commute [of C])
  have "(of_nat R - 1 :: u32) = of_nat (R - 1)" using R1(1) by simp
  then have qw: "((of_nat R - 1) * of_nat C * 2 :: u32) = of_nat q"
    "(of_nat C * 2 :: u32) = of_nat (2 * C)"
    by (simp_all add: q_def mult.commute)
  have len: "unat ((of_nat R - 1) * of_nat C * 2 :: u32) = q" "unat (of_nat C * 2 :: u32) = 2 * C"
  proof -
    have "q < 4294967296" "2 * C < 4294967296"
      using RC n R1(3) unfolding q_def by linarith+
    then show "unat ((of_nat R - 1) * of_nat C * 2 :: u32) = q"
      "unat (of_nat C * 2 :: u32) = 2 * C"
      unfolding qw by (simp_all del: of_nat_mult)
  qed
  have at: "a + 2 * of_nat C = a + of_nat (2 * C)"
    "a + 2 * ((of_nat R - 1) * of_nat C) = a + of_nat q"
    using qw by (simp_all add: mult.commute)
  have "load_bytes (mem m) (a + of_nat (2 * C)) q = drop (2 * C) (load_bytes (mem m) a (2 * (R * C)))"
    using load_bytes_sub [of "2 * C" q "2 * (R * C)" "mem m" a] n by (simp add: q_def)
  then show "mem (vga_scrollup m) =
    mem_write (mem_write (mem m) a (drop (2 * C) (load_bytes (mem m) a (2 * (R * C)))))
      (a + of_nat (2 * ((R - 1) * C))) (replicate (2 * C) 0)"
    unfolding q_def [symmetric]
    by (simp add: vga_scrollup_def Let_def memcpy_def memset_def a_def [symmetric] w len at
        del: of_nat_mult)
qed

lemma vga_scrollup_refines:
  assumes "vga_ok m"
  shows "term_of (vga_scrollup m) = t_scroll (term_of m)"
proof -
  let ?R = "unat (VGA_alpha_rows m)" and ?C = "unat (VGA_alpha_columns m)" and ?a = "VGA_alpha m"
  note sc = vga_scrollup_mem [OF assms]
  let ?s = "load_bytes (mem m) ?a (2 * (?R * ?C))"
  let ?m1 = "mem_write (mem m) ?a (drop (2 * ?C) ?s)"
  have "load_bytes ?m1 ?a (2 * (?R * ?C)) = drop (2 * ?C) ?s @ drop (2 * ((?R - 1) * ?C)) ?s"
    using load_write_inside [of 0 "drop (2 * ?C) ?s" "2 * (?R * ?C)" "mem m" ?a] sc(2,3) by simp
  then have "load_bytes (mem (vga_scrollup m)) ?a (2 * (?R * ?C)) =
    drop (2 * ?C) ?s @ replicate (2 * ?C) 0"
    unfolding sc(1)
    using load_write_inside [of "2 * ((?R - 1) * ?C)" "replicate (2 * ?C) 0" "2 * (?R * ?C)" ?m1 ?a] sc(2,3)
    by simp
  then show ?thesis by (simp add: term_of_def t_scroll_def)
qed

lemma term_of_update [simp]:
  "term_of (m\<lparr>VGA_alpha_x := x\<rparr>) = (term_of m)\<lparr>t_x := unat x\<rparr>"
  "term_of (m\<lparr>VGA_alpha_y := y\<rparr>) = (term_of m)\<lparr>t_y := unat y\<rparr>"
  by (simp_all add: term_of_def)

lemma term_of_fields [simp]:
  "t_rows (term_of m) = unat (VGA_alpha_rows m)" "t_cols (term_of m) = unat (VGA_alpha_columns m)"
  "t_x (term_of m) = unat (VGA_alpha_x m)" "t_y (term_of m) = unat (VGA_alpha_y m)"
  by (simp_all add: term_of_def)

lemma unat_inc_small: "unat (w :: u32) < 255 \<Longrightarrow> unat (w + 1) = Suc (unat w)"
  by (simp add: unat_word_ariths(1))

lemma vga_scrollup_ok: "vga_ok (vga_scrollup m) = vga_ok m"
  by (simp add: vga_ok_def)

lemma vga_cursor_down_cases:
  assumes "vga_ok m"
  shows "vga_cursor_down m =
    (if Suc (unat (VGA_alpha_y m)) < unat (VGA_alpha_rows m)
     then m\<lparr>VGA_alpha_y := VGA_alpha_y m + 1\<rparr> else vga_scrollup m)"
proof -
  have y: "unat (VGA_alpha_y m + 1) = Suc (unat (VGA_alpha_y m))"
    using assms by (intro unat_inc_small) (simp add: vga_ok_def)
  show ?thesis
  proof (cases "Suc (unat (VGA_alpha_y m)) < unat (VGA_alpha_rows m)")
    case True
    then show ?thesis using y by (simp add: vga_cursor_down_def word_le_nat_alt)
  next
    case False
    then have "unat (VGA_alpha_rows m) = unat (VGA_alpha_y m + 1)"
      using assms y by (simp add: vga_ok_def)
    then have "VGA_alpha_rows m = VGA_alpha_y m + 1" by (simp only: word_unat_eq_iff)
    then show ?thesis using False by (simp add: vga_cursor_down_def)
  qed
qed

lemma vga_cursor_down_refines:
  assumes "vga_ok m"
  shows "term_of (vga_cursor_down m) = t_down (term_of m) \<and> vga_ok (vga_cursor_down m)"
  using assms unat_inc_small [of "VGA_alpha_y m"]
  by (auto simp: vga_cursor_down_cases vga_scrollup_refines t_down_def vga_scrollup_ok vga_ok_def)

lemma vga_cursor_right_refines:
  assumes "vga_ok m"
  shows "term_of (vga_cursor_right m) = t_right (term_of m) \<and> vga_ok (vga_cursor_right m)"
proof -
  have x: "unat (VGA_alpha_x m + 1) = Suc (unat (VGA_alpha_x m))"
    using assms by (intro unat_inc_small) (simp add: vga_ok_def)
  have "vga_ok (m\<lparr>VGA_alpha_x := 0\<rparr>)" using assms by (simp add: vga_ok_def)
  from vga_cursor_down_refines [OF this] x assms show ?thesis
    by (auto simp: vga_cursor_right_def t_right_def vga_ok_def word_le_nat_alt)
qed

lemma vga_update_cursor_fields [simp]:
  "term_of (vga_update_cursor m) = term_of m" "vga_ok (vga_update_cursor m) = vga_ok m"
  "VGA_color (vga_update_cursor m) = VGA_color m" "mem (vga_update_cursor m) = mem m"
  by (simp_all add: vga_update_cursor_def vga_crtc_write_def io_outb_def Let_def term_of_def vga_ok_def)

lemma vga_put_refines:
  fixes m :: "'a vga_scheme" and c :: u8
  assumes "vga_ok m"
  defines "m' \<equiv> m\<lparr>mem := store16 (mem m) (vga_alpha_char_ptr (VGA_alpha_x m) (VGA_alpha_y m) m)
     (push_bit 8 (ucast (VGA_color m)) OR ucast c)\<rparr>"
  shows "term_of m' = t_put (VGA_color m) c (term_of m) \<and> vga_ok m'"
proof -
  obtain R where R: "VGA_alpha_rows m = of_nat R" "unat (VGA_alpha_rows m) = R"
    by (rule u32_as_nat)
  obtain C where C: "VGA_alpha_columns m = of_nat C" "unat (VGA_alpha_columns m) = C"
    by (rule u32_as_nat)
  obtain x where x: "VGA_alpha_x m = of_nat x" "unat (VGA_alpha_x m) = x" by (rule u32_as_nat)
  obtain y where y: "VGA_alpha_y m = of_nat y" "unat (VGA_alpha_y m) = y" by (rule u32_as_nat)
  have b: "R \<le> 255" "C \<le> 255" "x < C" "y < R" using assms(1) R C x y by (auto simp: vga_ok_def)
  have "Suc y * C \<le> R * C" using b(4) by (intro mult_le_mono1) simp
  moreover have "R * C \<le> 255 * 255" using mult_le_mono [OF b(1,2)] by simp
  ultimately have k: "2 * (y * C + x) + 2 \<le> 2 * (R * C)" "2 * (R * C) < 2 ^ 32"
    using b(3) by (simp_all add: mult.commute [of C])
  have ptr: "vga_alpha_char_ptr (VGA_alpha_x m) (VGA_alpha_y m) m =
      VGA_alpha m + of_nat (2 * (y * C + x))"
    by (simp add: vga_alpha_char_ptr_def x y C algebra_simps)
  show ?thesis
    using load_write_inside [of "2 * (y * C + x)" "[c, VGA_color m]" "2 * (R * C)" "mem m" "VGA_alpha m"]
      k assms(1)
    by (simp add: m'_def store16_def le16_cell ptr term_of_def t_put_def Let_def R(2) C(2) x(2) y(2)
        vga_ok_def)
qed

lemma vga_writechar_refines:
  assumes "vga_ok m"
  shows "term_of (vga_writechar c m) = t_putc (VGA_color m) (term_of m) c \<and>
    vga_ok (vga_writechar c m)"
proof -
  let ?put = "m\<lparr>mem := store16 (mem m) (vga_alpha_char_ptr (VGA_alpha_x m) (VGA_alpha_y m) m)
     (push_bit 8 (ucast (VGA_color m)) OR ucast c)\<rparr>"
  have "term_of (vga_cursor_right ?put) = t_right (t_put (VGA_color m) c (term_of m))"
    "vga_ok (vga_cursor_right ?put)"
    using vga_put_refines [OF assms, of c] vga_cursor_right_refines [of ?put] by simp_all
  moreover have "vga_ok (m\<lparr>VGA_alpha_x := 0\<rparr>)" using assms by (simp add: vga_ok_def)
  ultimately show ?thesis
    using vga_cursor_down_refines [OF assms] by (simp add: vga_writechar_def t_putc_def)
qed

subsection \<open>The display is the only memory the console writes\<close>

definition vga_size :: "'a vga_scheme \<Rightarrow> nat" where
  "vga_size m = 2 * (unat (VGA_alpha_rows m) * unat (VGA_alpha_columns m))"

definition outside_display :: "'a vga_scheme \<Rightarrow> u32 \<Rightarrow> bool" where
  "outside_display m x \<longleftrightarrow> vga_size m \<le> unat (x - VGA_alpha m)"

lemma vga_scrollup_outside:
  assumes "vga_ok m" and "outside_display m x"
  shows "mem (vga_scrollup m) x = mem m x"
proof -
  let ?R = "unat (VGA_alpha_rows m)" and ?C = "unat (VGA_alpha_columns m)"
  note sc = vga_scrollup_mem [OF assms(1)]
  have n: "vga_size m \<le> unat (x - VGA_alpha m)" using assms(2) by (simp add: outside_display_def)
  then show ?thesis
    unfolding sc(1)
    using mem_write_outside [of "2 * ((?R - 1) * ?C)" "replicate (2 * ?C) 0" "vga_size m" x "VGA_alpha m"]
      mem_write_outside [of 0 "drop (2 * ?C) (load_bytes (mem m) (VGA_alpha m) (2 * (?R * ?C)))" "vga_size m" x "VGA_alpha m"]
      sc(2) by (simp add: vga_size_def del: of_nat_mult)
qed

lemma vga_cursor_down_outside:
  "vga_ok m \<Longrightarrow> outside_display m x \<Longrightarrow> mem (vga_cursor_down m) x = mem m x"
  by (simp add: vga_cursor_down_cases vga_scrollup_outside)

lemma vga_cursor_right_outside:
  assumes "vga_ok m" and "outside_display m x"
  shows "mem (vga_cursor_right m) x = mem m x"
proof -
  have "vga_ok (m\<lparr>VGA_alpha_x := 0\<rparr>)" "outside_display (m\<lparr>VGA_alpha_x := 0\<rparr>) x"
    using assms by (auto simp: vga_ok_def outside_display_def vga_size_def)
  from vga_cursor_down_outside [OF this] show ?thesis by (simp add: vga_cursor_right_def Let_def)
qed

lemma vga_put_outside:
  assumes "vga_ok m" and "outside_display m x"
  shows "store16 (mem m) (vga_alpha_char_ptr (VGA_alpha_x m) (VGA_alpha_y m) m) w x = mem m x"
proof -
  let ?C = "unat (VGA_alpha_columns m)" and ?x = "unat (VGA_alpha_x m)" and ?y = "unat (VGA_alpha_y m)"
  have "Suc ?y * ?C \<le> unat (VGA_alpha_rows m) * ?C"
    using assms(1) by (intro mult_le_mono1) (simp add: vga_ok_def)
  then have "2 * (?y * ?C + ?x) + 2 \<le> vga_size m"
    using assms(1) by (simp add: vga_ok_def vga_size_def)
  moreover have "vga_alpha_char_ptr (VGA_alpha_x m) (VGA_alpha_y m) m =
      VGA_alpha m + of_nat (2 * (?y * ?C + ?x))"
    by (simp add: vga_alpha_char_ptr_def algebra_simps)
  ultimately show ?thesis
    using assms(2) mem_write_outside [of "2 * (?y * ?C + ?x)" "le16 w" "vga_size m" x "VGA_alpha m"]
    by (simp add: store16_def outside_display_def)
qed

text \<open>
  What holds between the states before and after any console output: nothing but the console
  state changes, and a consistent cursor stays consistent and inside the display.
\<close>

definition console_step :: "'a vga_scheme \<Rightarrow> 'a vga_scheme \<Rightarrow> bool" where
  "console_step m m' \<longleftrightarrow> console_only m m' \<and>
    (vga_ok m \<longrightarrow> vga_ok m' \<and> (\<forall>x. outside_display m x \<longrightarrow> mem m' x = mem m x))"

lemma console_only_display:
  assumes "console_only m m'"
  shows "outside_display m' = outside_display m" "vga_size m' = vga_size m"
  by (subst assms [unfolded console_only_def], simp add: fun_eq_iff outside_display_def vga_size_def)+

lemma console_step_refl [simp]: "console_step m m"
  by (simp add: console_step_def)

lemma console_step_trans [trans]:
  "console_step m m' \<Longrightarrow> console_step m' m'' \<Longrightarrow> console_step m m''"
  unfolding console_step_def
  using console_only_display(1) [of m m'] by (auto intro: console_only_trans)

lemma vga_writechar_step: "console_step m (vga_writechar c m)"
proof (cases "vga_ok m")
  case True
  have "mem (vga_writechar c m) x = mem m x" if x: "outside_display m x" for x
  proof -
    let ?p = "m\<lparr>mem := store16 (mem m) (vga_alpha_char_ptr (VGA_alpha_x m) (VGA_alpha_y m) m)
       (push_bit 8 (ucast (VGA_color m)) OR ucast c)\<rparr>"
    have "vga_ok ?p" "outside_display ?p x"
      using True x by (auto simp: vga_ok_def outside_display_def vga_size_def)
    from vga_cursor_right_outside [OF this] show ?thesis
      using vga_put_outside [OF True x] vga_cursor_down_outside [OF True x]
      by (simp add: vga_writechar_def)
  qed
  then show ?thesis
    using vga_writechar_console vga_writechar_refines [OF True] by (auto simp: console_step_def)
next
  case False
  then show ?thesis using vga_writechar_console by (auto simp: console_step_def)
qed

lemma vga_write_bytes_step: "console_step m (vga_write_bytes s m)"
proof (induction s m rule: vga_write_bytes.induct)
  case (2 c s m)
  then show ?case
    using vga_writechar_step [of m c] by (auto intro: console_step_trans)
qed simp

lemma fold_step: "(\<And>x m. console_step m (f x m)) \<Longrightarrow> console_step m (fold f xs m)"
  by (induction xs arbitrary: m) (auto intro: console_step_trans)

lemma vga_writehex_step: "console_step m (vga_writehex v d m)"
proof (induction v d m rule: vga_writehex.induct)
  case (2 v d m)
  show ?case
    unfolding vga_writehex.simps by (rule console_step_trans [OF vga_writechar_step "2"])
qed simp

lemma vga_write_step: "console_step m (vga_write s m)"
  by (simp add: vga_write_def vga_write_bytes_step)

lemma vga_write_dec_step: "console_step m (vga_write_dec x m)"
  unfolding vga_write_dec_def by (rule fold_step) (rule vga_writechar_step)

lemma vga_write_ipv4_step: "console_step m (vga_write_ipv4 p m)"
  unfolding vga_write_ipv4_def Let_def
  by (meson console_step_trans vga_writechar_step vga_write_dec_step)

lemma console_stepE:
  assumes "console_step m m'"
  obtains mm hs x y where "m' = m\<lparr>mem := mm, hist := hs, VGA_alpha_x := x, VGA_alpha_y := y\<rparr>"
  using assms that unfolding console_step_def console_only_def by blast

lemma console_step_load:
  assumes "console_step m m'" and "vga_ok m" and "apart p n (VGA_alpha m) (vga_size m)"
  shows "load_bytes (mem m') p n = load_bytes (mem m) p n"
proof (rule load_bytes_cong)
  fix i assume "i < n"
  then have "outside_display m (p + of_nat i)"
    using apart_not_in [OF assms(3)] by (simp add: outside_display_def)
  then show "mem m' (p + of_nat i) = mem m (p + of_nat i)"
    using assms(1,2) by (simp add: console_step_def)
qed

section \<open>Properties\<close>

lemma vga_write_bytes_refines:
  assumes "vga_ok m" and "0 \<notin> set s"
  shows "term_of (vga_write_bytes s m) = foldl (t_putc (VGA_color m)) (term_of m) s \<and>
    vga_ok (vga_write_bytes s m)"
  using assms
proof (induction s arbitrary: m)
  case (Cons c s)
  have "VGA_color (vga_writechar c m) = VGA_color m"
    by (subst vga_writechar_console [of m c, unfolded console_only_def]) simp
  with Cons.prems Cons.IH [of "vga_writechar c m"] show ?case
    by (auto simp: vga_writechar_refines)
qed simp

text \<open>
  C10. Writing a string to the console refines the abstract terminal: from a consistent cursor,
  the display after \<^verbatim>\<open>vga_write\<close> is what putting the characters one by one on a terminal with
  that geometry gives (carriage return, line feed, wrap at the right margin and scrolling at the
  bottom included), and the cursor stays inside the display.
\<close>

theorem vga_write_refines:
  assumes "vga_ok m" and "0 \<notin> set (bytes_of s)"
  shows "term_of (vga_write s m) = foldl (t_putc (VGA_color m)) (term_of m) (bytes_of s) \<and>
    vga_ok (vga_write s m)"
  unfolding vga_write_def using assms by (rule vga_write_bytes_refines)

definition vga_example :: vga where
  "vga_example = \<lparr>mem = (\<lambda>_. 0), hist = [], fault = None, alloc = 0, VGA_alpha = 0xB8000,
     VGA_alpha_rows = 25, VGA_alpha_columns = 80, VGA_alpha_x = 79, VGA_alpha_y = 24,
     VGA_color = 7, VGA_iobase = 0x3D0\<rparr>"

lemma vga_example_ok: "vga_ok vga_example"
  by (simp add: vga_ok_def vga_example_def)

theorem vga_write_refines_witness:
  "term_of (vga_write ''K!'' vga_example) =
    foldl (t_putc (VGA_color vga_example)) (term_of vga_example) (bytes_of ''K!'') \<and>
   vga_ok (vga_write ''K!'' vga_example)"
  by (rule vga_write_refines [OF vga_example_ok]) simp

text \<open>
  Console output touches nothing else: from a consistent cursor no byte outside the
  display changes, and of the rest of the state only the cursor and the port history do.
\<close>

theorem vga_write_frame:
  assumes "vga_ok m" and "outside_display m x"
  shows "mem (vga_write s m) x = mem m x \<and> console_only m (vga_write s m)"
  using vga_write_step [of m s] assms by (simp add: console_step_def)

theorem vga_write_frame_witness:
  "mem (vga_write ''OK'' vga_example) 0x7C00 = mem vga_example 0x7C00 \<and>
   console_only vga_example (vga_write ''OK'' vga_example)"
  by (rule vga_write_frame [OF vga_example_ok])
    (simp add: outside_display_def vga_size_def vga_example_def)

lemma vga_bios_geometry_range:
  assumes "VGA_alpha_rows m = 80" and "VGA_alpha_columns m = 25"
  shows "0 < unat (VGA_alpha_rows (vga_bios_geometry m)) \<and>
    unat (VGA_alpha_rows (vga_bios_geometry m)) \<le> 255 \<and>
    0 < unat (VGA_alpha_columns (vga_bios_geometry m)) \<and>
    unat (VGA_alpha_columns (vga_bios_geometry m)) \<le> 255"
  using assms by (auto simp: vga_bios_geometry_def Let_def word_le_nat_alt)

lemma vga_bios_geometry_simps [simp]:
  "VGA_alpha (vga_bios_geometry m) = VGA_alpha m"
  "load16 (mem m) 0x44A = 0 \<Longrightarrow> vga_bios_geometry m = m"
  by (simp_all add: vga_bios_geometry_def Let_def)

lemma vga_bios_cursor_fields [simp]:
  "VGA_alpha (vga_bios_cursor m) = VGA_alpha m"
  "VGA_alpha_rows (vga_bios_cursor m) = VGA_alpha_rows m"
  "VGA_alpha_columns (vga_bios_cursor m) = VGA_alpha_columns m"
  by (simp_all add: vga_bios_cursor_def Let_def)

lemma vga_bios_cursor_ok: "vga_ok m \<Longrightarrow> vga_ok (vga_bios_cursor m)"
  by (auto simp: vga_bios_cursor_def vga_ok_def Let_def word_less_nat_alt)

text \<open>
  \<^verbatim>\<open>vga_init\<close> always leaves a consistent console, whatever the BIOS data area holds; but
  when the BIOS geometry is not one it accepts, it falls back to 80 rows of 25 columns, the
  transpose of the 80-column, 25-row text mode.
\<close>

theorem vga_init_ok:
  "vga_ok (vga_init m) \<and> VGA_alpha (vga_init m) = 0xB8000 \<and>
   (load16 (mem m) 0x44A = 0 \<longrightarrow>
     VGA_alpha_rows (vga_init m) = 80 \<and> VGA_alpha_columns (vga_init m) = 25)"
proof -
  let ?m = "m\<lparr>VGA_alpha := 0xB8000, VGA_alpha_rows := 80, VGA_alpha_columns := 25, VGA_iobase := 0x3D0\<rparr>"
  let ?g = "vga_bios_geometry ?m"
  have r: "0 < unat (VGA_alpha_rows ?g) \<and> unat (VGA_alpha_rows ?g) \<le> 255 \<and>
    0 < unat (VGA_alpha_columns ?g) \<and> unat (VGA_alpha_columns ?g) \<le> 255"
    by (rule vga_bios_geometry_range) simp_all
  then have "unat (VGA_alpha_rows ?g - 1) = unat (VGA_alpha_rows ?g) - 1"
    by (simp add: unat_sub word_le_nat_alt)
  with r have "vga_ok (?g\<lparr>VGA_alpha_x := 0, VGA_alpha_y := VGA_alpha_rows ?g - 1\<rparr>)"
    by (simp add: vga_ok_def)
  from vga_bios_cursor_ok [OF this] show ?thesis
    by (simp add: vga_init_def Let_def)
qed

theorem vga_init_ok_witness:
  "vga_ok (vga_init vga_example) \<and> VGA_alpha_rows (vga_init vga_example) = 80 \<and>
   VGA_alpha_columns (vga_init vga_example) = 25"
  using vga_init_ok [of vga_example] by (simp add: vga_example_def load16_def)

end
