(* ===== verification/Keyb8042.thy ===== *)
theory Keyb8042
  imports Vga
begin

text \<open>
  The keyboard controller driver of \<^verbatim>\<open>src/eth/keyb8042.c\<close> and the scan code table of
  \<^verbatim>\<open>src/eth/c-main.c\<close>. Every wait is an unbounded poll of the status port, so the operations return
  an option: \<open>None\<close> is a controller that never becomes ready.
\<close>

abbreviation IO_KEYBOARD_BUFFER :: u8 where "IO_KEYBOARD_BUFFER \<equiv> 0x60"
abbreviation IO_KEYBOARD_COMMAND :: u8 where "IO_KEYBOARD_COMMAND \<equiv> 0x64"
abbreviation IO_KEYBOARD_STATUS :: u8 where "IO_KEYBOARD_STATUS \<equiv> 0x64"

section \<open>Polling and single bytes\<close>

definition keyb8042_wait_for_output_ready ::
  "'h hw_scheme \<Rightarrow> 'a vga_scheme \<Rightarrow> 'a vga_scheme option" where
  "keyb8042_wait_for_output_ready h m =
    map_option snd (while_option (\<lambda>(s, m). s AND 2 \<noteq> 0)
      (\<lambda>(s, m). io_inbi_d h IO_KEYBOARD_STATUS (io_delay h m)) (io_inbi_d h IO_KEYBOARD_STATUS m))"

definition keyb8042_wait_for_input_ready ::
  "'h hw_scheme \<Rightarrow> 'a vga_scheme \<Rightarrow> 'a vga_scheme option" where
  "keyb8042_wait_for_input_ready h m =
    map_option snd (while_option (\<lambda>(s, m). s AND 1 = 0)
      (\<lambda>(s, m). io_inbi_d h IO_KEYBOARD_STATUS (io_delay h m)) (io_inbi_d h IO_KEYBOARD_STATUS m))"

definition keyb8042_write_buffer :: "'h hw_scheme \<Rightarrow> u8 \<Rightarrow> 'a vga_scheme \<Rightarrow> 'a vga_scheme option" where
  "keyb8042_write_buffer h c m = do {
     m \<leftarrow> keyb8042_wait_for_output_ready h m;
     Some (io_outbi_d h IO_KEYBOARD_BUFFER c m) }"

definition keyb8042_read_buffer_imm :: "'h hw_scheme \<Rightarrow> 'a vga_scheme \<Rightarrow> int \<times> 'a vga_scheme" where
  "keyb8042_read_buffer_imm h m =
    (let (s, m) = io_inbi_d h IO_KEYBOARD_STATUS m
     in if s AND 1 \<noteq> 0
        then (let (c, m) = io_inbi_d h IO_KEYBOARD_BUFFER m in (uint c, m))
        else (-1, m))"

definition keyb8042_read_buffer :: "'h hw_scheme \<Rightarrow> 'a vga_scheme \<Rightarrow> (int \<times> 'a vga_scheme) option" where
  "keyb8042_read_buffer h m =
    while_option (\<lambda>(r, m). r < 0) (\<lambda>(r, m). keyb8042_read_buffer_imm h (io_delay h m))
      (keyb8042_read_buffer_imm h m)"

definition keyb8042_write_command :: "'h hw_scheme \<Rightarrow> u8 \<Rightarrow> 'a vga_scheme \<Rightarrow> 'a vga_scheme option" where
  "keyb8042_write_command h c m = do {
     m \<leftarrow> keyb8042_wait_for_output_ready h m;
     Some (io_outbi_d h IO_KEYBOARD_COMMAND c m) }"

definition keyb8042_write_command_byte ::
  "'h hw_scheme \<Rightarrow> u8 \<Rightarrow> 'a vga_scheme \<Rightarrow> 'a vga_scheme option" where
  "keyb8042_write_command_byte h c m = do {
     m \<leftarrow> keyb8042_write_command h 0x60 m;
     m \<leftarrow> keyb8042_write_buffer h c m;
     keyb8042_wait_for_output_ready h m }"

definition keyb8042_write_leds :: "'h hw_scheme \<Rightarrow> u8 \<Rightarrow> 'a vga_scheme \<Rightarrow> 'a vga_scheme option" where
  "keyb8042_write_leds h c m = do {
     m \<leftarrow> keyb8042_write_buffer h 0xED m;
     keyb8042_write_buffer h c m }"

section \<open>Initialisation\<close>

text \<open>The recurring step of \<^verbatim>\<open>keyb8042_init\<close>: read a byte and complain unless it acknowledges.\<close>

definition keyb8042_expect_ack :: "'h hw_scheme \<Rightarrow> string \<Rightarrow> 'a vga_scheme \<Rightarrow> 'a vga_scheme option" where
  "keyb8042_expect_ack h msg m = do {
     (r, m) \<leftarrow> keyb8042_read_buffer h m;
     Some (if r \<noteq> 0xFA then vga_write msg m else m) }"

abbreviation crlf :: string where
  "crlf \<equiv> [CHR 0x0D, CHR 0x0A]"

text \<open>The reset block (lines 88 to 102).\<close>

definition keyb8042_reset :: "'h hw_scheme \<Rightarrow> 'a vga_scheme \<Rightarrow> 'a vga_scheme option" where
  "keyb8042_reset h m = do {
     m \<leftarrow> keyb8042_write_buffer h 0xFF m;
     (r, m) \<leftarrow> keyb8042_read_buffer h m;
     let (c, m) = (if (of_int r :: u8) \<noteq> 0xFA
                   then (let (r, m) = keyb8042_read_buffer_imm h m in (of_int r, m))
                   else (of_int r :: u8, m));
     m \<leftarrow> (if c \<noteq> 0xFA then do {
             let m = snd (keyb8042_read_buffer_imm h m);
             m \<leftarrow> keyb8042_write_buffer h 0xFF m;
             (r, m) \<leftarrow> keyb8042_read_buffer h m;
             Some (if (of_int r :: u8) \<noteq> 0xFA
                   then vga_write (''PS/2 keyboard reset does not give acknowledgement'' @ crlf) m else m) }
           else Some m);
     (r, m) \<leftarrow> keyb8042_read_buffer h m;
     Some (if (of_int r :: u8) \<noteq> 0xAA
           then vga_write (''PS/2 keyboard reset does not give self-test passed response'' @ crlf) m else m) }"

text \<open>Setting scan code set 1, done twice (lines 110 to 113 and 121 to 124).\<close>

definition keyb8042_scan_set_1 :: "'h hw_scheme \<Rightarrow> 'a vga_scheme \<Rightarrow> 'a vga_scheme option" where
  "keyb8042_scan_set_1 h m = do {
     m \<leftarrow> keyb8042_write_buffer h 0xF0 m;
     m \<leftarrow> keyb8042_expect_ack h (''PS/2 keyboard set scan code #2 (first): no ack'' @ crlf) m;
     m \<leftarrow> keyb8042_write_buffer h 1 m;
     keyb8042_expect_ack h (''PS/2 keyboard set scan code #2: no ack'' @ crlf) m }"

definition keyb8042_init :: "'h hw_scheme \<Rightarrow> 'a vga_scheme \<Rightarrow> 'a vga_scheme option" where
  "keyb8042_init h m = do {
     let m = snd (io_inbi_d h IO_KEYBOARD_BUFFER m);
     let m = snd (io_inbi_d h IO_KEYBOARD_BUFFER m);
     let m = snd (io_inbi_d h IO_KEYBOARD_STATUS m);
     let m = snd (io_inbi_d h IO_KEYBOARD_STATUS m);
     let (b, m) = io_inbi_d h IO_KEYBOARD_BUFFER m;
     let (absent, m) = (if b = 0xFF then (let (s, m) = io_inbi_d h IO_KEYBOARD_STATUS m in (s = 0xFF, m))
                        else (False, m));
     if absent then Some (vga_write (''PS/2 or compatible keyboard controller not present'' @ crlf) m)
     else do {
       m \<leftarrow> keyb8042_write_command h 0xAA m;
       (self_test, m) \<leftarrow> keyb8042_read_buffer h m;
       if self_test \<noteq> 0x55
       then Some (vga_write (''PS/2 or compatible keyboard controller gave incorrect response to self-test'' @ crlf) m)
       else do {
         m \<leftarrow> keyb8042_write_command_byte h 0x33 m;
         m \<leftarrow> keyb8042_write_command h 0xAB m;
         (keyb8042_test, m) \<leftarrow> keyb8042_read_buffer h m;
         let m = (if keyb8042_test \<ge> 1 \<and> keyb8042_test \<le> 3
                  then vga_write (''PS/2 keyboard self-test indicates possible problem'' @ crlf) m
                  else if keyb8042_test < 0 \<or> keyb8042_test \<ge> 0x10
                  then vga_write (''PS/2 keyboard self-test returned garbage results'' @ crlf) m else m);
         m \<leftarrow> keyb8042_reset h m;
         m \<leftarrow> keyb8042_write_buffer h 0xF5 m;
         m \<leftarrow> keyb8042_expect_ack h (''PS/2 keyboard 0xF5: no ack'' @ crlf) m;
         m \<leftarrow> keyb8042_write_leds h 0 m;
         m \<leftarrow> keyb8042_expect_ack h (''PS/2 keyboard set LEDs: no ack'' @ crlf) m;
         m \<leftarrow> keyb8042_scan_set_1 h m;
         m \<leftarrow> keyb8042_write_command h 0xAE m;
         m \<leftarrow> keyb8042_write_buffer h 0xF4 m;
         m \<leftarrow> keyb8042_expect_ack h (''PS/2 keyboard enable: no ack'' @ crlf) m;
         m \<leftarrow> keyb8042_scan_set_1 h m;
         keyb8042_write_leds h 7 m
       }
     }
   }"

section \<open>Keys\<close>

definition keyb8042_readkey :: "'h hw_scheme \<Rightarrow> 'a vga_scheme \<Rightarrow> (int \<times> 'a vga_scheme) option" where
  "keyb8042_readkey h m = do {
     let (b1, m) = keyb8042_read_buffer_imm h m;
     if b1 < 0 then Some (-1, m) else do {
       (b1, m) \<leftarrow> (if b1 = 0xE0 then do {
             (b2, m) \<leftarrow> keyb8042_read_buffer h m;
             Some (if b2 < 0 then -1 else 0xE000 OR b2, m) }
           else if b1 = 0xE1 then do {
             (b2, m) \<leftarrow> keyb8042_read_buffer h m;
             if b2 < 0 then Some (-1, m) else do {
               (b3, m) \<leftarrow> keyb8042_read_buffer h m;
               Some (if b3 < 0 then -1 else (0xE10000 OR push_bit 8 b2) OR b3, m) } }
           else Some (b1, m));
       Some (if b1 AND 0x80 \<noteq> 0 then -1 else b1, m) } }"

text \<open>Repeating a fallible read until its result is accepted; \<open>None\<close> if that never happens.\<close>

definition poll_until :: "('r \<Rightarrow> bool) \<Rightarrow> ('s \<Rightarrow> ('r \<times> 's) option) \<Rightarrow> 's \<Rightarrow> ('r \<times> 's) option" where
  "poll_until P f m = Option.bind
     (while_option (\<lambda>s. case s of None \<Rightarrow> False | Some (r, m) \<Rightarrow> \<not> P r)
        (\<lambda>s. case s of None \<Rightarrow> None | Some (r, m) \<Rightarrow> f m) (f m)) (\<lambda>s. s)"

lemma poll_until_result: "poll_until P f m = Some (r, m') \<Longrightarrow> P r"
  unfolding poll_until_def by (auto simp: bind_eq_Some_conv dest!: while_option_stop)

definition keyb8042_waitkey :: "'h hw_scheme \<Rightarrow> 'a vga_scheme \<Rightarrow> (int \<times> 'a vga_scheme) option" where
  "keyb8042_waitkey h m = poll_until (\<lambda>r. r \<noteq> -1) (keyb8042_readkey h) m"

definition keyb8042_map :: "int list" where
  "keyb8042_map = map (\<lambda>c. if c = CHR 0x00 then -1 else of_char c)
    ([CHR 0x00, CHR 0x1B] @ ''1234567890-='' @ [CHR 0x08, CHR 0x09] @
     ''qwertyuiop[]'' @ [CHR 0x0D, CHR 0x00] @ ''as'' @
     ''dfghjkl;'' @ [CHR 0x27, CHR 0x60, CHR 0x00, CHR 0x5C] @ ''zxcv'' @
     ''bnm,./*'' @ [CHR 0x00] @ '' '' @ replicate 7 (CHR 0x00) @
     replicate 0x40 (CHR 0x00))"

definition keyb8042_to_ascii :: "int \<Rightarrow> int" where
  "keyb8042_to_ascii r = (if r < 0 \<or> r \<ge> 0x80 then -1 else keyb8042_map ! nat r)"

lemma length_keyb8042_map [simp]: "length keyb8042_map = 0x80"
  by (simp add: keyb8042_map_def)

section \<open>What polling leaves alone\<close>

text \<open>Port traffic changes the history only.\<close>

definition ports_only :: "'a bus_scheme \<Rightarrow> 'a bus_scheme \<Rightarrow> bool" where
  "ports_only m m' \<longleftrightarrow> m' = m\<lparr>hist := hist m'\<rparr>"

lemma ports_only_refl [simp]: "ports_only m m"
  by (simp add: ports_only_def)

lemma ports_only_trans [trans]:
  assumes "ports_only m m'" and "ports_only m' m''"
  shows "ports_only m m''"
proof -
  have "m'' = (m\<lparr>hist := hist m'\<rparr>)\<lparr>hist := hist m''\<rparr>"
    using assms unfolding ports_only_def by metis
  then show ?thesis unfolding ports_only_def by simp
qed

lemma io_ports [simp]:
  "ports_only m (io_outb p b m)" "ports_only m (io_outw p w m)" "ports_only m (io_outl p l m)"
  "ports_only m (io_outbi q b m)" "ports_only m (io_outb_d h p b m)"
  "ports_only m (io_outbi_d h q b m)" "ports_only m (io_delay h m)"
  "ports_only m (snd (io_inb h p m))" "ports_only m (snd (io_inw h p m))"
  "ports_only m (snd (io_inl h p m))" "ports_only m (snd (io_inbi h q m))"
  "ports_only m (snd (io_inb_d h p m))" "ports_only m (snd (io_inbi_d h q m))"
  by (simp_all add: ports_only_def io_defs Let_def)

lemma io_ports_trans [simp]:
  assumes "ports_only m u"
  shows "ports_only m (io_outb p b u)" "ports_only m (io_outw p w u)" "ports_only m (io_outl p l u)"
    "ports_only m (io_outbi q b u)" "ports_only m (io_outb_d h p b u)"
    "ports_only m (io_outbi_d h q b u)" "ports_only m (io_delay h u)"
    "ports_only m (snd (io_inb h p u))" "ports_only m (snd (io_inw h p u))"
    "ports_only m (snd (io_inl h p u))" "ports_only m (snd (io_inbi h q u))"
    "ports_only m (snd (io_inb_d h p u))" "ports_only m (snd (io_inbi_d h q u))"
  using assms by (meson ports_only_trans io_ports)+

lemma io_in_ports:
  "io_inbi_d h q m = (b, m') \<Longrightarrow> ports_only m m'"
  using io_ports(13) [of m h q] by simp

lemma ports_only_step: "ports_only m m' \<Longrightarrow> console_step m m'"
proof -
  assume "ports_only m m'"
  then obtain hs where "m' = m\<lparr>hist := hs\<rparr>" by (auto simp: ports_only_def)
  then show "console_step m m'"
    by (simp add: console_step_def console_only_def vga_ok_def)
qed

lemma poll_ports:
  assumes "while_option b c s = Some t" and "ports_only m (snd s)"
    and "\<And>s. ports_only (snd s) (snd (c s))"
  shows "ports_only m (snd t)"
proof (rule while_option_rule [where P = "\<lambda>s. ports_only m (snd s)", OF _ assms(1)])
qed (use assms(2,3) in \<open>auto intro: ports_only_trans\<close>)

lemma delay_then_ports:
  "(\<And>u. ports_only u (f u)) \<Longrightarrow> ports_only m (f (io_delay h m))"
  by (rule ports_only_trans [OF io_ports(7)])

lemma poll_until_ports:
  assumes "poll_until P f m = Some (r, m')" and "\<And>u r u'. f u = Some (r, u') \<Longrightarrow> ports_only u u'"
  shows "ports_only m m'"
proof -
  let ?inv = "\<lambda>s. case s of None \<Rightarrow> True | Some (r, u) \<Rightarrow> ports_only m u"
  have w: "while_option (\<lambda>s. case s of None \<Rightarrow> False | Some (r, m) \<Rightarrow> \<not> P r)
    (\<lambda>s. case s of None \<Rightarrow> None | Some (r, m) \<Rightarrow> f m) (f m) = Some (Some (r, m'))"
    using assms(1) by (auto simp: poll_until_def bind_eq_Some_conv)
  have "?inv (Some (r, m'))"
    by (rule while_option_rule [where P = ?inv, OF _ w])
      (auto split: option.splits dest: assms(2) intro: ports_only_trans)
  then show ?thesis by simp
qed

lemma wait_ports:
  assumes "keyb8042_wait_for_output_ready h m = Some m'"
  shows "ports_only m m'"
proof -
  have "ports_only u (snd (io_inbi_d h 0x64 (io_delay h u)))" for u :: "'a vga_scheme"
    by (rule delay_then_ports [where f = "\<lambda>m. snd (io_inbi_d h 0x64 m)"]) simp
  then show ?thesis
    using assms unfolding keyb8042_wait_for_output_ready_def
    by (auto dest!: poll_ports [where m = m] simp: split_beta)
qed

lemma read_imm_ports: "ports_only m (snd (keyb8042_read_buffer_imm h m))"
  unfolding keyb8042_read_buffer_imm_def
  by (auto split: prod.splits dest!: io_in_ports intro: ports_only_trans)

lemma read_ports:
  assumes "keyb8042_read_buffer h m = Some (r, m')"
  shows "ports_only m m'"
  using poll_ports [OF assms [unfolded keyb8042_read_buffer_def], of m] read_imm_ports
  by (auto simp: split_beta
      intro: delay_then_ports [where f = "\<lambda>m. snd (keyb8042_read_buffer_imm h m)"])

lemma write_ports:
  "keyb8042_write_buffer h c m = Some m' \<Longrightarrow> ports_only m m'"
  "keyb8042_write_command h c m = Some m' \<Longrightarrow> ports_only m m'"
  unfolding keyb8042_write_buffer_def keyb8042_write_command_def
  by (auto simp: bind_eq_Some_conv dest!: wait_ports intro: ports_only_trans)

lemma readkey_ports: "keyb8042_readkey h m = Some (r, m') \<Longrightarrow> ports_only m m'"
  using read_imm_ports [of m h]
  unfolding keyb8042_readkey_def
  by (auto simp: bind_eq_Some_conv split: prod.splits if_splits dest!: read_ports
      intro: ports_only_trans)

section \<open>Properties\<close>

text \<open>
  The polling view: whether the status port signals a byte, and the state after one more fruitless
  poll.
\<close>

definition keyb_ready :: "'h hw_scheme \<Rightarrow> 'a vga_scheme \<Rightarrow> bool" where
  "keyb_ready h m \<longleftrightarrow> fst (io_inbi_d h IO_KEYBOARD_STATUS m) AND 1 \<noteq> 0"

definition keyb_poll :: "'h hw_scheme \<Rightarrow> 'a vga_scheme \<Rightarrow> 'a vga_scheme" where
  "keyb_poll h m = io_delay h (snd (keyb8042_read_buffer_imm h m))"

lemma read_imm_range:
  "keyb_ready h m \<Longrightarrow> 0 \<le> fst (keyb8042_read_buffer_imm h m) \<and> fst (keyb8042_read_buffer_imm h m) < 256"
  "\<not> keyb_ready h m \<Longrightarrow> fst (keyb8042_read_buffer_imm h m) = -1"
  using uint_bounded [where 'a = 8]
  by (auto simp: keyb8042_read_buffer_imm_def keyb_ready_def split: prod.splits)

lemma read_imm_neg: "fst (keyb8042_read_buffer_imm h m) < 0 \<longleftrightarrow> \<not> keyb_ready h m"
  using read_imm_range [of h m] by (cases "keyb_ready h m") auto

lemma read_buffer_rounds:
  "((\<lambda>(r, m). keyb8042_read_buffer_imm h (io_delay h m)) ^^ k) (keyb8042_read_buffer_imm h m) =
    keyb8042_read_buffer_imm h ((keyb_poll h ^^ k) m)"
  by (induction k) (auto simp: keyb_poll_def split_beta)

text \<open>The blocking read in closed form: the first ready poll, or no return at all.\<close>

lemma read_buffer_least:
  "keyb8042_read_buffer h m =
    (if \<exists>k. keyb_ready h ((keyb_poll h ^^ k) m)
     then Some (keyb8042_read_buffer_imm h ((keyb_poll h ^^ (LEAST k. keyb_ready h ((keyb_poll h ^^ k) m))) m))
     else None)"
  by (simp add: keyb8042_read_buffer_def while_option_def read_buffer_rounds split_beta read_imm_neg)

lemma read_buffer_range:
  assumes "keyb8042_read_buffer h m = Some (r, m')"
  shows "0 \<le> r \<and> r < 256"
proof -
  let ?k = "LEAST k. keyb_ready h ((keyb_poll h ^^ k) m)"
  have "keyb_ready h ((keyb_poll h ^^ ?k) m)" "(r, m') = keyb8042_read_buffer_imm h ((keyb_poll h ^^ ?k) m)"
    using assms by (auto simp: read_buffer_least split: if_splits intro: LeastI_ex)
  then show ?thesis using read_imm_range(1) [of h "(keyb_poll h ^^ ?k) m"] by (metis fst_conv)
qed

lemma or_byte: "0 \<le> b \<Longrightarrow> b < 256 \<Longrightarrow> push_bit 8 a OR b = a * 256 + (b :: int)"
  using concat_bit_eq [of 8 b a] concat_bit_def [of 8 b a]
  by (simp add: take_bit_int_eq_self or.commute push_bit_eq_mult)

lemma or_e0: "0 \<le> b \<Longrightarrow> b < 256 \<Longrightarrow> 0xE000 OR b = 0xE000 + (b :: int)"
  using or_byte [of b "0xE0"] by (simp add: push_bit_eq_mult)

lemma or_e1:
  assumes "0 \<le> b" "b < 256" "0 \<le> c" "c < 256"
  shows "(0xE10000 OR push_bit 8 b) OR c = 0xE10000 + b * 256 + (c :: int)"
proof -
  have "0xE10000 OR push_bit 8 b = push_bit 8 (0xE100 OR b)"
    by (simp only: push_bit_or) (simp add: push_bit_eq_mult)
  moreover have "0xE100 OR b = 0xE100 + b" using or_byte [of b "0xE1"] assms by (simp add: push_bit_eq_mult)
  ultimately show ?thesis using or_byte [of c "0xE100 + b"] assms by simp
qed

text \<open>
  C34. The blocking read returns exactly when the controller signals a byte at some poll; it then
  delivers the byte of the first such poll, a value from 0 to 255, and touches nothing but the
  ports.
\<close>

theorem keyb8042_read_buffer_spec:
  "case keyb8042_read_buffer h m of
     None \<Rightarrow> \<forall>k. \<not> keyb_ready h ((keyb_poll h ^^ k) m)
   | Some (r, m') \<Rightarrow> 0 \<le> r \<and> r < 256 \<and> ports_only m m' \<and>
       (\<exists>k. keyb_ready h ((keyb_poll h ^^ k) m) \<and> (\<forall>j < k. \<not> keyb_ready h ((keyb_poll h ^^ j) m)) \<and>
         (r, m') = keyb8042_read_buffer_imm h ((keyb_poll h ^^ k) m))"
proof (cases "keyb8042_read_buffer h m")
  case None
  then show ?thesis by (simp add: read_buffer_least split: if_splits)
next
  case (Some s)
  obtain r m' where s: "s = (r, m')" by (cases s)
  let ?k = "LEAST k. keyb_ready h ((keyb_poll h ^^ k) m)"
  have "keyb_ready h ((keyb_poll h ^^ ?k) m)" "s = keyb8042_read_buffer_imm h ((keyb_poll h ^^ ?k) m)"
    using Some by (auto simp: read_buffer_least split: if_splits intro: LeastI_ex)
  moreover have "\<forall>j < ?k. \<not> keyb_ready h ((keyb_poll h ^^ j) m)" using not_less_Least by blast
  ultimately show ?thesis
    using Some read_buffer_range [of h m r m'] read_ports [of h m r m'] unfolding s by auto
qed


text \<open>
  \<^verbatim>\<open>keyb8042_readkey\<close> reports no key-up: what it returns is \<open>-1\<close> or a make code, a plain
  one below 0x80, an extended one 0xE000 to 0xE07F or the 0xE1 sequence, always with bit 7 clear,
  and it touches nothing but the ports.
\<close>

theorem keyb8042_readkey_make_codes:
  assumes "keyb8042_readkey h m = Some (r, m')"
  shows "(r = -1 \<or> r AND 0x80 = 0 \<and>
      (0 \<le> r \<and> r < 0x100 \<or> 0xE000 \<le> r \<and> r < 0xE100 \<or> 0xE10000 \<le> r \<and> r < 0xE20000)) \<and>
    ports_only m m'"
proof -
  obtain b1 m1 where b1: "keyb8042_read_buffer_imm h m = (b1, m1)" by fastforce
  have "b1 = -1 \<or> 0 \<le> b1 \<and> b1 < 256"
    using read_imm_range [of h m] b1 by (cases "keyb_ready h m") auto
  then show ?thesis
    using assms readkey_ports [OF assms]
    by (auto simp: keyb8042_readkey_def b1 bind_eq_Some_conv or_e0 or_e1 Let_def
        split: if_splits dest!: read_buffer_range)
qed


text \<open>A controller with one byte always ready, for the witnesses.\<close>

definition keyb_hw :: "u8 \<Rightarrow> hw" where
  "keyb_hw b = \<lparr>hw_in = (\<lambda>_ _ p. if p = 0x64 then 1 else ucast b), hw_call = (\<lambda>_ mm hs. Some (mm, hs)),
     ld_last_byte = 0, ld_default_int = 0, ld_irq_stub = (\<lambda>_. 0), ld_IDT = 0, ld_pcnet32_init_data = 0\<rparr>"

lemma keyb_hw_status: "fst (io_inbi_d (keyb_hw b) 0x64 m) = 1"
  by (simp add: io_inbi_d_def io_inbi_def keyb_hw_def Let_def)

lemma keyb_hw_data: "fst (io_inbi_d (keyb_hw b) 0x60 m) = b"
  by (simp add: io_inbi_d_def io_inbi_def keyb_hw_def Let_def split_beta
      ucast_up_ucast_id is_up)

lemma keyb_hw_read_imm: "fst (keyb8042_read_buffer_imm (keyb_hw b) m) = uint b"
  by (simp add: keyb8042_read_buffer_imm_def split_beta keyb_hw_status keyb_hw_data)

lemma keyb_hw_ready: "keyb_ready (keyb_hw b) m"
  by (simp add: keyb_ready_def keyb_hw_status)

lemma keyb_hw_readkey:
  "\<exists>m'. keyb8042_readkey (keyb_hw 0x1E) m = Some (0x1E, m')"
  using keyb_hw_read_imm [of "0x1E" m] by (auto simp: keyb8042_readkey_def split: prod.splits)

theorem keyb8042_read_buffer_spec_witness:
  "case keyb8042_read_buffer (keyb_hw 0x1E) vga_example of
     None \<Rightarrow> False | Some (r, m') \<Rightarrow> 0 \<le> r \<and> r < 256 \<and> ports_only vga_example m'"
  using keyb8042_read_buffer_spec [of "keyb_hw 0x1E" vga_example] keyb_hw_ready
  by (auto split: option.splits)

theorem keyb8042_readkey_make_codes_witness:
  "\<exists>m'. keyb8042_readkey (keyb_hw 0x1E) vga_example = Some (0x1E, m') \<and> ports_only vga_example m'"
  using keyb_hw_readkey [of vga_example] keyb8042_readkey_make_codes by blast

end
