(* ===== verification/Interrupt.thy ===== *)
theory Interrupt
  imports Keyb8042
begin

text \<open>
  Interrupt tables, timer and interrupt controller: \<^verbatim>\<open>src/eth/interrupt.c\<close>,
  \<^verbatim>\<open>src/eth/pit-8253.c\<close> and \<^verbatim>\<open>src/eth/pic-8259.c\<close>. The descriptor table is byte memory at the
  address the linker gives it; an interrupt handler that was installed is an address and calling
  it is the parameter \<open>hw_call\<close>.
\<close>

section \<open>Descriptor table (interrupt.c)\<close>

record irq = vga +
  IDTR :: "u8 list" \<comment> \<open>eight bytes\<close>
  cpu_idtr :: "u8 list" \<comment> \<open>what \<^verbatim>\<open>lidt\<close> loaded: limit and base\<close>
  irq_function :: "u32 list" \<comment> \<open>0 is \<^verbatim>\<open>NULL\<close>\<close>

abbreviation (input) CODE_SELECTOR :: u16 where "CODE_SELECTOR \<equiv> 0x08"
abbreviation (input) MAX_IRQ :: nat where "MAX_IRQ \<equiv> 16"

definition idt_gate_init :: "'h hw_scheme \<Rightarrow> nat \<Rightarrow> memory \<Rightarrow> memory" where
  "idt_gate_init h i mm =
    (let b = ld_IDT h + of_nat (i * 8); offset = ld_default_int h;
         mm = store16 mm b (ucast offset);
         mm = store16 mm (b + 2) CODE_SELECTOR;
         mm = store16 mm (b + 4) 0x8E00
     in store16 mm (b + 6) (ucast (drop_bit 16 offset)))"

definition idt_init :: "'h hw_scheme \<Rightarrow> 'a irq_scheme \<Rightarrow> 'a irq_scheme" where
  "idt_init h m =
    (let m = m\<lparr>mem := memset (mem m) (ld_IDT h) 0 (256 * 8)\<rparr>;
         m = m\<lparr>mem := fold (idt_gate_init h) [0..<256] (mem m)\<rparr>;
         m = m\<lparr>IDTR := le16 (256 * 8 - 1) @ le32 (ld_IDT h) @ drop 6 (IDTR m)\<rparr>;
         m = m\<lparr>cpu_idtr := take 6 (IDTR m)\<rparr>
     in m\<lparr>irq_function := replicate MAX_IRQ 0\<rparr>)"

definition set_idt :: "'h hw_scheme \<Rightarrow> u8 \<Rightarrow> u32 \<Rightarrow> 'a irq_scheme \<Rightarrow> 'a irq_scheme" where
  "set_idt h intr intfunc m =
    (let b = ld_IDT h + ucast intr * 8;
         mm = store16 (mem m) b (ucast intfunc)
     in m\<lparr>mem := store16 mm (b + 6) (ucast (drop_bit 16 intfunc))\<rparr>)"

definition do_irq :: "'h hw_scheme \<Rightarrow> u32 \<Rightarrow> 'a irq_scheme \<Rightarrow> 'a irq_scheme option" where
  "do_irq h n m =
    (if n \<ge> of_nat MAX_IRQ then Some m
     else (let a = 0xB8000 + n * 2;
               m = m\<lparr>mem := store16 (mem m) a (load16 (mem m) a + 1)\<rparr>;
               f = irq_function m ! unat n
           in if f = 0 then Some m
              else map_option (\<lambda>(mm, hs). m\<lparr>mem := mm, hist := hs\<rparr>)
                (hw_call h f (mem m) (CallAddr f # hist m))))"

section \<open>Timer (pit-8253.c)\<close>

definition pit_8253_start_countdown :: "'a irq_scheme \<Rightarrow> 'a irq_scheme" where
  "pit_8253_start_countdown m =
    (let m = io_outbi 0x43 0x30 m; m = io_outbi 0x40 0xFF m in io_outbi 0x40 0xFF m)"

definition pit_8253_init :: "'a irq_scheme \<Rightarrow> 'a irq_scheme" where
  "pit_8253_init m = pit_8253_start_countdown m"

definition pit_8253_time :: "'h hw_scheme \<Rightarrow> 'a irq_scheme \<Rightarrow> u16 \<times> 'a irq_scheme" where
  "pit_8253_time h m =
    (let m = io_outbi 0x43 0 m; (lo, m) = io_inbi h 0x40 m; (hi, m) = io_inbi h 0x40 m
     in (ucast lo OR push_bit 8 (ucast hi), m))"

section \<open>Interrupt controller (pic-8259.c)\<close>

abbreviation PIC_8259_PIC1 :: u8 where "PIC_8259_PIC1 \<equiv> 0x20"
abbreviation PIC_8259_PIC2 :: u8 where "PIC_8259_PIC2 \<equiv> 0xA0"

text \<open>The sixteen C handlers behind the assembler stubs.\<close>

definition default_irq :: "'h hw_scheme \<Rightarrow> nat \<Rightarrow> 'a irq_scheme \<Rightarrow> 'a irq_scheme option" where
  "default_irq h n m = do_irq h (of_nat n) m"

text \<open>The port writes of \<^verbatim>\<open>pic_8259_init\<close>, in order, and the table of stubs it installs.\<close>

definition pic_8259_setup :: "(u8 \<times> u8) list" where
  "pic_8259_setup =
    [(PIC_8259_PIC1, 0x11), (PIC_8259_PIC1 + 1, 0x20), (PIC_8259_PIC1 + 1, 0x04),
     (PIC_8259_PIC1 + 1, 0x03), (PIC_8259_PIC1 + 1, 0x00),
     (PIC_8259_PIC2, 0x11), (PIC_8259_PIC2 + 1, 0x28), (PIC_8259_PIC2 + 1, 0x02),
     (PIC_8259_PIC2 + 1, 0x03), (PIC_8259_PIC2 + 1, 0x00)] @
    map (\<lambda>i. (PIC_8259_PIC1, 0x60 + of_nat i)) [0..<8] @
    map (\<lambda>i. (PIC_8259_PIC2, 0x60 + of_nat i)) [0..<8]"

definition pic_8259_init :: "'h hw_scheme \<Rightarrow> 'a irq_scheme \<Rightarrow> 'a irq_scheme" where
  "pic_8259_init h m =
    (let (b, m) = io_inbi_d h PIC_8259_PIC1 m;
         (missing, m) = (if b = 0xFF then (let (c, m) = io_inbi_d h PIC_8259_PIC2 m in (c = 0xFF, m))
                         else (False, m))
     in if missing then vga_write (''8259 PIC is missing'' @ crlf) m
        else (let m = fold (\<lambda>(p, v). io_outbi_d h p v) pic_8259_setup m
              in fold (\<lambda>n. set_idt h (0x20 + of_nat n) (ld_irq_stub h n)) [0..<16] m))"

definition pic_8259_seoi :: "'h hw_scheme \<Rightarrow> u32 \<Rightarrow> 'a irq_scheme \<Rightarrow> 'a irq_scheme" where
  "pic_8259_seoi h i m =
    (if i \<le> 7 then io_outbi_d h PIC_8259_PIC1 (ucast (0x60 + i)) m
     else if i \<ge> 8 \<and> i \<le> 15 then io_outbi_d h PIC_8259_PIC2 (ucast (0x60 + i - 8)) m
     else m)"

text \<open>The body that reads one register of both controllers (\<open>0x0A\<close> IRR, \<open>0x0B\<close> ISR).\<close>

definition pic_8259_read_ocw3 :: "'h hw_scheme \<Rightarrow> u8 \<Rightarrow> 'a irq_scheme \<Rightarrow> u32 \<times> 'a irq_scheme" where
  "pic_8259_read_ocw3 h ocw m =
    (let m = io_outbi_d h PIC_8259_PIC1 ocw m; (irr1, m) = io_inbi_d h PIC_8259_PIC1 m;
         m = io_outbi_d h PIC_8259_PIC2 ocw m; (irr2, m) = io_inbi_d h PIC_8259_PIC2 m
     in (ucast irr1 OR push_bit 8 (ucast irr2), m))"

definition pending_interrupts :: "'h hw_scheme \<Rightarrow> 'a irq_scheme \<Rightarrow> u32 \<times> 'a irq_scheme" where
  "pending_interrupts h m = pic_8259_read_ocw3 h (0x08 OR 0x02) m"

definition in_service_interrupts :: "'h hw_scheme \<Rightarrow> 'a irq_scheme \<Rightarrow> u32 \<times> 'a irq_scheme" where
  "in_service_interrupts h m = pic_8259_read_ocw3 h (0x08 OR 0x03) m"

subsection \<open>Glue of c-main.c\<close>

definition interrupt_init :: "'h hw_scheme \<Rightarrow> 'a irq_scheme \<Rightarrow> 'a irq_scheme" where
  "interrupt_init h m = pic_8259_init h (idt_init h m)"

definition timer_init :: "'a irq_scheme \<Rightarrow> 'a irq_scheme" where
  "timer_init m = pit_8253_init m"

definition keyboard_init :: "'h hw_scheme \<Rightarrow> 'a vga_scheme \<Rightarrow> 'a vga_scheme option" where
  "keyboard_init h m = keyb8042_init h m"

section \<open>The table as a list of gates\<close>

definition idt_entry :: "'h hw_scheme \<Rightarrow> memory \<Rightarrow> nat \<Rightarrow> u8 list" where
  "idt_entry h mm i = load_bytes mm (ld_IDT h + of_nat (i * 8)) 8"

text \<open>An interrupt gate of the code segment, present, for privilege level 0.\<close>

definition idt_gate :: "u32 \<Rightarrow> u8 list" where
  "idt_gate offset = le16 (ucast offset) @ le16 CODE_SELECTOR @ le16 0x8E00 @
    le16 (ucast (drop_bit 16 offset))"

lemma idt_write_other:
  assumes "i < 256" "j < 256" "i \<noteq> j" "k + length bs \<le> 8" "0 < length bs"
  shows "idt_entry h (mem_write mm (ld_IDT h + of_nat (i * 8) + of_nat k) bs) j = idt_entry h mm j"
proof -
  have a: "ld_IDT h + of_nat (i * 8) + of_nat k = ld_IDT h + of_nat (i * 8 + k)"
    by (simp add: algebra_simps)
  have "apart (ld_IDT h + of_nat (j * 8)) 8 (ld_IDT h + of_nat (i * 8 + k)) (length bs)"
  proof (cases "j < i")
    case True
    then show ?thesis using assms by (intro apart_offset) simp_all
  next
    case False
    then have "i < j" using assms(3) by simp
    then have "i * 8 + k + length bs \<le> j * 8" "i * 8 + k < j * 8" using assms(4,5) by linarith+
    then show ?thesis 
      using assms(2) apart_offset_gt [of "i * 8 + k" "length bs" "j * 8" 8 "ld_IDT h"] by simp
  qed
  then show ?thesis unfolding idt_entry_def a by (rule load_write_apart)
qed

lemma idt_write_same:
  assumes "k + length bs \<le> 8"
  shows "idt_entry h (mem_write mm (ld_IDT h + of_nat (i * 8) + of_nat k) bs) i =
    take k (idt_entry h mm i) @ bs @ drop (k + length bs) (idt_entry h mm i)"
  unfolding idt_entry_def using assms by (rule load_write_inside) simp

lemma length_idt_entry [simp]: "length (idt_entry h mm i) = 8"
  by (simp add: idt_entry_def)

text \<open>The four half-words of a gate.\<close>

lemma idt_store_other:
  assumes "i < 256" "j < 256" "i \<noteq> j"
  shows "idt_entry h (store16 mm (ld_IDT h + of_nat (i * 8)) w) j = idt_entry h mm j"
    and "idt_entry h (store16 mm (ld_IDT h + of_nat (i * 8) + 2) w) j = idt_entry h mm j"
    and "idt_entry h (store16 mm (ld_IDT h + of_nat (i * 8) + 4) w) j = idt_entry h mm j"
    and "idt_entry h (store16 mm (ld_IDT h + of_nat (i * 8) + 6) w) j = idt_entry h mm j"
  using idt_write_other [OF assms, of 0 "le16 w" h mm] idt_write_other [OF assms, of 2 "le16 w" h mm]
    idt_write_other [OF assms, of 4 "le16 w" h mm] idt_write_other [OF assms, of 6 "le16 w" h mm]
  by (simp_all add: store16_def del: of_nat_mult)

lemma idt_store_same:
  fixes h :: "'h hw_scheme" and mm i
  defines "e \<equiv> idt_entry h mm i"
  shows "idt_entry h (store16 mm (ld_IDT h + of_nat (i * 8)) w) i = le16 w @ drop 2 e"
    and "idt_entry h (store16 mm (ld_IDT h + of_nat (i * 8) + 2) w) i = take 2 e @ le16 w @ drop 4 e"
    and "idt_entry h (store16 mm (ld_IDT h + of_nat (i * 8) + 4) w) i = take 4 e @ le16 w @ drop 6 e"
    and "idt_entry h (store16 mm (ld_IDT h + of_nat (i * 8) + 6) w) i = take 6 e @ le16 w"
  using idt_write_same [of 0 "le16 w" h mm i, unfolded length_le16 add_0] idt_write_same [of 2 "le16 w" h mm i]
    idt_write_same [of 4 "le16 w" h mm i] idt_write_same [of 6 "le16 w" h mm i]
  by (simp_all add: store16_def e_def del: of_nat_mult add_2_eq_Suc add_2_eq_Suc')

lemma idt_gate_init_entry:
  assumes "i < 256" "j < 256"
  shows "idt_entry h (idt_gate_init h i mm) j =
    (if i = j then idt_gate (ld_default_int h) else idt_entry h mm j)"
  using assms
  by (simp add: idt_gate_init_def Let_def idt_store_other idt_store_same idt_gate_def
      del: of_nat_mult)

lemma idt_init_entries:
  "n \<le> 256 \<Longrightarrow> j < 256 \<Longrightarrow> idt_entry h (fold (idt_gate_init h) [0..<n] mm) j =
    (if j < n then idt_gate (ld_default_int h) else idt_entry h mm j)"
  by (induction n) (auto simp: idt_gate_init_entry)

lemma set_idt_entry:
  assumes "j < 256"
  shows "idt_entry h (mem (set_idt h v f m)) j =
    (if unat v = j then le16 (ucast f) @ take 4 (drop 2 (idt_entry h (mem m) j)) @
       le16 (ucast (drop_bit 16 f)) else idt_entry h (mem m) j)"
proof -
  have v: "unat v < 256" by simp
  have b: "ld_IDT h + ucast v * 8 = ld_IDT h + of_nat (unat v * 8)"
    by simp
  show ?thesis
    using assms v
    by (simp add: set_idt_def Let_def b idt_store_other idt_store_same
      del: of_nat_mult)
qed

lemma io_setup_mem: "mem (fold (\<lambda>(p, v). io_outbi_d h p v) ps m) = mem m"
  by (induction ps arbitrary: m) (auto simp: frame_simps)

lemma idt_gate_set:
  "le16 (ucast f) @ take 4 (drop 2 (idt_gate g)) @ le16 (ucast (drop_bit 16 f)) = idt_gate f"
  by (simp add: idt_gate_def)

lemma stubs_entries:
  assumes "n \<le> 16" "j < 256" and "\<And>j. j < 256 \<Longrightarrow> idt_entry h (mem m) j = idt_gate d"
  shows "idt_entry h (mem (fold (\<lambda>n. set_idt h (0x20 + of_nat n) (ld_irq_stub h n)) [0..<n] m)) j =
    idt_gate (if 0x20 \<le> j \<and> j < 0x20 + n then ld_irq_stub h (j - 0x20) else d)"
  using assms(1)
proof (induction n)
  case (Suc n)
  have "unat (0x20 + of_nat n :: u8) = 0x20 + n"
    using unat_of_nat_small [of "0x20 + n", where 'a = 8] Suc.prems by simp
  with Suc assms(2) show ?case by (auto simp: set_idt_entry idt_gate_set)
qed (auto simp: assms)

section \<open>Properties\<close>


definition quiet_hw :: hw where
  "quiet_hw = \<lparr>hw_in = (\<lambda>_ _ _. 0), hw_call = (\<lambda>_ mm hs. Some (mm, hs)), ld_last_byte = 0x20000,
     ld_default_int = 0x9000, ld_irq_stub = (\<lambda>n. 0x9100 + 16 * of_nat n), ld_IDT = 0xA000,
     ld_pcnet32_init_data = 0xB000\<rparr>"

definition irq_example :: irq where
  "irq_example = \<lparr>mem = (\<lambda>_. 0), hist = [], fault = None, alloc = 0, VGA_alpha = 0xB8000,
     VGA_alpha_rows = 25, VGA_alpha_columns = 80, VGA_alpha_x = 0, VGA_alpha_y = 0,
     VGA_color = 7, VGA_iobase = 0x3D0, IDTR = replicate 8 0, cpu_idtr = [], irq_function = []\<rparr>"

lemma quiet_in: "fst (io_inbi_d quiet_hw p m) = 0"
  by (simp add: io_inbi_d_def io_inbi_def quiet_hw_def Let_def)


end
