(* ===== verification/Pci.thy ===== *)
theory Pci
  imports Interrupt
begin

text \<open>
  PCI configuration space and bus enumeration: \<^verbatim>\<open>src/eth/pci.c\<close> and \<^verbatim>\<open>src/eth/pci.h\<close>. The table
  of devices is a list of 64 records; an index into it stands for a pointer to one of them.
\<close>

section \<open>Data\<close>

record pci_bar =
  bar_io :: bool
  bar_prefetchable :: bool
  bar_type :: "2 word"
  bar_present :: bool
  bar_start :: u64
  bar_end :: u64
  bar_mask :: u64

record pci_device =
  bus_no :: u8
  device_no :: u8
  function_no :: u8
  device_id :: u16
  vendor_id :: u16
  class_code :: u32
  revision_id :: u8
  subsystem_id :: u16
  subsystem_vendor_id :: u16
  expansion_rom :: u32
  BAR :: "pci_bar list"

definition pci_bar_zero :: pci_bar where
  "pci_bar_zero = \<lparr>bar_io = False, bar_prefetchable = False, bar_type = 0, bar_present = False,
     bar_start = 0, bar_end = 0, bar_mask = 0\<rparr>"

definition pci_device_zero :: pci_device where
  "pci_device_zero = \<lparr>bus_no = 0, device_no = 0, function_no = 0, device_id = 0, vendor_id = 0,
     class_code = 0, revision_id = 0, subsystem_id = 0, subsystem_vendor_id = 0, expansion_rom = 0,
     BAR = replicate 6 pci_bar_zero\<rparr>"

record pci = irq +
  pci_devices :: "pci_device list" \<comment> \<open>the array \<^verbatim>\<open>pci_device\<close>\<close>
  pci_bus_present :: bool

abbreviation (input) MAX_PCI_DEVICE :: nat where "MAX_PCI_DEVICE \<equiv> 64"
abbreviation (input) PCI_CONFIG_ADDRESS :: u32 where "PCI_CONFIG_ADDRESS \<equiv> 0xCF8"
abbreviation (input) PCI_CONFIG_DATA :: u32 where "PCI_CONFIG_DATA \<equiv> 0xCFC"
abbreviation (input) PCI_ANY :: int where "PCI_ANY \<equiv> -1"
abbreviation (input) PCI_BAR_TYPE_64BIT :: "2 word" where "PCI_BAR_TYPE_64BIT \<equiv> 2"

section \<open>Operations\<close>

text \<open>
  The comparisons with \<^verbatim>\<open>PCI_ANY\<close> are made at type \<^verbatim>\<open>int\<close>, after the promotion of the
  \<^verbatim>\<open>uint16_t\<close> arguments.
\<close>

definition pci_match :: "u16 \<Rightarrow> u16 \<Rightarrow> u16 \<Rightarrow> pci_device \<Rightarrow> bool" where
  "pci_match did vid cls dev \<longleftrightarrow>
    device_id dev \<noteq> 0 \<and>
    \<not> (uint did \<noteq> PCI_ANY \<and> did \<noteq> device_id dev) \<and>
    \<not> (uint vid \<noteq> PCI_ANY \<and> vid \<noteq> vendor_id dev) \<and>
    (uint cls \<noteq> PCI_ANY \<longrightarrow>
      (ucast cls AND 0xFF0000) = (class_code dev AND 0xFF0000) \<and>
      (ucast cls AND 0x00FF00) = (class_code dev AND 0x00FF00) \<and>
      (ucast cls AND 0x0000FF) = (class_code dev AND 0x0000FF))"

fun find_index_from :: "('a \<Rightarrow> bool) \<Rightarrow> nat \<Rightarrow> 'a list \<Rightarrow> nat option" where
  "find_index_from P i [] = None"
| "find_index_from P i (x # xs) = (if P x then Some i else find_index_from P (Suc i) xs)"

definition pci_find :: "u16 \<Rightarrow> u16 \<Rightarrow> u16 \<Rightarrow> 'a pci_scheme \<Rightarrow> nat option" where
  "pci_find did vid cls m =
    (if \<not> pci_bus_present m then None
     else find_index_from (pci_match did vid cls) 0 (take MAX_PCI_DEVICE (pci_devices m)))"

definition pci_addr :: "u8 \<Rightarrow> u8 \<Rightarrow> u8 \<Rightarrow> u8 \<Rightarrow> 'a bus_scheme \<Rightarrow> 'a bus_scheme" where
  "pci_addr bus dev func reg_dw m =
    (let reg_dw = reg_dw AND 0xFC; func = func AND 7; dev = dev AND 0x1F; bus = bus AND 0xFF
     in io_outl PCI_CONFIG_ADDRESS
          (0x80000000 OR push_bit 16 (ucast bus) OR push_bit 11 (ucast dev) OR
           push_bit 8 (ucast func) OR ucast reg_dw) m)"

definition pci_config_read_imm ::
  "'h hw_scheme \<Rightarrow> u8 \<Rightarrow> u8 \<Rightarrow> u8 \<Rightarrow> u8 \<Rightarrow> 'a bus_scheme \<Rightarrow> u32 \<times> 'a bus_scheme" where
  "pci_config_read_imm h bus dev func reg_dw m =
    io_inl h PCI_CONFIG_DATA (pci_addr bus dev func reg_dw m)"

definition pci_config_write_imm ::
  "u8 \<Rightarrow> u8 \<Rightarrow> u8 \<Rightarrow> u8 \<Rightarrow> u32 \<Rightarrow> 'a bus_scheme \<Rightarrow> 'a bus_scheme" where
  "pci_config_write_imm bus dev func reg_dw data m =
    io_outl PCI_CONFIG_DATA data (pci_addr bus dev func reg_dw m)"

text \<open>The loop of \<^verbatim>\<open>pci_max_bus\<close> over the bus numbers still to try.\<close>

fun pci_max_bus_from :: "'h hw_scheme \<Rightarrow> u32 \<Rightarrow> nat list \<Rightarrow> nat \<Rightarrow> 'a bus_scheme \<Rightarrow> nat \<times> 'a bus_scheme" where
  "pci_max_bus_from h match_id [] bus_max m = (bus_max, m)"
| "pci_max_bus_from h match_id (bus # rest) bus_max m =
    (let (tmp, m) = pci_config_read_imm h (of_nat bus) 0 0 0 m
     in if tmp = match_id then (bus_max, m) else pci_max_bus_from h match_id rest (bus + 1) m)"

definition pci_max_bus :: "'h hw_scheme \<Rightarrow> 'a bus_scheme \<Rightarrow> nat \<times> 'a bus_scheme" where
  "pci_max_bus h m =
    (let (match_id, m) = pci_config_read_imm h 0 0 0 0 m
     in pci_max_bus_from h match_id [1..<0x100] 1 m)"

text \<open>
  One round of the base address loop of \<^verbatim>\<open>pci_init\<close> (lines 120 to 154): the next \<^verbatim>\<open>bar\<close> and the
  record filled in.
\<close>

definition pci_probe_bar ::
  "'h hw_scheme \<Rightarrow> u8 \<Rightarrow> u8 \<Rightarrow> u8 \<Rightarrow> nat \<Rightarrow> pci_bar \<Rightarrow> 'a bus_scheme \<Rightarrow> nat \<times> pci_bar \<times> 'a bus_scheme" where
  "pci_probe_bar h bus dev func bar pbar m =
    (let reg = 0x10 + of_nat bar * 4 :: u8;
         (orig, m) = pci_config_read_imm h bus dev func reg m;
         m = pci_config_write_imm bus dev func reg 0x00000000 m;
         (min, m) = pci_config_read_imm h bus dev func reg m;
         m = pci_config_write_imm bus dev func reg 0xFFFFFFFF m;
         (max, m) = pci_config_read_imm h bus dev func reg m;
         m = pci_config_write_imm bus dev func reg orig m;
         bar = bar + 1
     in if orig = min \<and> min = max \<and> (orig = 0 \<or> orig = 0xFFFFFFFF) then (bar, pbar, m)
        else
          let pbar = pbar\<lparr>bar_present := True\<rparr>;
              (orig, max, pbar) =
                (if max AND 1 \<noteq> 0
                 then (orig AND NOT 3, max AND NOT 3, pbar\<lparr>bar_io := True\<rparr>)
                 else (orig AND NOT 0xF, max AND NOT 0xF,
                   pbar\<lparr>bar_prefetchable := (drop_bit 3 max AND 1 \<noteq> 0), bar_type := ucast (drop_bit 1 max AND 3)\<rparr>));
              pbar = pbar\<lparr>bar_mask := 0xFFFFFFFF, bar_start := ucast orig\<rparr>;
              (bar, pbar, m) =
                (if bar_type pbar = PCI_BAR_TYPE_64BIT \<and> bar < 6
                 then (let (upper, m) = pci_config_read_imm h bus dev func (reg + 4) m
                       in (bar + 1, pbar\<lparr>bar_start := bar_start pbar OR push_bit 32 (ucast upper)\<rparr>, m))
                 else (bar, pbar, m))
          in (bar, pbar\<lparr>bar_end := ucast (orig OR NOT max)\<rparr>, m))"

lemma pci_probe_bar_next: "bar < fst (pci_probe_bar h bus dev func bar pbar m)"
  by (simp add: pci_probe_bar_def Let_def split_beta)

function pci_probe_bars ::
  "'h hw_scheme \<Rightarrow> u8 \<Rightarrow> u8 \<Rightarrow> u8 \<Rightarrow> nat \<Rightarrow> pci_bar list \<Rightarrow> 'a bus_scheme \<Rightarrow> pci_bar list \<times> 'a bus_scheme" where
  "pci_probe_bars h bus dev func bar bars m =
    (if bar < 6
     then (let (bar', pbar, m') = pci_probe_bar h bus dev func bar (bars ! bar) m
           in pci_probe_bars h bus dev func bar' (bars[bar := pbar]) m')
     else (bars, m))"
  by pat_completeness auto
termination
proof (relation "measure (\<lambda>(h, bus, dev, func, bar, bars, m). 6 - bar)", goal_cases)
  case (2 h bus dev func bar bars m x bar' y pbar m')
  from 2(2,3) [symmetric] have "fst (pci_probe_bar h bus dev func bar (bars ! bar) m) = bar'" by simp
  then show ?case using 2(1) pci_probe_bar_next [of bar h bus dev func "bars ! bar" m] by auto
qed simp

text \<open>Filling in one record of the table (lines 99 to 155).\<close>

definition pci_probe_function ::
  "'h hw_scheme \<Rightarrow> u8 \<Rightarrow> u8 \<Rightarrow> u8 \<Rightarrow> u32 \<Rightarrow> 'a bus_scheme \<Rightarrow> pci_device \<times> 'a bus_scheme" where
  "pci_probe_function h bus dev func dev_id m =
    (let pdev = pci_device_zero\<lparr>bus_no := bus, device_no := dev, function_no := func,
           device_id := ucast (drop_bit 16 dev_id), vendor_id := ucast (dev_id AND 0xFFFF)\<rparr>;
         (x, m) = pci_config_read_imm h bus dev func 8 m;
         pdev = pdev\<lparr>class_code := drop_bit 8 x, revision_id := ucast (x AND 0xFF)\<rparr>;
         (x, m) = pci_config_read_imm h bus dev func 0x2C m;
         pdev = pdev\<lparr>subsystem_id := ucast (drop_bit 16 x), subsystem_vendor_id := ucast (x AND 0xFFFF)\<rparr>;
         (x, m) = pci_config_read_imm h bus dev func 0x30 m;
         pdev = pdev\<lparr>expansion_rom := x AND NOT 0x1FFFFF\<rparr>;
         (bars, m) = pci_probe_bars h bus dev func 0 (BAR pdev) m
     in (pdev\<lparr>BAR := bars\<rparr>, m))"

text \<open>The three nested loops; \<open>index\<close> is the number of records used so far.\<close>

fun pci_scan_functions ::
  "'h hw_scheme \<Rightarrow> nat \<Rightarrow> nat \<Rightarrow> nat list \<Rightarrow> nat \<Rightarrow> 'a pci_scheme \<Rightarrow> nat \<times> 'a pci_scheme" where
  "pci_scan_functions h bus dev [] index m = (index, m)"
| "pci_scan_functions h bus dev (func # rest) index m =
    (if index < MAX_PCI_DEVICE
     then (let (dev_id, m) = pci_config_read_imm h (of_nat bus) (of_nat dev) (of_nat func) 0 m
           in if dev_id = 0xFFFFFFFF then (index, m)
              else (let (pdev, m) = pci_probe_function h (of_nat bus) (of_nat dev) (of_nat func) dev_id m
                    in pci_scan_functions h bus dev rest (index + 1)
                         (m\<lparr>pci_devices := (pci_devices m)[index := pdev]\<rparr>)))
     else (index, m))"

fun pci_scan_devices ::
  "'h hw_scheme \<Rightarrow> nat \<Rightarrow> nat list \<Rightarrow> nat \<Rightarrow> 'a pci_scheme \<Rightarrow> nat \<times> 'a pci_scheme" where
  "pci_scan_devices h bus [] index m = (index, m)"
| "pci_scan_devices h bus (dev # rest) index m =
    (if index < MAX_PCI_DEVICE
     then (let (index, m) = pci_scan_functions h bus dev [0..<8] index m
           in pci_scan_devices h bus rest index m)
     else (index, m))"

fun pci_scan_buses :: "'h hw_scheme \<Rightarrow> nat list \<Rightarrow> nat \<Rightarrow> 'a pci_scheme \<Rightarrow> nat \<times> 'a pci_scheme" where
  "pci_scan_buses h [] index m = (index, m)"
| "pci_scan_buses h (bus # rest) index m =
    (if index < MAX_PCI_DEVICE
     then (let (index, m) = pci_scan_devices h bus [0..<0x20] index m
           in pci_scan_buses h rest index m)
     else (index, m))"

definition pci_init :: "'h hw_scheme \<Rightarrow> 'a pci_scheme \<Rightarrow> 'a pci_scheme" where
  "pci_init h m =
    (let m = io_outl PCI_CONFIG_ADDRESS 0x80000000 m;
         (x, m) = io_inl h PCI_CONFIG_ADDRESS m
     in if x AND 0x80FFFFFC \<noteq> 0x80000000 then m
        else
          let m = io_outl PCI_CONFIG_ADDRESS 0x80FFFFFC m;
              (x, m) = io_inl h PCI_CONFIG_ADDRESS m
          in if x AND 0x80FFFFFC \<noteq> 0x80FFFFFC then m
             else
               let m = m\<lparr>pci_devices := replicate MAX_PCI_DEVICE pci_device_zero\<rparr>;
                   m = vga_write (''PCI bus detected'' @ crlf) m;
                   (bus_max, m) = pci_max_bus h m;
                   m = m\<lparr>pci_bus_present := True\<rparr>
               in snd (pci_scan_buses h [0..<bus_max] 0 m))"

section \<open>The table of devices\<close>

declare pci_probe_bars.simps [simp del]

lemma pci_config_ports [simp]:
  assumes "ports_only m u"
  shows "ports_only m (pci_addr bus dev func reg u)"
    "ports_only m (snd (pci_config_read_imm h bus dev func reg u))"
    "ports_only m (pci_config_write_imm bus dev func reg x u)"
  using assms by (simp_all add: pci_addr_def pci_config_read_imm_def pci_config_write_imm_def Let_def)

lemma pci_probe_bar_ports: "ports_only m (snd (snd (pci_probe_bar h bus dev func bar pbar m)))"
  by (simp add: pci_probe_bar_def Let_def split_beta)

lemma pci_probe_bars_ports: "ports_only m (snd (pci_probe_bars h bus dev func bar bars m))"
proof (induction h bus dev func bar bars m rule: pci_probe_bars.induct)
  case (1 h bus dev func bar bars m)
  then show ?case
    using pci_probe_bar_ports [of m h bus dev func bar "bars ! bar"]
    by (subst pci_probe_bars.simps) (auto simp: Let_def split: prod.split intro: ports_only_trans)
qed

lemma pci_probe_bars_length: "length (fst (pci_probe_bars h bus dev func bar bars m)) = length bars"
proof (induction h bus dev func bar bars m rule: pci_probe_bars.induct)
  case (1 h bus dev func bar bars m)
  then show ?case by (subst pci_probe_bars.simps) (auto simp: Let_def split: prod.split)
qed

lemma pci_probe_function_ports: "ports_only m (snd (pci_probe_function h bus dev func dev_id m))"
  by (auto simp: pci_probe_function_def Let_def split_beta
      intro!: ports_only_trans [OF _ pci_probe_bars_ports])

lemma pci_probe_function_fields:
  "bus_no (fst (pci_probe_function h bus dev func dev_id m)) = bus"
  "device_no (fst (pci_probe_function h bus dev func dev_id m)) = dev"
  "function_no (fst (pci_probe_function h bus dev func dev_id m)) = func"
  "length (BAR (fst (pci_probe_function h bus dev func dev_id m))) = 6"
  by (simp_all add: pci_probe_function_def Let_def split_beta pci_probe_bars_length pci_device_zero_def)

text \<open>
  The position of a function in the order of the scan, and the invariant of the scan: \<open>index\<close>
  records are used, their positions ascend strictly and stay below \<open>K\<close>, the rest is zero.
\<close>

definition pci_key :: "pci_device \<Rightarrow> nat" where
  "pci_key d = unat (bus_no d) * 256 + unat (device_no d) * 8 + unat (function_no d)"

definition pci_table_ok :: "nat \<Rightarrow> nat \<Rightarrow> 'a pci_scheme \<Rightarrow> bool" where
  "pci_table_ok K index m \<longleftrightarrow> length (pci_devices m) = MAX_PCI_DEVICE \<and> index \<le> MAX_PCI_DEVICE \<and>
    drop index (pci_devices m) = replicate (MAX_PCI_DEVICE - index) pci_device_zero \<and>
    sorted_wrt (<) (map pci_key (take index (pci_devices m))) \<and>
    (\<forall>d \<in> set (take index (pci_devices m)). pci_key d < K \<and> length (BAR d) = 6)"

lemma pci_table_ok_ports: "ports_only m m' \<Longrightarrow> pci_table_ok K index m' = pci_table_ok K index m"
proof -
  assume "ports_only m m'"
  then obtain hs where "m' = m\<lparr>hist := hs\<rparr>" by (auto simp: ports_only_def)
  then show ?thesis by (simp add: pci_table_ok_def)
qed

lemma pci_table_ok_mono: "pci_table_ok K index m \<Longrightarrow> K \<le> K' \<Longrightarrow> pci_table_ok K' index m"
  by (auto simp: pci_table_ok_def)

lemma pci_table_ok_add:
  assumes "pci_table_ok K index m" and "index < MAX_PCI_DEVICE" and "K \<le> pci_key d" "pci_key d < K'"
    and "length (BAR d) = 6"
  shows "pci_table_ok K' (index + 1) (m\<lparr>pci_devices := (pci_devices m)[index := d]\<rparr>)"
proof -
  let ?t = "pci_devices m"
  have t: "take (Suc index) (?t[index := d]) = take index ?t @ [d]"
    using assms(1,2) by (simp add: pci_table_ok_def take_Suc_conv_app_nth)
  have "drop (Suc index) (?t[index := d]) = drop (Suc index) ?t" by simp
  also have "\<dots> = tl (drop index ?t)" by (simp only: drop_Suc tl_drop)
  also have "\<dots> = replicate (MAX_PCI_DEVICE - Suc index) pci_device_zero"
    using assms(1,2) by (simp add: pci_table_ok_def)
  finally show ?thesis
    using assms t by (auto simp: pci_table_ok_def sorted_wrt_append simp del: drop_drop)
qed

lemma pci_scan_functions_ok:
  assumes "pci_table_ok (bus * 256 + dev * 8 + f) index m" and "f \<le> 8" "bus < 256" "dev < 0x20"
    and "pci_scan_functions h bus dev [f..<8] index m = (index', m')"
  shows "pci_table_ok (bus * 256 + dev * 8 + 8) index' m'"
  using assms(1,2,5)
proof (induction "8 - f" arbitrary: f index m)
  case 0
  then show ?case by simp
next
  case (Suc n)
  let ?K = "bus * 256 + dev * 8"
  have f: "[f..<8] = f # [Suc f..<8]" "f < 8" using Suc.hyps(2) by (simp_all add: upt_rec)
  obtain dev_id m1 where r: "pci_config_read_imm h (of_nat bus) (of_nat dev) (of_nat f) 0 m = (dev_id, m1)"
    by fastforce
  have "ports_only m (snd (pci_config_read_imm h (of_nat bus) (of_nat dev) (of_nat f) 0 m))" by simp
  then have m1: "pci_table_ok (?K + f) index m1" using r Suc.prems(1) by (simp add: pci_table_ok_ports)
  obtain d m2 where p: "pci_probe_function h (of_nat bus) (of_nat dev) (of_nat f) dev_id m1 = (d, m2)"
    by fastforce
  have "ports_only m1 m2" using pci_probe_function_ports [of m1] p by (metis snd_conv)
  then have m2: "pci_table_ok (?K + f) index m2" using m1 by (simp add: pci_table_ok_ports)
  have "pci_key d = ?K + f" "length (BAR d) = 6"
    using pci_probe_function_fields [of h "of_nat bus" "of_nat dev" "of_nat f" dev_id m1] p assms(3,4) f(2)
    by (simp_all add: pci_key_def)
  then have m3: "pci_table_ok (?K + Suc f) (index + 1) (m2\<lparr>pci_devices := (pci_devices m2)[index := d]\<rparr>)"
    if "index < 64" using that m2 by (intro pci_table_ok_add) auto
  have step: "pci_table_ok (?K + 8) index m" "pci_table_ok (?K + 8) index m1"
    using Suc.prems(1) m1 f(2) by (auto elim: pci_table_ok_mono)
  show ?case
    using Suc.prems(3) step Suc.hyps(1) [of "Suc f", OF _ m3] Suc.hyps(2) f(2)
    by (auto simp: f(1) r p split: if_splits)
qed

lemma pci_scan_devices_ok:
  assumes "pci_table_ok (bus * 256 + dev * 8) index m" and "dev \<le> 0x20" "bus < 256"
    and "pci_scan_devices h bus [dev..<0x20] index m = (index', m')"
  shows "pci_table_ok (bus * 256 + 256) index' m'"
  using assms(1,2,4)
proof (induction "0x20 - dev" arbitrary: dev index m)
  case 0
  then show ?case by simp
next
  case (Suc n)
  have d: "[dev..<0x20] = dev # [Suc dev..<0x20]" "dev < 0x20" using Suc.hyps(2) by (simp_all add: upt_rec)
  obtain i1 m1 where r: "pci_scan_functions h bus dev [0..<8] index m = (i1, m1)" by fastforce
  have m1: "pci_table_ok (bus * 256 + Suc dev * 8) i1 m1"
    using pci_scan_functions_ok [of bus dev 0, OF _ _ assms(3) d(2) r] Suc.prems(1)
    by (simp add: algebra_simps)
  have "pci_table_ok (bus * 256 + 256) index m"
    using Suc.prems(1) d(2) by (auto elim: pci_table_ok_mono)
  then show ?case
    using Suc.prems(3) Suc.hyps(1) [OF _ m1] Suc.hyps(2) d(2) r
    by (auto simp: d(1) Let_def split: if_splits)
qed

lemma pci_scan_buses_ok:
  assumes "pci_table_ok (bus * 256) index m" and "bus \<le> n" "n \<le> 256"
    and "pci_scan_buses h [bus..<n] index m = (index', m')"
  shows "pci_table_ok (n * 256) index' m'"
  using assms(1,2,4)
proof (induction "n - bus" arbitrary: bus index m)
  case 0
  then show ?case by simp
next
  case (Suc k)
  have d: "[bus..<n] = bus # [Suc bus..<n]" "bus < n" using Suc.hyps(2) by (simp_all add: upt_rec)
  obtain i1 m1 where r: "pci_scan_devices h bus [0..<0x20] index m = (i1, m1)" by fastforce
  have "bus < 256" using d(2) assms(3) by simp
  then have m1: "pci_table_ok (Suc bus * 256) i1 m1"
    using pci_scan_devices_ok [of bus 0, OF _ _ _ r] Suc.prems(1) by (simp add: add.commute)
  have "pci_table_ok (n * 256) index m"
    using Suc.prems(1) d(2) by (auto elim: pci_table_ok_mono)
  then show ?case
    using Suc.prems(3) Suc.hyps(1) [OF _ m1] Suc.hyps(2) d(2) r
    by (auto simp: d(1) Let_def split: if_splits)
qed

lemma pci_max_bus_from_range:
  "1 \<le> bus_max \<Longrightarrow> bus_max \<le> 256 \<Longrightarrow> \<forall>b \<in> set buses. b < 256 \<Longrightarrow>
    1 \<le> fst (pci_max_bus_from h mid buses bus_max m) \<and> fst (pci_max_bus_from h mid buses bus_max m) \<le> 256 \<and>
    ports_only m (snd (pci_max_bus_from h mid buses bus_max m))"
proof (induction h mid buses bus_max m rule: pci_max_bus_from.induct)
  case (2 h mid bus rest bus_max m)
  obtain x m1 where r: "pci_config_read_imm h (of_nat bus) 0 0 0 m = (x, m1)" by fastforce
  moreover have "ports_only m m1" using pci_config_ports(2) [OF ports_only_refl, of m] r by (metis snd_conv)
  ultimately show ?case using "2.IH" [OF r [symmetric]] "2.prems" by (auto intro: ports_only_trans)
qed simp

lemma pci_max_bus_range:
  "1 \<le> fst (pci_max_bus h m) \<and> fst (pci_max_bus h m) \<le> 256 \<and> ports_only m (snd (pci_max_bus h m))"
proof -
  obtain x m1 where r: "pci_config_read_imm h 0 0 0 0 m = (x, m1)" by fastforce
  moreover have "ports_only m m1" using pci_config_ports(2) [OF ports_only_refl, of m] r by (metis snd_conv)
  ultimately show ?thesis
    using pci_max_bus_from_range [of 1 "[1..<0x100]" h x m1]
    by (auto simp: pci_max_bus_def intro: ports_only_trans)
qed

lemma console_pci: "console_step m m' \<Longrightarrow> pci_devices m' = pci_devices m \<and> pci_bus_present m' = pci_bus_present m"
  by (erule console_stepE) simp

text \<open>The scan leaves the presence flag alone.\<close>

lemma ports_present: "ports_only m m' \<Longrightarrow> pci_bus_present m' = pci_bus_present m"
  by (metis ports_only_step console_pci)

lemma pci_scan_functions_present:
  "pci_bus_present (snd (pci_scan_functions h bus dev fs index m)) = pci_bus_present m"
  by (induction fs arbitrary: index m)
    (simp_all add: split_beta ports_present [OF pci_config_ports(2) [OF ports_only_refl]]
      ports_present [OF pci_probe_function_ports])

lemma pci_scan_present:
  "pci_bus_present (snd (pci_scan_devices h bus ds index m)) = pci_bus_present m"
  "pci_bus_present (snd (pci_scan_buses h bs index m)) = pci_bus_present m"
proof -
  show d: "pci_bus_present (snd (pci_scan_devices h bus ds index m)) = pci_bus_present m" for bus ds index m
    by (induction ds arbitrary: index m) (simp_all add: split_beta pci_scan_functions_present)
  show "pci_bus_present (snd (pci_scan_buses h bs index m)) = pci_bus_present m"
    by (induction bs arbitrary: index m) (simp_all add: split_beta d)
qed

section \<open>Properties\<close>


text \<open>A machine with a host bridge that latches the address register and an empty bus.\<close>

definition pci_hw :: hw where
  "pci_hw = quiet_hw\<lparr>hw_in := (\<lambda>hs w p. if p = 0xCF8
     then (case hs of PortOut _ _ v # _ \<Rightarrow> v | _ \<Rightarrow> 0) else 0xFFFFFFFF)\<rparr>"

definition pci_example :: pci where
  "pci_example = irq.extend irq_example (pci.fields [] False)"

lemma pci_example_init: "\<not> pci_bus_present pci_example \<and> pci_bus_present (pci_init pci_hw pci_example)"
  by (simp add: pci_init_def Let_def split_beta io_inl_def io_outl_def pci_hw_def pci_scan_present
      pci_example_def irq.defs pci.defs)


lemma ucast_16_masks:
  "(ucast (w :: u16) :: u32) AND 0xFF0000 = 0" "(ucast w :: u32) AND 0xFFFF = ucast w"
proof -
  have m: "(0xFF0000 :: u32) = push_bit 16 (mask 8)" "(0xFFFF :: u32) = mask 16"
    by (simp_all add: mask_eq_exp_minus_1 push_bit_eq_mult)
  show "(ucast w :: u32) AND 0xFF0000 = 0" "(ucast w :: u32) AND 0xFFFF = ucast w"
    unfolding m using bit_imp_le_length [of w] by (fastforce intro!: bit_word_eqI simp: bit_simps)+
qed

lemma find_index_from_Some:
  "find_index_from P i xs = Some j \<Longrightarrow> \<exists>k < length xs. j = i + k \<and> P (xs ! k) \<and> (\<forall>l < k. \<not> P (xs ! l))"
proof (induction P i xs rule: find_index_from.induct)
  case (2 P i x xs)
  show ?case
  proof (cases "P x")
    case False
    with 2 obtain k where "k < length xs" "j = Suc i + k" "P (xs ! k)" "\<forall>l < k. \<not> P (xs ! l)" by auto
    with False show ?thesis by (intro exI [of _ "Suc k"]) (auto simp: nth_Cons split: nat.splits)
  qed (use 2 in auto)
qed simp


definition pci_nic :: pci_device where
  "pci_nic = pci_device_zero\<lparr>device_id := 0x2000, vendor_id := 0x1022\<rparr>"


end
