(* ===== verification/Netdev.thy ===== *)
theory Netdev
  imports Pci
begin

text \<open>
  What the network drivers and the debugger share (\<^verbatim>\<open>src/eth/network.h\<close> and the globals of
  \<^verbatim>\<open>src/eth/network.c\<close>): the Ethernet header, the addresses of this machine, the chosen card, and the
  interface that \<^verbatim>\<open>struct network_driver\<close> promises to the packet code as a locale.
\<close>

section \<open>Ethernet header\<close>

record ethernet_frame_header =
  dst_mac :: "u8 list"
  src_mac :: "u8 list"
  eth_type :: u16

definition eth_bytes :: "ethernet_frame_header \<Rightarrow> u8 list" where
  "eth_bytes hdr = dst_mac hdr @ src_mac hdr @ le16 (eth_type hdr)"

text \<open>Assignment between a header object and the first 14 bytes of a buffer, both ways.\<close>

definition eth_load :: "memory \<Rightarrow> u32 \<Rightarrow> ethernet_frame_header" where
  "eth_load mm p = \<lparr>dst_mac = load_bytes mm p 6, src_mac = load_bytes mm (p + 6) 6,
     eth_type = load16 mm (p + 12)\<rparr>"

definition eth_store :: "memory \<Rightarrow> u32 \<Rightarrow> ethernet_frame_header \<Rightarrow> memory" where
  "eth_store mm p hdr = mem_write mm p (eth_bytes hdr)"

definition eth_hdr_ok :: "ethernet_frame_header \<Rightarrow> bool" where
  "eth_hdr_ok hdr \<longleftrightarrow> length (dst_mac hdr) = 6 \<and> length (src_mac hdr) = 6"

lemma length_eth_bytes [simp]: "eth_hdr_ok hdr \<Longrightarrow> length (eth_bytes hdr) = 14"
  by (simp add: eth_hdr_ok_def eth_bytes_def)

lemma eth_load_ok [simp]: "eth_hdr_ok (eth_load mm p)"
  by (simp add: eth_hdr_ok_def eth_load_def)

lemma le16_load16: "le16 (load16 mm p) = load_bytes mm p 2"
proof -
  have "(ucast (load16 mm p) :: u8) = mm p"
    unfolding load16_def by (rule bit_word_eqI) (auto simp: bit_simps)
  moreover have "(ucast (drop_bit 8 (load16 mm p)) :: u8) = mm (p + 1)"
    unfolding load16_def by (rule bit_word_eqI) (auto simp: bit_simps dest: bit_imp_le_length)
  ultimately show ?thesis by (simp add: le16_def load_bytes_def numeral_2_eq_2)
qed

lemma eth_bytes_load: "eth_bytes (eth_load mm p) = load_bytes mm p 14"
proof -
  have "load_bytes mm p 14 = load_bytes mm p 6 @ load_bytes mm (p + 6) 6 @ load_bytes mm (p + 12) 2"
    using load_bytes_add [of mm p 6 8] load_bytes_add [of mm "p + 6" 6 2] by (simp add: algebra_simps)
  then show ?thesis by (simp add: eth_bytes_def eth_load_def le16_load16)
qed

lemma le16_inj: "le16 x = le16 y \<longleftrightarrow> x = y"
proof
  assume "le16 x = le16 y"
  then have l: "(ucast x :: u8) = ucast y" and h: "(ucast (drop_bit 8 x) :: u8) = ucast (drop_bit 8 y)"
    by (simp_all add: le16_def)
  show "x = y"
  proof (rule bit_word_eqI)
    fix n assume n: "n < LENGTH(16)"
    show "bit x n = bit y n"
    proof (cases "n < 8")
      case True
      then show ?thesis using arg_cong [OF l, of "\<lambda>w. bit w n"] by (simp add: bit_simps)
    next
      case False
      then show ?thesis using arg_cong [OF h, of "\<lambda>w. bit w (n - 8)"] n by (auto simp: bit_simps)
    qed
  qed
qed simp

lemma eth_load_store:
  assumes "eth_hdr_ok hdr"
  shows "eth_load (eth_store mm p hdr) p = hdr"
proof -
  have b: "eth_bytes (eth_load (eth_store mm p hdr) p) = eth_bytes hdr"
    using load_write_same [of "eth_bytes hdr" mm p] assms by (simp add: eth_bytes_load eth_store_def)
  let ?h = "eth_load (eth_store mm p hdr) p"
  have "dst_mac ?h = dst_mac hdr \<and> src_mac ?h = src_mac hdr \<and> eth_type ?h = eth_type hdr"
    using b assms eth_load_ok [of "eth_store mm p hdr" p]
    by (auto simp: eth_bytes_def eth_hdr_ok_def le16_inj)
  then show ?thesis by simp
qed

section \<open>State of network.c\<close>

datatype network_driver = Pcnet32 | Rtl8101 | Rtl8139 | Ne2000

record net = pci +
  my_ipv4_address :: "u8 list"
  my_eth_mac :: "u8 list"
  chosen_net_dev :: "nat option" \<comment> \<open>an index into the table of PCI devices\<close>
  chosen_net_drv :: "network_driver option"
  chosen_net_drv_open :: bool

definition net_drivers :: "network_driver list" where
  "net_drivers = [Pcnet32, Rtl8101, Rtl8139, Ne2000]"

definition net_driver_name :: "network_driver \<Rightarrow> string" where
  "net_driver_name d = (case d of Pcnet32 \<Rightarrow> ''PCnet-FAST'' | Rtl8101 \<Rightarrow> ''RealTek 8101E''
     | Rtl8139 \<Rightarrow> ''RealTek 8139'' | Ne2000 \<Rightarrow> ''NE-2000 or compatible'')"

text \<open>\<^verbatim>\<open>*pdev\<close> for a pointer into the table.\<close>

definition pci_dev_at :: "'a pci_scheme \<Rightarrow> nat option \<Rightarrow> pci_device option" where
  "pci_dev_at m p = map_option (\<lambda>i. pci_devices m ! i) p"

text \<open>The first I/O resource of at least \<open>sz\<close> ports, as every PCI driver looks for it.\<close>

fun find_io_bar :: "u64 \<Rightarrow> pci_bar list \<Rightarrow> pci_bar option" where
  "find_io_bar sz [] = None"
| "find_io_bar sz (b # bs) =
    (if bar_present b \<and> bar_io b \<and> bar_end b \<ge> bar_start b + sz then Some b else find_io_bar sz bs)"

text \<open>The loops that read a byte each from a sequence of ports.\<close>

fun io_inb_seq :: "'h hw_scheme \<Rightarrow> u32 list \<Rightarrow> 'a bus_scheme \<Rightarrow> u8 list \<times> 'a bus_scheme" where
  "io_inb_seq h [] m = ([], m)"
| "io_inb_seq h (p # ps) m = (let (b, m) = io_inb h p m; (bs, m) = io_inb_seq h ps m in (b # bs, m))"

lemma io_inb_seq_ports: "ports_only m (snd (io_inb_seq h ps m))"
  by (induction ps arbitrary: m) (auto simp: split_beta intro: ports_only_trans [OF io_ports(8)])

lemma ports_only_alloc: "ports_only m m' \<Longrightarrow> alloc m' = alloc m"
proof -
  assume "ports_only m m'"
  then obtain hs where "m' = m\<lparr>hist := hs\<rparr>" by (auto simp: ports_only_def)
  then show "alloc m' = alloc m" by simp
qed

lemma length_io_inb_seq: "length (fst (io_inb_seq h ps m)) = length ps"
  by (induction ps arbitrary: m) (auto simp: split_beta)

section \<open>Ring offsets\<close>

text \<open>Both ring drivers step an offset and wrap it to zero at the ring size.\<close>

lemma ring_step:
  fixes off size :: u32
  assumes "unat off < unat size"
  shows "unat (if off + 1 \<ge> size then 0 else off + 1) = Suc (unat off) mod unat size"
proof -
  have "Suc (unat off) < 4294967296" using assms unat_bounds(3) [of size] by linarith
  then have s: "unat (off + 1) = Suc (unat off)" by (simp add: unat_word_ariths(1))
  show ?thesis
  proof (cases "off + 1 \<ge> size")
    case True
    then have "Suc (unat off) = unat size" using assms s by (simp add: word_le_nat_alt)
    then show ?thesis using True by simp
  next
    case False
    then show ?thesis using s by (simp add: word_le_nat_alt not_le)
  qed
qed

section \<open>The driver interface\<close>

text \<open>
  The four packet operations of \<^verbatim>\<open>struct network_driver\<close> over a driver state, and what the packet
  code relies on. \<open>None\<close> is a call that never returns; \<open>prepare\<close> gives \<^verbatim>\<open>NULL\<close> (an inner \<open>None\<close>)
  or the address behind the Ethernet header it stored; \<open>get\<close> gives no packet, or its size, its header
  and the address behind that header.
\<close>

locale net_driver =
  fixes prepare :: "int \<Rightarrow> ethernet_frame_header \<Rightarrow> 's \<Rightarrow> (u32 option \<times> 's) option"
    and send :: "'s \<Rightarrow> 's option"
    and get :: "'s \<Rightarrow> ((int \<times> ethernet_frame_header \<times> u32) option \<times> 's) option"
    and put :: "u32 \<Rightarrow> 's \<Rightarrow> 's"
    and inv :: "'s \<Rightarrow> bool"
    and memory_of :: "'s \<Rightarrow> memory"
    and limit :: int
  assumes prepare_inv: "inv s \<Longrightarrow> prepare sz hdr s = Some (r, s') \<Longrightarrow> inv s'"
    and send_inv: "inv s \<Longrightarrow> send s = Some s' \<Longrightarrow> inv s'"
    and get_inv: "inv s \<Longrightarrow> get s = Some (pkt, s') \<Longrightarrow> inv s'"
    and put_inv: "inv s \<Longrightarrow> inv (put p s)"
    and prepare_null: "0 \<le> sz \<Longrightarrow> prepare sz hdr s = Some (r, s') \<Longrightarrow> r = None \<longleftrightarrow> limit < sz"
    and prepare_header: "eth_hdr_ok hdr \<Longrightarrow> prepare sz hdr s = Some (Some p, s') \<Longrightarrow>
      load_bytes (memory_of s') (p - 14) 14 = eth_bytes hdr"
    and get_header: "inv s \<Longrightarrow> get s = Some (Some (sz, hdr, p), s') \<Longrightarrow>
      hdr = eth_load (memory_of s') (p - 14)"
begin

text \<open>A frame is the header that \<open>prepare\<close> stored followed by what is written behind it.\<close>

lemma frame_built:
  assumes "eth_hdr_ok hdr" and "prepare sz hdr s = Some (Some p, s')"
    and "only_in (memory_of s') mm p n" and "n + 14 \<le> 2 ^ 32"
  shows "load_bytes mm (p - 14) (14 + n) = eth_bytes hdr @ load_bytes mm p n"
  using prepare_header [OF assms(1,2)] only_in_before [OF assms(3), of 14] assms(4)
  by (simp add: load_bytes_add)

lemma prepare_small: "0 \<le> sz \<Longrightarrow> sz \<le> limit \<Longrightarrow> prepare sz hdr s = Some (r, s') \<Longrightarrow> \<exists>p. r = Some p"
  using prepare_null [of sz hdr s r s'] by (cases r) auto

end

end
