(* ===== verification/Pcnet32.thy ===== *)
theory Pcnet32
  imports Netdev
begin

text \<open>
  The AMD PCnet driver, \<^verbatim>\<open>src/eth/net-pcnet32.c\<close>. The receive and transmit rings are lists of
  descriptor records shared with the card; the packet buffers are byte memory. The card works
  between any two volatile reads: what it has done by then to descriptors and memory is the
  parameter \<open>pcnet32_dma\<close>.
\<close>

section \<open>State\<close>

record pcnet32_rx_head =
  rx_base :: u32
  rx_buf_length :: u16
  rx_status :: u16
  rx_msg_length :: u32
  rx_reserved :: u32

record pcnet32_tx_head =
  tx_base :: u32
  tx_length :: u16
  tx_status :: u16
  tx_msg_length :: u32
  tx_reserved :: u32

definition rx_zero :: pcnet32_rx_head where
  "rx_zero = \<lparr>rx_base = 0, rx_buf_length = 0, rx_status = 0, rx_msg_length = 0, rx_reserved = 0\<rparr>"

definition tx_zero :: pcnet32_tx_head where
  "tx_zero = \<lparr>tx_base = 0, tx_length = 0, tx_status = 0, tx_msg_length = 0, tx_reserved = 0\<rparr>"

type_synonym pcnet32_shared = "pcnet32_rx_head list \<times> pcnet32_tx_head list \<times> memory"

record pcnet32_hw = hw +
  pcnet32_dma_rx :: "io_event list \<Rightarrow> pcnet32_shared \<Rightarrow> nat \<Rightarrow> pcnet32_rx_head"
  pcnet32_dma_tx :: "io_event list \<Rightarrow> pcnet32_shared \<Rightarrow> nat \<Rightarrow> pcnet32_tx_head"
  pcnet32_dma_mem :: "io_event list \<Rightarrow> pcnet32_shared \<Rightarrow> memory"

record pcnet32 = net +
  pcnet32_iobase :: u32
  pcnet32_mac_address :: "u8 list"
  pcnet32_rx_ptr :: u32 \<comment> \<open>the pointers; 0 is \<^verbatim>\<open>NULL\<close>\<close>
  pcnet32_tx_ptr :: u32
  pcnet32_rx_packets_ptr :: u32
  pcnet32_tx_packets_ptr :: u32
  pcnet32_rx :: "pcnet32_rx_head list" \<comment> \<open>what they point to\<close>
  pcnet32_tx :: "pcnet32_tx_head list"
  pcnet32_rx_packets :: "u32 list"
  pcnet32_tx_packets :: "u32 list"
  pcnet32_ring_size :: u32
  pcnet32_rx_offset :: u32
  pcnet32_tx_offset :: u32

section \<open>Operations\<close>

subsection \<open>Probing and initialisation\<close>

definition pcnet32_known_pci_id :: "pci_device option \<Rightarrow> bool" where
  "pcnet32_known_pci_id p = (case p of None \<Rightarrow> False
     | Some d \<Rightarrow> vendor_id d = 0x1022 \<and> device_id d = 0x2000)"

definition pcnet32_probe :: "nat option \<Rightarrow> 'a net_scheme \<Rightarrow> bool" where
  "pcnet32_probe pdev m = pcnet32_known_pci_id (pci_dev_at m pdev)"

definition pcnet32_rap :: "u32 \<Rightarrow> 'a pcnet32_scheme \<Rightarrow> 'a pcnet32_scheme" where
  "pcnet32_rap addr m = io_outl (pcnet32_iobase m + 0x14) addr m"

definition pcnet32_read_csr :: "'h hw_scheme \<Rightarrow> 'a pcnet32_scheme \<Rightarrow> u32 \<times> 'a pcnet32_scheme" where
  "pcnet32_read_csr h m = io_inl h (pcnet32_iobase m + 0x10) m"

definition pcnet32_write_csr :: "u32 \<Rightarrow> 'a pcnet32_scheme \<Rightarrow> 'a pcnet32_scheme" where
  "pcnet32_write_csr x m = io_outl (pcnet32_iobase m + 0x10) x m"

definition pcnet32_read_bcr :: "'h hw_scheme \<Rightarrow> 'a pcnet32_scheme \<Rightarrow> u32 \<times> 'a pcnet32_scheme" where
  "pcnet32_read_bcr h m = io_inl h (pcnet32_iobase m + 0x1C) m"

definition pcnet32_write_bcr :: "u32 \<Rightarrow> 'a pcnet32_scheme \<Rightarrow> 'a pcnet32_scheme" where
  "pcnet32_write_bcr x m = io_outl (pcnet32_iobase m + 0x1C) x m"

text \<open>The four allocations of lines 112 to 116, made only while a pointer is \<^verbatim>\<open>NULL\<close>.\<close>

definition pcnet32_alloc_rings :: "'a pcnet32_scheme \<Rightarrow> 'a pcnet32_scheme" where
  "pcnet32_alloc_rings m =
    (let m = align_alloc 16 m;
         (p, m) = alloc_if_null (pcnet32_rx_ptr m) (16 * 16) m; m = m\<lparr>pcnet32_rx_ptr := p\<rparr>;
         (p, m) = alloc_if_null (pcnet32_tx_ptr m) (16 * 16) m; m = m\<lparr>pcnet32_tx_ptr := p\<rparr>;
         (p, m) = alloc_if_null (pcnet32_rx_packets_ptr m) (16 * 4) m; m = m\<lparr>pcnet32_rx_packets_ptr := p\<rparr>;
         (p, m) = alloc_if_null (pcnet32_tx_packets_ptr m) (16 * 4) m
     in m\<lparr>pcnet32_tx_packets_ptr := p\<rparr>)"

text \<open>The initialisation block handed to the card (lines 132 to 141).\<close>

definition pcnet32_init_block :: "'h hw_scheme \<Rightarrow> 'a pcnet32_scheme \<Rightarrow> 'a pcnet32_scheme" where
  "pcnet32_init_block h m =
    (let it = ld_pcnet32_init_data h;
         m = m\<lparr>pcnet32_ring_size := 16\<rparr>;
         mm = mem_write (mem m) it (le32 (push_bit 28 4 OR push_bit 20 4 OR 0x8000 OR push_bit 7 3));
         mm = mem_write mm (it + 4) (pcnet32_mac_address m);
         mm = memset mm (it + 10) 0 2;
         mm = memset mm (it + 12) 0 8;
         mm = mem_write mm (it + 20) (le32 (pcnet32_rx_ptr m));
         mm = mem_write mm (it + 24) (le32 (pcnet32_tx_ptr m))
     in m\<lparr>mem := mm\<rparr>)"

text \<open>Clearing the rings and attaching a fresh buffer to every descriptor (lines 143 to 171).\<close>

definition pcnet32_setup_rings :: "'a pcnet32_scheme \<Rightarrow> 'a pcnet32_scheme" where
  "pcnet32_setup_rings m =
    (let m = m\<lparr>pcnet32_rx := replicate 16 rx_zero, pcnet32_tx := replicate 16 tx_zero,
               pcnet32_rx_packets := replicate 16 0, pcnet32_tx_packets := replicate 16 0\<rparr>;
         m = align_alloc 32 m;
         (bs, m) = alloc_run (replicate 16 1600) m;
         m = m\<lparr>pcnet32_rx_packets := map fst bs\<rparr>;
         (bs, m) = alloc_run (replicate 16 1600) m;
         m = m\<lparr>pcnet32_tx_packets := map fst bs\<rparr>;
         m = m\<lparr>pcnet32_rx := map (\<lambda>(d, p). d\<lparr>rx_base := p, rx_buf_length := of_int (-1600),
               rx_msg_length := 0, rx_reserved := 0, rx_status := 0x8000\<rparr>)
               (zip (pcnet32_rx m) (pcnet32_rx_packets m))\<rparr>
     in m\<lparr>pcnet32_tx := map (\<lambda>(d, p). d\<lparr>tx_base := p, tx_length := of_int (-1), tx_status := 0,
               tx_msg_length := 0\<rparr>)
               (zip (pcnet32_tx m) (pcnet32_tx_packets m))\<rparr>)"

definition pcnet32_init :: "'h hw_scheme \<Rightarrow> nat option \<Rightarrow> 'a pcnet32_scheme \<Rightarrow> bool \<times> 'a pcnet32_scheme" where
  "pcnet32_init h pdev m =
    (case pci_dev_at m pdev of None \<Rightarrow> (False, m) | Some d \<Rightarrow>
     if \<not> pcnet32_known_pci_id (Some d) then (False, m)
     else case find_io_bar 0x1F (BAR d) of
       None \<Rightarrow> (False, vga_write (''Cannot locate I/O resource'' @ crlf) m)
     | Some b \<Rightarrow>
       let m = pci_config_write_imm (bus_no d) (device_no d) (function_no d) 4 0x29F m;
           m = pcnet32_alloc_rings m;
           m = m\<lparr>pcnet32_iobase := ucast (bar_start b)\<rparr>;
           m = io_outl (pcnet32_iobase m + 0x10) 0x00000000 m;
           (mac, m) = io_inb_seq h (map (\<lambda>i. pcnet32_iobase m + of_nat i) [0..<6]) m;
           m = m\<lparr>pcnet32_mac_address := mac\<rparr>;
           m = pcnet32_write_bcr 2 (pcnet32_rap 20 m);
           m = pcnet32_init_block h m;
           m = pcnet32_setup_rings m;
           init_addr = ld_pcnet32_init_data h;
           m = pcnet32_write_csr (drop_bit 16 init_addr) (pcnet32_rap 2 m);
           m = pcnet32_write_csr (init_addr AND 0xFFFF) (pcnet32_rap 1 m);
           m = pcnet32_write_csr 3 (pcnet32_rap 0 m)
       in (True, m\<lparr>pcnet32_rx_offset := 0, pcnet32_tx_offset := 0, my_eth_mac := pcnet32_mac_address m\<rparr>))"

definition pcnet32_uninit :: "nat option \<Rightarrow> 'a pcnet32_scheme \<Rightarrow> bool \<times> 'a pcnet32_scheme" where
  "pcnet32_uninit pdev m = (True, m)"

subsection \<open>Volatile reads\<close>

definition pcnet32_sync :: "'h pcnet32_hw_scheme \<Rightarrow> 'a pcnet32_scheme \<Rightarrow> 'a pcnet32_scheme" where
  "pcnet32_sync h m =
    (let s = (pcnet32_rx m, pcnet32_tx m, mem m)
     in m\<lparr>pcnet32_rx := map (pcnet32_dma_rx h (hist m) s) [0..<length (pcnet32_rx m)],
          pcnet32_tx := map (pcnet32_dma_tx h (hist m) s) [0..<length (pcnet32_tx m)],
          mem := pcnet32_dma_mem h (hist m) s\<rparr>)"

definition pcnet32_rx_status_read :: "'h pcnet32_hw_scheme \<Rightarrow> 'a pcnet32_scheme \<Rightarrow> u16 \<times> 'a pcnet32_scheme" where
  "pcnet32_rx_status_read h m =
    (let m = pcnet32_sync h m
     in (rx_status (pcnet32_rx m ! unat (pcnet32_rx_offset m)),
         m\<lparr>hist := VolatileRead (pcnet32_rx_ptr m + 16 * pcnet32_rx_offset m + 6) # hist m\<rparr>))"

definition pcnet32_tx_status_read :: "'h pcnet32_hw_scheme \<Rightarrow> 'a pcnet32_scheme \<Rightarrow> u16 \<times> 'a pcnet32_scheme" where
  "pcnet32_tx_status_read h m =
    (let m = pcnet32_sync h m
     in (tx_status (pcnet32_tx m ! unat (pcnet32_tx_offset m)),
         m\<lparr>hist := VolatileRead (pcnet32_tx_ptr m + 16 * pcnet32_tx_offset m + 6) # hist m\<rparr>))"

subsection \<open>Packets\<close>

definition pcnet32_rx_reinit :: "nat \<Rightarrow> 'a pcnet32_scheme \<Rightarrow> 'a pcnet32_scheme" where
  "pcnet32_rx_reinit i m =
    m\<lparr>pcnet32_rx := (pcnet32_rx m)[i := (pcnet32_rx m ! i)\<lparr>rx_buf_length := of_int (-1600),
        rx_msg_length := 0, rx_reserved := 0, rx_status := 0x8000\<rparr>]\<rparr>"

definition pcnet32_adv_packet :: "'a pcnet32_scheme \<Rightarrow> 'a pcnet32_scheme" where
  "pcnet32_adv_packet m =
    (let m = m\<lparr>pcnet32_rx_offset := pcnet32_rx_offset m + 1\<rparr>
     in if pcnet32_rx_offset m \<ge> pcnet32_ring_size m then m\<lparr>pcnet32_rx_offset := 0\<rparr> else m)"

definition pcnet32_prepare_send_packet ::
  "'h pcnet32_hw_scheme \<Rightarrow> int \<Rightarrow> ethernet_frame_header \<Rightarrow> 'a pcnet32_scheme \<Rightarrow>
    (u32 option \<times> 'a pcnet32_scheme) option" where
  "pcnet32_prepare_send_packet h sz hdr m =
    (if sz > 1600 - 14 then Some (None, m)
     else do {
       (s, m) \<leftarrow> while_option (\<lambda>(s, m). s AND 0x8000 \<noteq> 0) (\<lambda>(s, m). pcnet32_tx_status_read h m)
         (pcnet32_tx_status_read h m);
       let i = unat (pcnet32_tx_offset m);
       let m = m\<lparr>pcnet32_tx := (pcnet32_tx m)[i := (pcnet32_tx m ! i)\<lparr>tx_status := 0, tx_length := of_int (-(sz + 14))\<rparr>]\<rparr>;
       let p = pcnet32_tx_packets m ! i;
       Some (Some (p + 14), m\<lparr>mem := eth_store (mem m) p hdr\<rparr>) })"

definition pcnet32_send_packet :: "'a pcnet32_scheme \<Rightarrow> 'a pcnet32_scheme" where
  "pcnet32_send_packet m =
    (let i = unat (pcnet32_tx_offset m);
         m = m\<lparr>pcnet32_tx := (pcnet32_tx m)[i := (pcnet32_tx m ! i)\<lparr>tx_status := 0x8000 OR push_bit (24 - 16) 1 OR push_bit (25 - 16) 1\<rparr>]\<rparr>;
         m = m\<lparr>pcnet32_tx_offset := pcnet32_tx_offset m + 1\<rparr>
     in if pcnet32_tx_offset m \<ge> pcnet32_ring_size m then m\<lparr>pcnet32_tx_offset := 0\<rparr> else m)"

text \<open>The discard of a descriptor that \<^verbatim>\<open>pcnet32_get_packet\<close> makes on three branches.\<close>

definition pcnet32_discard :: "'a pcnet32_scheme \<Rightarrow> 'a pcnet32_scheme" where
  "pcnet32_discard m = pcnet32_adv_packet (pcnet32_rx_reinit (unat (pcnet32_rx_offset m)) m)"

definition pcnet32_get_packet ::
  "'h pcnet32_hw_scheme \<Rightarrow> 'a pcnet32_scheme \<Rightarrow>
    (int \<times> ethernet_frame_header \<times> u32) option \<times> 'a pcnet32_scheme" where
  "pcnet32_get_packet h m =
    (let (s, m) = pcnet32_rx_status_read h m
     in if s AND 0x8000 \<noteq> 0 then (None, m)
        else let (s, m) = pcnet32_rx_status_read h m
        in if s AND 0x7C80 \<noteq> 0 then (None, pcnet32_discard m)
        else let (s, m) = pcnet32_rx_status_read h m;
                 (both, m) = (if s AND push_bit (25 - 16) 1 = 0 then (False, m)
                              else (let (s, m) = pcnet32_rx_status_read h m in (s AND push_bit (24 - 16) 1 \<noteq> 0, m)))
        in if both then
             (let i = unat (pcnet32_rx_offset m); rx = pcnet32_rx m ! i
              in if rx_msg_length rx \<ge> 14
                 then (let p = pcnet32_rx_packets m ! i
                       in (Some (sint (rx_msg_length rx - 14), eth_load (mem m) p, p + 14), m))
                 else (None, m))
        else let (s, m) = pcnet32_rx_status_read h m
        in if s AND push_bit (25 - 16) 1 = 0 then (None, pcnet32_discard m)
        else (None, pcnet32_discard m))"

definition pcnet32_put_packet :: "u32 \<Rightarrow> 'a pcnet32_scheme \<Rightarrow> 'a pcnet32_scheme" where
  "pcnet32_put_packet p m = pcnet32_discard m"

section \<open>Invariant\<close>

definition pcnet32_ok :: "'a pcnet32_scheme \<Rightarrow> bool" where
  "pcnet32_ok m \<longleftrightarrow> length (pcnet32_rx m) = 16 \<and> length (pcnet32_tx m) = 16 \<and>
    length (pcnet32_rx_packets m) = 16 \<and> length (pcnet32_tx_packets m) = 16 \<and>
    pcnet32_ring_size m = 16 \<and> unat (pcnet32_rx_offset m) < 16 \<and> unat (pcnet32_tx_offset m) < 16"

lemma pcnet32_sync_fields [simp]:
  "length (pcnet32_rx (pcnet32_sync h m)) = length (pcnet32_rx m)"
  "length (pcnet32_tx (pcnet32_sync h m)) = length (pcnet32_tx m)"
  "pcnet32_rx_packets (pcnet32_sync h m) = pcnet32_rx_packets m"
  "pcnet32_tx_packets (pcnet32_sync h m) = pcnet32_tx_packets m"
  "pcnet32_ring_size (pcnet32_sync h m) = pcnet32_ring_size m"
  "pcnet32_rx_offset (pcnet32_sync h m) = pcnet32_rx_offset m"
  "pcnet32_tx_offset (pcnet32_sync h m) = pcnet32_tx_offset m"
  by (simp_all add: pcnet32_sync_def Let_def)

lemma pcnet32_read_ok [simp]:
  "pcnet32_ok (snd (pcnet32_rx_status_read h m)) = pcnet32_ok m"
  "pcnet32_ok (snd (pcnet32_tx_status_read h m)) = pcnet32_ok m"
  by (simp_all add: pcnet32_rx_status_read_def pcnet32_tx_status_read_def pcnet32_ok_def Let_def)

lemma pcnet32_adv_packet_offset:
  assumes "pcnet32_ok m"
  shows "pcnet32_adv_packet m = m\<lparr>pcnet32_rx_offset := pcnet32_rx_offset (pcnet32_adv_packet m)\<rparr> \<and>
    unat (pcnet32_rx_offset (pcnet32_adv_packet m)) = Suc (unat (pcnet32_rx_offset m)) mod 16"
  using ring_step [of "pcnet32_rx_offset m" "pcnet32_ring_size m"] assms
  by (auto simp: pcnet32_adv_packet_def pcnet32_ok_def Let_def split: if_splits)

lemma pcnet32_discard_ok:
  assumes "pcnet32_ok m"
  shows "pcnet32_ok (pcnet32_discard m)"
    and "unat (pcnet32_rx_offset (pcnet32_discard m)) = Suc (unat (pcnet32_rx_offset m)) mod 16"
    and "mem (pcnet32_discard m) = mem m"
    and "pcnet32_rx (pcnet32_discard m) = pcnet32_rx (pcnet32_rx_reinit (unat (pcnet32_rx_offset m)) m)"
proof -
  let ?r = "pcnet32_rx_reinit (unat (pcnet32_rx_offset m)) m"
  have r: "pcnet32_ok ?r" using assms by (simp add: pcnet32_rx_reinit_def pcnet32_ok_def)
  obtain off where off: "pcnet32_discard m = ?r\<lparr>pcnet32_rx_offset := off\<rparr>"
    "unat off = Suc (unat (pcnet32_rx_offset m)) mod 16"
    using pcnet32_adv_packet_offset [OF r] by (auto simp: pcnet32_discard_def pcnet32_rx_reinit_def)
  then have "unat off < 16" by simp
  then show "pcnet32_ok (pcnet32_discard m)"
    "unat (pcnet32_rx_offset (pcnet32_discard m)) = Suc (unat (pcnet32_rx_offset m)) mod 16"
    "mem (pcnet32_discard m) = mem m" "pcnet32_rx (pcnet32_discard m) = pcnet32_rx ?r"
    using r off by (simp_all add: pcnet32_ok_def pcnet32_rx_reinit_def)
qed

lemma pcnet32_send_ok:
  assumes "pcnet32_ok m"
  shows "pcnet32_ok (pcnet32_send_packet m) \<and> mem (pcnet32_send_packet m) = mem m \<and>
    unat (pcnet32_tx_offset (pcnet32_send_packet m)) = Suc (unat (pcnet32_tx_offset m)) mod 16"
  using ring_step [of "pcnet32_tx_offset m" "pcnet32_ring_size m"] assms
  by (auto simp: pcnet32_send_packet_def pcnet32_ok_def Let_def split: if_splits)

lemma pcnet32_get_ok:
  assumes "pcnet32_ok m"
  shows "pcnet32_ok (snd (pcnet32_get_packet h m))"
proof -
  have "pcnet32_ok m1" if "pcnet32_rx_status_read h m = (s, m1)" "pcnet32_ok m" for s m m1
    using pcnet32_read_ok(1) [of h m] that by simp
  then show ?thesis
    using assms by (auto simp: pcnet32_get_packet_def Let_def split: prod.splits if_splits
        intro!: pcnet32_discard_ok(1))
qed

lemma pcnet32_prepare_cases:
  assumes "pcnet32_prepare_send_packet h sz hdr m = Some (r, m')"
  shows "(if sz > 1586 then r = None \<and> m' = m else
    \<exists>mm p. r = Some (p + 14) \<and> mem m' = eth_store mm p hdr \<and> (pcnet32_ok m \<longrightarrow> pcnet32_ok m'))"
proof (cases "sz > 1586")
  case True
  then show ?thesis using assms by (simp add: pcnet32_prepare_send_packet_def)
next
  case False
  then obtain s m1 where w: "while_option (\<lambda>(s, m). s AND 0x8000 \<noteq> 0) (\<lambda>(s, m). pcnet32_tx_status_read h m)
      (pcnet32_tx_status_read h m) = Some (s, m1)"
    using assms by (auto simp: pcnet32_prepare_send_packet_def bind_eq_Some_conv)
  have ok: "pcnet32_ok m1" if "pcnet32_ok m"
    using while_option_rule [where P = "\<lambda>s. pcnet32_ok (snd s)", OF _ w] that by (auto simp: split_beta)
  from assms False w have "r = Some (pcnet32_tx_packets m1 ! unat (pcnet32_tx_offset m1) + 14)"
    "mem m' = eth_store (mem m1) (pcnet32_tx_packets m1 ! unat (pcnet32_tx_offset m1)) hdr"
    "pcnet32_ok m' = pcnet32_ok m1"
    by (auto simp: pcnet32_prepare_send_packet_def pcnet32_ok_def Let_def)
  then show ?thesis using False ok by auto
qed

lemma pcnet32_get_header:
  "pcnet32_get_packet h m = (Some (sz, hdr, p), m') \<Longrightarrow> hdr = eth_load (mem m') (p - 14)"
  by (auto simp: pcnet32_get_packet_def Let_def split: prod.splits if_splits)

lemma eth_store_header:
  "eth_hdr_ok hdr \<Longrightarrow> load_bytes (eth_store mm p hdr) p 14 = eth_bytes hdr"
  using load_write_same [of "eth_bytes hdr" mm p] by (simp add: eth_store_def)

interpretation pcnet32_driver: net_driver "pcnet32_prepare_send_packet h"
  "\<lambda>m. Some (pcnet32_send_packet m)" "\<lambda>m. Some (pcnet32_get_packet h m)" pcnet32_put_packet
  pcnet32_ok mem 1586 for h
proof (unfold_locales, goal_cases)
  case (1 s sz hdr r s')
  then show ?case using pcnet32_prepare_cases [of h sz hdr s r s'] by (auto split: if_splits)
next
  case (2 s s')
  then show ?case using pcnet32_send_ok [of s] by auto
next
  case (3 s pkt s')
  then show ?case using pcnet32_get_ok [of s h] by auto
next
  case (4 s p)
  then show ?case by (simp add: pcnet32_put_packet_def pcnet32_discard_ok(1))
next
  case (5 sz hdr s r s')
  then show ?case using pcnet32_prepare_cases [of h sz hdr s r s'] by (auto split: if_splits)
next
  case (6 hdr sz s p s')
  then obtain mm q where "p = q + 14" "mem s' = eth_store mm q hdr"
    using pcnet32_prepare_cases [of h sz hdr s "Some p" s'] by (auto split: if_splits)
  with 6(1) show ?case by (simp only: add_diff_cancel_right' eth_store_header)
next
  case (7 s sz hdr p s')
  then show ?case using pcnet32_get_header by auto
qed

section \<open>Properties\<close>

definition rx_given :: "pcnet32_rx_head \<Rightarrow> bool" where
  "rx_given d \<longleftrightarrow> rx_status d = 0x8000 \<and> rx_buf_length d = of_int (-1600) \<and> rx_msg_length d = 0"

lemma pcnet32_discard_given:
  assumes "pcnet32_ok m"
  shows "rx_given (pcnet32_rx (pcnet32_discard m) ! unat (pcnet32_rx_offset m))"
    and "i < 16 \<Longrightarrow> rx_given (pcnet32_rx m ! i) \<Longrightarrow> rx_given (pcnet32_rx (pcnet32_discard m) ! i)"
  using assms pcnet32_discard_ok(4) [OF assms]
  by (auto simp: rx_given_def pcnet32_rx_reinit_def pcnet32_ok_def nth_list_update)

text \<open>
  C12. Receiving is round robin: from a consistent ring, after returning \<open>k\<close> packets the driver
  looks at descriptor (offset + k) mod 16, every descriptor it passed belongs to the card again
  with a full-size empty buffer, and the ring stays consistent.
\<close>

theorem pcnet32_put_round_robin:
  assumes "pcnet32_ok m"
  shows "pcnet32_ok ((pcnet32_put_packet p ^^ k) m) \<and>
    unat (pcnet32_rx_offset ((pcnet32_put_packet p ^^ k) m)) = (unat (pcnet32_rx_offset m) + k) mod 16 \<and>
    (\<forall>j < k. rx_given (pcnet32_rx ((pcnet32_put_packet p ^^ k) m) ! ((unat (pcnet32_rx_offset m) + j) mod 16)))"
proof (induction k)
  case 0
  then show ?case using assms by (simp add: pcnet32_ok_def)
next
  case (Suc k)
  let ?m = "(pcnet32_put_packet p ^^ k) m"
  have ok: "pcnet32_ok ?m" using Suc by simp
  have "(pcnet32_put_packet p ^^ Suc k) m = pcnet32_discard ?m" by (simp add: pcnet32_put_packet_def)
  then show ?case
    using Suc pcnet32_discard_ok(1,2) [OF ok] pcnet32_discard_given [OF ok]
    by (auto simp: less_Suc_eq mod_Suc_eq)
qed

subsection \<open>What the receive path delivers\<close>

text \<open>
  The ownership rule of the card, a hypothesis below: a receive descriptor whose OWN bit is clear
  belongs to the driver and is not touched.
\<close>

definition pcnet32_respects_own :: "'h pcnet32_hw_scheme \<Rightarrow> bool" where
  "pcnet32_respects_own h \<longleftrightarrow> (\<forall>hs rx tx mm i. i < length rx \<longrightarrow> rx_status (rx ! i) AND 0x8000 = 0 \<longrightarrow>
     pcnet32_dma_rx h hs (rx, tx, mm) i = rx ! i)"

definition rx_slot :: "'a pcnet32_scheme \<Rightarrow> pcnet32_rx_head" where
  "rx_slot m = pcnet32_rx m ! unat (pcnet32_rx_offset m)"

text \<open>Further reads of a descriptor the driver owns change nothing the driver looks at.\<close>

definition rx_same :: "'a pcnet32_scheme \<Rightarrow> 'a pcnet32_scheme \<Rightarrow> bool" where
  "rx_same m m' \<longleftrightarrow> rx_slot m' = rx_slot m \<and> pcnet32_rx_offset m' = pcnet32_rx_offset m \<and>
     pcnet32_rx_packets m' = pcnet32_rx_packets m \<and> pcnet32_ok m' = pcnet32_ok m"

lemma rx_same_trans [trans]: "rx_same m m' \<Longrightarrow> rx_same m' m'' \<Longrightarrow> rx_same m m''"
  by (simp add: rx_same_def)

lemma rx_status_read:
  assumes "pcnet32_rx_status_read h m = (s, m1)"
  shows "s = rx_status (rx_slot m1)" and "pcnet32_rx_offset m1 = pcnet32_rx_offset m"
    and "pcnet32_rx_packets m1 = pcnet32_rx_packets m" and "pcnet32_ok m1 = pcnet32_ok m"
  using assms pcnet32_read_ok(1) [of h m] by (auto simp: pcnet32_rx_status_read_def rx_slot_def Let_def)

lemma rx_status_read_owned:
  assumes "pcnet32_respects_own h" and "pcnet32_ok m" and "rx_status (rx_slot m) AND 0x8000 = 0"
    and "pcnet32_rx_status_read h m = (s, m1)"
  shows "s = rx_status (rx_slot m)" and "rx_same m m1"
proof -
  have "rx_slot m1 = rx_slot m"
    using assms by (auto simp: pcnet32_rx_status_read_def rx_slot_def pcnet32_sync_def Let_def
        pcnet32_respects_own_def pcnet32_ok_def)
  then show "s = rx_status (rx_slot m)" "rx_same m m1"
    using rx_status_read [OF assms(4)] by (simp_all add: rx_same_def)
qed

lemma status_bits: "s AND 0x200 = 0 \<longleftrightarrow> \<not> bit (s :: u16) 9" "s AND 0x100 = 0 \<longleftrightarrow> \<not> bit (s :: u16) 8"
  using bit_iff_and_push_bit_not_eq_0 [of s 9] bit_iff_and_push_bit_not_eq_0 [of s 8] by simp_all

lemma pcnet32_get_by_status:
  assumes "pcnet32_respects_own h" and "pcnet32_ok m" and "pcnet32_rx_status_read h m = (s, m1)"
  shows "\<exists>m'. rx_same m1 m' \<and> pcnet32_get_packet h m =
    (if s AND 0x8000 \<noteq> 0 then (None, m1)
     else if s AND 0x7C80 \<noteq> 0 \<or> \<not> (bit s 9 \<and> bit s 8) then (None, pcnet32_discard m')
     else if rx_msg_length (rx_slot m1) \<ge> 14 then
       (let p = pcnet32_rx_packets m1 ! unat (pcnet32_rx_offset m1)
        in (Some (sint (rx_msg_length (rx_slot m1) - 14), eth_load (mem m') p, p + 14), m'))
     else (None, m'))"
proof (cases "s AND 0x8000 = 0")
  case False
  then show ?thesis using assms(3) by (intro exI [of _ m1]) (simp add: pcnet32_get_packet_def rx_same_def)
next
  case True
  have s: "s = rx_status (rx_slot m1)" and ok1: "pcnet32_ok m1"
    using rx_status_read [OF assms(3)] assms(2) by simp_all
  obtain m2 where r2: "pcnet32_rx_status_read h m1 = (s, m2)" and m2: "rx_same m1 m2"
    using rx_status_read_owned [OF assms(1) ok1] True s by (metis surj_pair)
  obtain m3 where r3: "pcnet32_rx_status_read h m2 = (s, m3)" and m3: "rx_same m2 m3"
    using rx_status_read_owned [OF assms(1), of m2] m2 ok1 True s by (metis surj_pair rx_same_def)
  obtain m4 where r4: "pcnet32_rx_status_read h m3 = (s, m4)" and m4: "rx_same m3 m4"
    using rx_status_read_owned [OF assms(1), of m3] m2 m3 ok1 True s by (metis surj_pair rx_same_def)
  obtain m5 where r5: "pcnet32_rx_status_read h m4 = (s, m5)" and m5: "rx_same m4 m5"
    using rx_status_read_owned [OF assms(1), of m4] m2 m3 m4 ok1 True s by (metis surj_pair rx_same_def)
  note same = m2 m3 m4 m5
  have "rx_same m1 m3" "rx_same m1 m4" "rx_same m1 m5" using same by (auto simp: rx_same_def)
  with same r2 r3 r4 r5 assms(3) True show ?thesis
    by (cases "bit s 9"; cases "bit s 8")
      (auto simp: pcnet32_get_packet_def Let_def status_bits rx_same_def rx_slot_def)
qed

text \<open>
  C13. What \<^verbatim>\<open>pcnet32_get_packet\<close> does is decided by the status word it reads first. Owned by the
  card: nothing. An error bit, or not one complete frame: the descriptor goes back to the card
  and the ring advances. A complete frame of at least 14 bytes: the driver's buffer behind the
  Ethernet header, with the size of the rest, and nothing is consumed. A complete frame shorter
  than a header: nothing is returned and nothing is consumed.
\<close>

theorem pcnet32_get_packet_cases:
  assumes "pcnet32_respects_own h" and "pcnet32_ok m" and "pcnet32_rx_status_read h m = (s, m1)"
  shows "\<exists>m'. rx_same m1 m' \<and> pcnet32_get_packet h m =
    (if s AND 0x8000 \<noteq> 0 then (None, m1)
     else if s AND 0x7C80 \<noteq> 0 \<or> \<not> (bit s 9 \<and> bit s 8) then (None, pcnet32_discard m')
     else if rx_msg_length (rx_slot m1) \<ge> 14 then
       (let p = pcnet32_rx_packets m1 ! unat (pcnet32_rx_offset m1)
        in (Some (sint (rx_msg_length (rx_slot m1) - 14), eth_load (mem m') p, p + 14), m'))
     else (None, m'))"
  using assms by (rule pcnet32_get_by_status)

text \<open>A machine whose card never does anything, for the witnesses.\<close>

definition pcnet32_idle_hw :: pcnet32_hw where
  "pcnet32_idle_hw = hw.extend quiet_hw (pcnet32_hw.fields (\<lambda>hs (rx, tx, mm) i. rx ! i)
     (\<lambda>hs (rx, tx, mm) i. tx ! i) (\<lambda>hs (rx, tx, mm). mm))"

lemma pcnet32_idle_own: "pcnet32_respects_own pcnet32_idle_hw"
  by (simp add: pcnet32_respects_own_def pcnet32_idle_hw_def hw.defs pcnet32_hw.defs)

definition net_example :: net where
  "net_example = pci.extend pci_example (net.fields [192, 168, 250, 254] [0, 1, 2, 3, 4, 5] None None False)"

text \<open>A ring in which the card has delivered a complete frame of the given length into slot 15.\<close>

definition pcnet32_example :: "u32 \<Rightarrow> pcnet32" where
  "pcnet32_example n = net.extend net_example
     (pcnet32.fields 0xC000 [0, 1, 2, 3, 4, 5] 0x100000 0x100100 0x100200 0x100240
       ((replicate 16 rx_zero)[15 := rx_zero\<lparr>rx_status := 0x300, rx_msg_length := n\<rparr>])
       (replicate 16 tx_zero) (map (\<lambda>i. 0x110000 + 0x640 * of_nat i) [0..<16])
       (map (\<lambda>i. 0x120000 + 0x640 * of_nat i) [0..<16]) 16 15 0)"

lemmas pcnet32_example_defs = pcnet32_example_def net_example_def pci_example_def irq_example_def
  pcnet32.defs net.defs pci.defs irq.defs

lemma pcnet32_example_ok: "pcnet32_ok (pcnet32_example n)"
  by (simp add: pcnet32_ok_def pcnet32_example_defs)

lemma pcnet32_example_slot:
  "rx_slot (pcnet32_example n) = rx_zero\<lparr>rx_status := 0x300, rx_msg_length := n\<rparr>"
  by (simp add: rx_slot_def pcnet32_example_defs)

theorem pcnet32_put_round_robin_witness:
  "unat (pcnet32_rx_offset ((pcnet32_put_packet 0 ^^ 3) (pcnet32_example 60))) = 2 \<and>
   rx_given (pcnet32_rx ((pcnet32_put_packet 0 ^^ 3) (pcnet32_example 60)) ! 15)"
proof -
  have "unat (pcnet32_rx_offset (pcnet32_example 60)) = 15" by (simp add: pcnet32_example_defs)
  with pcnet32_put_round_robin [OF pcnet32_example_ok [of 60], where p = 0 and k = 3] show ?thesis
    by (auto dest: spec [of _ 0])
qed

theorem pcnet32_get_packet_cases_witness:
  "\<exists>m'. pcnet32_get_packet pcnet32_idle_hw (pcnet32_example 60) =
    (Some (46, eth_load (mem m') 0x115DC0, 0x115DCE), m')"
proof -
  obtain s m1 where r: "pcnet32_rx_status_read pcnet32_idle_hw (pcnet32_example 60) = (s, m1)" by fastforce
  note own = rx_status_read_owned [OF pcnet32_idle_own pcnet32_example_ok _ r]
  have "s = 0x300" "rx_slot m1 = rx_slot (pcnet32_example 60)"
    "pcnet32_rx_offset m1 = 15" "pcnet32_rx_packets m1 = pcnet32_rx_packets (pcnet32_example 60)"
    using own by (simp_all add: pcnet32_example_slot rx_same_def) (simp add: pcnet32_example_defs)
  moreover have "pcnet32_rx_packets (pcnet32_example 60) ! 15 = 0x115DC0" by (simp add: pcnet32_example_defs)
  moreover have "bit (0x300 :: u16) 9" "bit (0x300 :: u16) 8" by (simp_all add: bit_numeral_rec)
  ultimately show ?thesis
    using pcnet32_get_packet_cases [OF pcnet32_idle_own pcnet32_example_ok r]
    by (auto simp: pcnet32_example_slot word_le_nat_alt)
qed

text \<open>
  C35. A runt stops reception: once a complete, error-free frame shorter than an Ethernet header
  sits in the current descriptor, no call of \<^verbatim>\<open>pcnet32_get_packet\<close> ever delivers a packet or
  moves on, however many packets the card has delivered behind it.
\<close>

theorem pcnet32_runt_blocks:
  assumes "pcnet32_respects_own h" and "pcnet32_ok m"
    and "rx_status (rx_slot m) AND 0x8000 = 0" "rx_status (rx_slot m) AND 0x7C80 = 0"
    and "bit (rx_status (rx_slot m)) 9" "bit (rx_status (rx_slot m)) 8"
    and "rx_msg_length (rx_slot m) < 14"
  shows "fst (pcnet32_get_packet h (((\<lambda>m. snd (pcnet32_get_packet h m)) ^^ k) m)) = None \<and>
    pcnet32_rx_offset (((\<lambda>m. snd (pcnet32_get_packet h m)) ^^ k) m) = pcnet32_rx_offset m"
proof -
  have step: "fst (pcnet32_get_packet h u) = None \<and> rx_same u (snd (pcnet32_get_packet h u))"
    if u: "rx_same m u" for u
  proof -
    obtain s m1 where r: "pcnet32_rx_status_read h u = (s, m1)" by fastforce
    have ok: "pcnet32_ok u" and sl: "rx_slot u = rx_slot m" using u assms(2) by (simp_all add: rx_same_def)
    have "s = rx_status (rx_slot m)" "rx_same u m1"
      using rx_status_read_owned [OF assms(1) ok _ r] assms(3) sl by simp_all
    then show ?thesis
      using pcnet32_get_by_status [OF assms(1) ok r] assms(3-7) sl
      by (auto simp: rx_same_def word_less_nat_alt word_le_nat_alt split: if_splits)
  qed
  have "rx_same m (((\<lambda>m. snd (pcnet32_get_packet h m)) ^^ k) m)"
    by (induction k) (auto simp: rx_same_def [of m m] dest: step intro: rx_same_trans)
  then show ?thesis using step by (simp add: rx_same_def)
qed

theorem pcnet32_runt_blocks_witness:
  "fst (pcnet32_get_packet pcnet32_idle_hw
     (((\<lambda>m. snd (pcnet32_get_packet pcnet32_idle_hw m)) ^^ 1000) (pcnet32_example 8))) = None"
proof -
  have "bit (0x300 :: u16) 9" "bit (0x300 :: u16) 8" by (simp_all add: bit_numeral_rec)
  then show ?thesis
    using pcnet32_runt_blocks [OF pcnet32_idle_own pcnet32_example_ok [of 8], of 1000]
    by (simp add: pcnet32_example_slot)
qed

subsection \<open>Initialisation\<close>

lemma align_alloc_bounds:
  assumes "unat (alloc m) + 0x10000 \<le> 2 ^ 32" and "k \<le> 16"
  shows "unat (alloc m) \<le> unat (alloc (align_alloc (2 ^ k) m)) \<and>
    unat (alloc (align_alloc (2 ^ k) m)) < unat (alloc m) + 2 ^ k"
proof -
  have "(2 :: nat) ^ k \<le> 2 ^ 16" using assms(2) by (rule power_increasing) simp
  then have "unat (alloc m) + 2 ^ k \<le> 2 ^ 32" using assms(1) by simp
  then show ?thesis using align_alloc_least [of k m] assms(2) by simp
qed

lemma align_alloc_bounds_16:
  "unat (alloc m) + 0x10000 \<le> 2 ^ 32 \<Longrightarrow> unat (alloc m) \<le> unat (alloc (align_alloc 16 m)) \<and>
    unat (alloc (align_alloc 16 m)) < unat (alloc m) + 16"
  "unat (alloc m) + 0x10000 \<le> 2 ^ 32 \<Longrightarrow> unat (alloc m) \<le> unat (alloc (align_alloc 32 m)) \<and>
    unat (alloc (align_alloc 32 m)) < unat (alloc m) + 32"
  "unat (alloc m) + 0x10000 \<le> 2 ^ 32 \<Longrightarrow> unat (alloc m) \<le> unat (alloc (align_alloc 256 m)) \<and>
    unat (alloc (align_alloc 256 m)) < unat (alloc m) + 256"
  using align_alloc_bounds [of m 4] align_alloc_bounds [of m 5] align_alloc_bounds [of m 8] by simp_all

lemma pcnet32_alloc_rings_alloc:
  assumes "unat (alloc m) + 0x10000 \<le> 2 ^ 32"
  shows "unat (alloc m) \<le> unat (alloc (pcnet32_alloc_rings m)) \<and>
    unat (alloc (pcnet32_alloc_rings m)) < unat (alloc m) + 656"
proof -
  define m0 where "m0 = align_alloc 16 m"
  define m1 where "m1 = (snd (alloc_if_null (pcnet32_rx_ptr m0) 256 m0))
    \<lparr>pcnet32_rx_ptr := fst (alloc_if_null (pcnet32_rx_ptr m0) 256 m0)\<rparr>"
  define m2 where "m2 = (snd (alloc_if_null (pcnet32_tx_ptr m1) 256 m1))
    \<lparr>pcnet32_tx_ptr := fst (alloc_if_null (pcnet32_tx_ptr m1) 256 m1)\<rparr>"
  define m3 where "m3 = (snd (alloc_if_null (pcnet32_rx_packets_ptr m2) 64 m2))
    \<lparr>pcnet32_rx_packets_ptr := fst (alloc_if_null (pcnet32_rx_packets_ptr m2) 64 m2)\<rparr>"
  have eq: "alloc (pcnet32_alloc_rings m) = alloc (snd (alloc_if_null (pcnet32_tx_packets_ptr m3) 64 m3))"
    by (simp add: pcnet32_alloc_rings_def Let_def split_beta m0_def m1_def m2_def m3_def)
  have 0: "unat (alloc m) \<le> unat (alloc m0)" "unat (alloc m0) < unat (alloc m) + 16"
    using align_alloc_bounds_16(1) [OF assms] by (simp_all add: m0_def)
  then have 1: "unat (alloc m0) \<le> unat (alloc m1)" "unat (alloc m1) \<le> unat (alloc m0) + 256"
    using alloc_if_null_bounds [of m0 256] assms by (simp_all add: m1_def)
  then have 2: "unat (alloc m1) \<le> unat (alloc m2)" "unat (alloc m2) \<le> unat (alloc m1) + 256"
    using alloc_if_null_bounds [of m1 256] assms 0 by (simp_all add: m2_def)
  then have 3: "unat (alloc m2) \<le> unat (alloc m3)" "unat (alloc m3) \<le> unat (alloc m2) + 64"
    using alloc_if_null_bounds [of m2 64] assms 0 1 by (simp_all add: m3_def)
  then show ?thesis
    using alloc_if_null_bounds [of m3 64 "pcnet32_tx_packets_ptr m3"] assms 0 1 2 unfolding eq by simp
qed

text \<open>Descriptors bound to buffers: one after the other, 1600 bytes each, all disjoint.\<close>

definition buffers_apart :: "u32 list \<Rightarrow> bool" where
  "buffers_apart ps \<longleftrightarrow> sorted_wrt (\<lambda>p q. unat p + 1600 \<le> unat q) ps"

definition pcnet32_rings_fresh :: "'a pcnet32_scheme \<Rightarrow> bool" where
  "pcnet32_rings_fresh m \<longleftrightarrow>
    buffers_apart (pcnet32_rx_packets m @ pcnet32_tx_packets m) \<and>
    length (pcnet32_rx_packets m) = 16 \<and> length (pcnet32_tx_packets m) = 16 \<and>
    map rx_base (pcnet32_rx m) = pcnet32_rx_packets m \<and>
    map tx_base (pcnet32_tx m) = pcnet32_tx_packets m \<and>
    (\<forall>d \<in> set (pcnet32_rx m). rx_given d) \<and> (\<forall>d \<in> set (pcnet32_tx m). tx_status d = 0)"

lemma pcnet32_setup_rings_fresh:
  assumes "unat (alloc m) + 0xE000 \<le> 2 ^ 32"
  shows "pcnet32_rings_fresh (pcnet32_setup_rings m) \<and>
    (\<forall>p \<in> set (pcnet32_rx_packets (pcnet32_setup_rings m) @ pcnet32_tx_packets (pcnet32_setup_rings m)).
      unat (alloc m) \<le> unat p \<and> unat p + 1600 \<le> unat (alloc (pcnet32_setup_rings m)))"
proof -
  define m0 where "m0 = align_alloc 32 (m\<lparr>pcnet32_rx := replicate 16 rx_zero, pcnet32_tx := replicate 16 tx_zero,
    pcnet32_rx_packets := replicate 16 0, pcnet32_tx_packets := replicate 16 0\<rparr>)"
  obtain b1 m1 where r1: "alloc_run (replicate 16 1600) m0 = (b1, m1)" by fastforce
  define m1' where "m1' = m1\<lparr>pcnet32_rx_packets := map fst b1\<rparr>"
  obtain b2 m2 where r2: "alloc_run (replicate 16 1600) m1' = (b2, m2)" by fastforce
  have al: "unat (alloc m) \<le> unat (alloc m0)" "unat (alloc m0) < unat (alloc m) + 32"
    using align_alloc_least [of 5 "m\<lparr>pcnet32_rx := replicate 16 rx_zero, pcnet32_tx := replicate 16 tx_zero,
    pcnet32_rx_packets := replicate 16 0, pcnet32_tx_packets := replicate 16 0\<rparr>"] assms
    by (simp_all add: m0_def)
  then have "unat (alloc m0) + 16 * unat (1600 :: u32) < 2 ^ 32" using assms by simp
  note a1 = alloc_run_equal [OF r1 this]
  then have "unat (alloc m1') + 16 * unat (1600 :: u32) < 2 ^ 32" using assms al by (simp add: m1'_def)
  note a2 = alloc_run_equal [OF r2 this]
  have f2: "pcnet32_rx m2 = pcnet32_rx m1'" "pcnet32_tx m2 = pcnet32_tx m1'"
    "pcnet32_rx_packets m2 = pcnet32_rx_packets m1'"
    by (subst a2(4), simp)+
  have "pcnet32_rx m1 = pcnet32_rx m0" "pcnet32_tx m1 = pcnet32_tx m0" by (subst a1(4), simp)+
  then have rx: "pcnet32_rx m2 = replicate 16 rx_zero" "pcnet32_tx m2 = replicate 16 tx_zero"
    "pcnet32_rx_packets m2 = map fst b1"
    using f2 by (simp_all add: m1'_def m0_def align_alloc_def)
  define m3 where "m3 = pcnet32_setup_rings m"
  have m3: "pcnet32_rx_packets m3 = map fst b1" "pcnet32_tx_packets m3 = map fst b2"
    "pcnet32_rx m3 = map (\<lambda>p. rx_zero\<lparr>rx_base := p, rx_buf_length := of_int (-1600),
       rx_msg_length := 0, rx_reserved := 0, rx_status := 0x8000\<rparr>) (map fst b1)"
    "pcnet32_tx m3 = map (\<lambda>p. tx_zero\<lparr>tx_base := p, tx_length := of_int (-1), tx_status := 0,
       tx_msg_length := 0\<rparr>) (map fst b2)" "alloc m3 = alloc m2"
    using r1 r2 rx a1(2) a2(2)
    by (simp_all add: m3_def pcnet32_setup_rings_def Let_def m0_def [symmetric] m1'_def [symmetric] zip_replicate1)
  have "buffers_apart (map fst b1 @ map fst b2)"
    using a1(1,3) a2(1,3) by (fastforce simp: buffers_apart_def sorted_wrt_append m1'_def)
  then show ?thesis
    unfolding m3_def [symmetric] pcnet32_rings_fresh_def
    using m3 a1(2,3,5) a2(2,3,5) al by (fastforce simp: m1'_def o_def rx_given_def)
qed

lemmas pcnet32_regs = pcnet32_rap_def pcnet32_write_csr_def pcnet32_write_bcr_def io_outl_def

lemma pcnet32_setup_rings_fields [simp]:
  "pcnet32_ring_size (pcnet32_setup_rings m) = pcnet32_ring_size m"
  "pcnet32_mac_address (pcnet32_setup_rings m) = pcnet32_mac_address m"
proof -
  have a: "pcnet32_ring_size (snd (alloc_run ns u)) = pcnet32_ring_size u \<and>
      pcnet32_mac_address (snd (alloc_run ns u)) = pcnet32_mac_address u" for ns and u :: "'a pcnet32_scheme"
  proof -
    have "snd (alloc_run ns u) = u\<lparr>alloc := alloc u + sum_list ns\<rparr>"
      using alloc_run_frame [of ns u "fst (alloc_run ns u)" "snd (alloc_run ns u)"] by simp
    then show ?thesis by simp
  qed
  show "pcnet32_ring_size (pcnet32_setup_rings m) = pcnet32_ring_size m"
    "pcnet32_mac_address (pcnet32_setup_rings m) = pcnet32_mac_address m"
    by (simp_all add: pcnet32_setup_rings_def Let_def split_beta a align_alloc_def)
qed

text \<open>
  C11. A successful \<^verbatim>\<open>pcnet32_init\<close> leaves consistent rings: every receive descriptor is handed to the
  card with its own 1600-byte buffer, every transmit descriptor belongs to the driver with its
  own, the 32 buffers are pairwise disjoint and all lie in the memory the allocator handed out in
  this call, and the machine has taken over the card's address. The hypothesis is that the heap
  pointer is not in the last 64K of the address space.
\<close>

theorem pcnet32_init_rings:
  assumes "pcnet32_init h pdev m = (True, m')" and "unat (alloc m) + 0x10000 \<le> 2 ^ 32"
  shows "pcnet32_ok m' \<and> pcnet32_rings_fresh m' \<and>
    (\<forall>p \<in> set (pcnet32_rx_packets m' @ pcnet32_tx_packets m').
      unat (alloc m) \<le> unat p \<and> unat p + 1600 \<le> unat (alloc m')) \<and>
    my_eth_mac m' = pcnet32_mac_address m' \<and> length (my_eth_mac m') = 6"
proof -
  obtain d b where d: "pci_dev_at m pdev = Some d" "find_io_bar 0x1F (BAR d) = Some b"
    "pcnet32_known_pci_id (Some d)"
    using assms(1) by (auto simp: pcnet32_init_def split: option.splits if_splits)
  define m1 where "m1 = pci_config_write_imm (bus_no d) (device_no d) (function_no d) 4 0x29F m"
  define m2 where "m2 = pcnet32_alloc_rings m1"
  define m3 where "m3 = io_outl (ucast (bar_start b) + 0x10) 0 (m2\<lparr>pcnet32_iobase := ucast (bar_start b)\<rparr>)"
  obtain mac m4 where m4: "io_inb_seq h (map (\<lambda>i. pcnet32_iobase m3 + of_nat i) [0..<6]) m3 = (mac, m4)" by fastforce
  define m5 where "m5 = pcnet32_init_block h (pcnet32_write_bcr 2 (pcnet32_rap 20 (m4\<lparr>pcnet32_mac_address := mac\<rparr>)))"
  have "alloc m1 = alloc m"
    by (simp add: m1_def pci_config_write_imm_def pci_addr_def io_outl_def Let_def)
  then have al: "unat (alloc m) \<le> unat (alloc m2)" "unat (alloc m2) < unat (alloc m) + 656"
    using pcnet32_alloc_rings_alloc [of m1] assms(2) by (simp_all add: m2_def)
  have "ports_only m3 m4" using io_inb_seq_ports [of m3 h] m4 by (metis snd_conv)
  then have "alloc m4 = alloc m3" by (rule ports_only_alloc)
  then have al5: "alloc m5 = alloc m2"
    by (simp add: m5_def m3_def pcnet32_init_block_def pcnet32_regs Let_def)
  then have fresh: "pcnet32_rings_fresh (pcnet32_setup_rings m5)"
    "\<forall>p \<in> set (pcnet32_rx_packets (pcnet32_setup_rings m5) @ pcnet32_tx_packets (pcnet32_setup_rings m5)).
      unat (alloc m) \<le> unat p \<and> unat p + 1600 \<le> unat (alloc (pcnet32_setup_rings m5))"
    using pcnet32_setup_rings_fresh [of m5] al assms(2) by fastforce+
  have size: "pcnet32_ring_size m5 = 16" "pcnet32_mac_address m5 = mac"
    by (simp_all add: m5_def pcnet32_init_block_def pcnet32_regs Let_def)
  have len: "length mac = 6" using length_io_inb_seq [of h _ m3] m4 by (metis fst_conv length_map length_upt diff_zero)
  have m': "m' = (pcnet32_write_csr 3 (pcnet32_rap 0 (pcnet32_write_csr (ld_pcnet32_init_data h AND 0xFFFF)
      (pcnet32_rap 1 (pcnet32_write_csr (drop_bit 16 (ld_pcnet32_init_data h)) (pcnet32_rap 2 (pcnet32_setup_rings m5)))))))
      \<lparr>pcnet32_rx_offset := 0, pcnet32_tx_offset := 0, my_eth_mac := mac\<rparr>"
    using assms(1) d m4 size(2)
    by (simp add: pcnet32_init_def Let_def m1_def m2_def m3_def m5_def pcnet32_regs)
  have "pcnet32_rings_fresh m' = pcnet32_rings_fresh (pcnet32_setup_rings m5)"
    by (simp add: m' pcnet32_rings_fresh_def pcnet32_regs)
  moreover have "pcnet32_ok m'"
    using fresh(1) size unfolding pcnet32_rings_fresh_def
    by (simp add: m' pcnet32_ok_def pcnet32_regs) (metis length_map)
  ultimately show ?thesis using fresh size len by (simp add: m' pcnet32_regs)
qed

definition pcnet32_card :: pci_device where
  "pcnet32_card = pci_nic\<lparr>BAR := pci_bar_zero\<lparr>bar_io := True, bar_present := True,
     bar_start := 0xC000, bar_end := 0xC01F\<rparr> # replicate 5 pci_bar_zero\<rparr>"

definition pcnet32_machine :: pcnet32 where
  "pcnet32_machine = (pcnet32_example 0)\<lparr>pci_devices := [pcnet32_card], alloc := 0x140000\<rparr>"

lemma pcnet32_machine_init: "fst (pcnet32_init pcnet32_idle_hw (Some 0) pcnet32_machine)"
  by (simp add: pcnet32_init_def pcnet32_known_pci_id_def pci_dev_at_def pcnet32_machine_def pcnet32_card_def
      pci_nic_def pci_device_zero_def pci_bar_zero_def Let_def split_beta)

theorem pcnet32_init_rings_witness:
  "pcnet32_ok (snd (pcnet32_init pcnet32_idle_hw (Some 0) pcnet32_machine)) \<and>
   pcnet32_rings_fresh (snd (pcnet32_init pcnet32_idle_hw (Some 0) pcnet32_machine))"
proof -
  have "pcnet32_init pcnet32_idle_hw (Some 0) pcnet32_machine =
      (True, snd (pcnet32_init pcnet32_idle_hw (Some 0) pcnet32_machine))"
    using pcnet32_machine_init by (metis prod.collapse)
  moreover have "unat (alloc pcnet32_machine) + 0x10000 \<le> 2 ^ 32" by (simp add: pcnet32_machine_def)
  ultimately show ?thesis using pcnet32_init_rings by blast
qed

subsection \<open>Sending\<close>

text \<open>The state after one more look at a transmit descriptor the card still owns.\<close>

definition tx_busy :: "'h pcnet32_hw_scheme \<Rightarrow> 'a pcnet32_scheme \<Rightarrow> bool" where
  "tx_busy h m \<longleftrightarrow> fst (pcnet32_tx_status_read h m) AND 0x8000 \<noteq> 0"

lemma tx_poll_rounds:
  "((\<lambda>(s, m). pcnet32_tx_status_read h m) ^^ k) (pcnet32_tx_status_read h m) =
    pcnet32_tx_status_read h (((\<lambda>m. snd (pcnet32_tx_status_read h m)) ^^ k) m)"
  by (induction k) (auto simp: split_beta)

text \<open>
  C14. \<^verbatim>\<open>pcnet32_prepare_send_packet\<close> refuses a packet exactly when it does not fit a 1600-byte
  buffer with its header, and then touches nothing. Otherwise it returns exactly when the card
  releases the current transmit descriptor at some look, and the buffer it returns carries the
  Ethernet header in front.
\<close>

theorem pcnet32_prepare_send_spec:
  assumes "eth_hdr_ok hdr"
  shows "case pcnet32_prepare_send_packet h sz hdr m of
      None \<Rightarrow> sz \<le> 1586 \<and> (\<forall>k. tx_busy h (((\<lambda>m. snd (pcnet32_tx_status_read h m)) ^^ k) m))
    | Some (None, m') \<Rightarrow> sz > 1586 \<and> m' = m
    | Some (Some p, m') \<Rightarrow> sz \<le> 1586 \<and> load_bytes (mem m') (p - 14) 14 = eth_bytes hdr \<and>
        (\<exists>k. \<not> tx_busy h (((\<lambda>m. snd (pcnet32_tx_status_read h m)) ^^ k) m))"
proof (cases "sz > 1586")
  case True
  then show ?thesis by (simp add: pcnet32_prepare_send_packet_def)
next
  case False
  let ?w = "while_option (\<lambda>(s, m). s AND 0x8000 \<noteq> 0) (\<lambda>(s, m). pcnet32_tx_status_read h m)
      (pcnet32_tx_status_read h m)"
  have w: "(\<exists>t. ?w = Some t) \<longleftrightarrow> (\<exists>k. \<not> tx_busy h (((\<lambda>m. snd (pcnet32_tx_status_read h m)) ^^ k) m))"
    by (simp only: while_option_returns tx_poll_rounds) (simp add: tx_busy_def split_beta)
  show ?thesis
  proof (cases "pcnet32_prepare_send_packet h sz hdr m")
    case None
    then have "?w = None" using False by (auto simp: pcnet32_prepare_send_packet_def bind_eq_None_conv Let_def
        split: prod.splits)
    then show ?thesis using None False w by auto
  next
    case (Some t)
    then obtain r m' where t: "pcnet32_prepare_send_packet h sz hdr m = Some (r, m')" by (cases t) auto
    then have "\<exists>t. ?w = Some t" using False by (auto simp: pcnet32_prepare_send_packet_def bind_eq_Some_conv)
    then show ?thesis
      using t False w pcnet32_prepare_cases [OF t] pcnet32_driver.prepare_header [OF assms, of h sz m _ m']
      by auto
  qed
qed

theorem pcnet32_prepare_send_spec_witness:
  "case pcnet32_prepare_send_packet pcnet32_idle_hw 28 (eth_load (\<lambda>_. 0) 0) (pcnet32_example 60) of
     Some (Some p, m') \<Rightarrow> load_bytes (mem m') (p - 14) 14 = eth_bytes (eth_load (\<lambda>_. 0) 0) | _ \<Rightarrow> False"
proof -
  have "\<not> tx_busy pcnet32_idle_hw (((\<lambda>m. snd (pcnet32_tx_status_read pcnet32_idle_hw m)) ^^ 0) (pcnet32_example 60))"
    by (simp add: tx_busy_def pcnet32_tx_status_read_def pcnet32_sync_def pcnet32_idle_hw_def hw.defs
        pcnet32_hw.defs pcnet32_example_defs tx_zero_def)
  then show ?thesis
    using pcnet32_prepare_send_spec [where hdr = "eth_load (\<lambda>_. 0) 0" and h = pcnet32_idle_hw and sz = 28 and
        m = "pcnet32_example 60"]
    by (auto split: option.splits dest: spec [of _ 0])
qed

end
