(* ===== verification/Rtl8101.thy ===== *)
theory Rtl8101
  imports Pcnet32
begin

text \<open>
  The RealTek 8101E driver, \<^verbatim>\<open>src/eth/net-rtl8101.c\<close>, and the disabled RealTek 8139 driver of
  \<^verbatim>\<open>src/eth/net-rtl8139.c\<close>, whose operations are compiled to constant answers. Rings and card are
  modelled as in \<open>Pcnet32\<close>; every field of a descriptor is volatile here.
\<close>

section \<open>State\<close>

record rtl8101_head =
  d1 :: u32
  d2 :: u32
  d_addr :: u64

definition rtl8101_head_zero :: rtl8101_head where
  "rtl8101_head_zero = \<lparr>d1 = 0, d2 = 0, d_addr = 0\<rparr>"

type_synonym rtl8101_shared = "rtl8101_head list \<times> rtl8101_head list \<times> memory"

record rtl8101_hw = pcnet32_hw +
  rtl8101_dma_rx :: "io_event list \<Rightarrow> rtl8101_shared \<Rightarrow> nat \<Rightarrow> rtl8101_head"
  rtl8101_dma_tx :: "io_event list \<Rightarrow> rtl8101_shared \<Rightarrow> nat \<Rightarrow> rtl8101_head"
  rtl8101_dma_mem :: "io_event list \<Rightarrow> rtl8101_shared \<Rightarrow> memory"

record rtl8101 = pcnet32 +
  rtl8101_iobase :: u32
  rtl8101_mac_address :: "u8 list"
  rtl8101_rx_ptr :: u32
  rtl8101_tx_ptr :: u32
  rtl8101_rx_packets_ptr :: u32
  rtl8101_tx_packets_ptr :: u32
  rtl8101_rx :: "rtl8101_head list"
  rtl8101_tx :: "rtl8101_head list"
  rtl8101_rx_packets :: "u32 list"
  rtl8101_tx_packets :: "u32 list"
  rtl8101_ring_size :: u32
  rtl8101_rx_offset :: u32
  rtl8101_tx_offset :: u32
  rtl8101_send_sz :: u32

section \<open>Operations\<close>

subsection \<open>Probing and initialisation\<close>

definition rtl8101_known_pci_id :: "pci_device option \<Rightarrow> bool" where
  "rtl8101_known_pci_id p = (case p of None \<Rightarrow> False
     | Some d \<Rightarrow> vendor_id d = 0x10EC \<and> device_id d = 0x8136)"

definition rtl8101_probe :: "nat option \<Rightarrow> 'a net_scheme \<Rightarrow> bool" where
  "rtl8101_probe pdev m = rtl8101_known_pci_id (pci_dev_at m pdev)"

text \<open>The wait for the reset (lines 95 to 101), with its counter kept at 32 bits.\<close>

function rtl8101_reset_wait :: "'h hw_scheme \<Rightarrow> u32 \<Rightarrow> 'a rtl8101_scheme \<Rightarrow> bool \<times> 'a rtl8101_scheme" where
  "rtl8101_reset_wait h patience m =
    (let (c, m) = io_inb h (rtl8101_iobase m + 0x37) m
     in if c AND 0x10 = 0 then (True, m)
        else if patience - 1 \<noteq> 0 then (False, m)
        else rtl8101_reset_wait h (patience - 1) m)"
  by pat_completeness auto
termination
  by (relation "measure (\<lambda>(h, patience, m). unat patience)") auto

text \<open>The register writes between the reset and the ring set-up (lines 103 to 113).\<close>

definition rtl8101_configure :: "'h hw_scheme \<Rightarrow> 'a rtl8101_scheme \<Rightarrow> 'a rtl8101_scheme" where
  "rtl8101_configure h m =
    (let b = rtl8101_iobase m;
         m = io_outw (b + 0x3E) 0xFFFF m;
         m = io_outl (b + 0x40) (push_bit 24 3 OR push_bit 8 6) m;
         m = io_outl (b + 0x44) 0x000F m;
         (mac, m) = io_inb_seq h (map (\<lambda>i. b + of_nat i) [0..<6]) m;
         m = m\<lparr>rtl8101_mac_address := mac\<rparr>;
         m = io_outl (b + 0x08) 0xFFFFFFFF m;
         m = io_outl (b + 0x0C) 0xFFFFFFFF m
     in io_outw (b + 0x62) 0x1200 m)"

definition rtl8101_alloc_rings :: "'a rtl8101_scheme \<Rightarrow> 'a rtl8101_scheme" where
  "rtl8101_alloc_rings m =
    (let m = m\<lparr>rtl8101_ring_size := 4\<rparr>;
         m = align_alloc 256 m;
         (p, m) = alloc_if_null (rtl8101_rx_ptr m) (rtl8101_ring_size m * 16) m; m = m\<lparr>rtl8101_rx_ptr := p\<rparr>;
         m = align_alloc 256 m;
         (p, m) = alloc_if_null (rtl8101_tx_ptr m) (rtl8101_ring_size m * 16) m; m = m\<lparr>rtl8101_tx_ptr := p\<rparr>;
         m = align_alloc 16 m;
         (p, m) = alloc_if_null (rtl8101_rx_packets_ptr m) (4 * 4) m; m = m\<lparr>rtl8101_rx_packets_ptr := p\<rparr>;
         (p, m) = alloc_if_null (rtl8101_tx_packets_ptr m) (4 * 4) m
     in m\<lparr>rtl8101_tx_packets_ptr := p\<rparr>)"

text \<open>Descriptor contents after set-up (lines 124 to 148); the last of a ring carries EOR.\<close>

definition rtl8101_fresh :: "u32 \<Rightarrow> nat \<Rightarrow> u32 list \<Rightarrow> rtl8101_head list" where
  "rtl8101_fresh own n ps = map (\<lambda>i. \<lparr>d1 = own OR (if i = n - 1 then 0x40000000 else 0) OR 1600, d2 = 0,
     d_addr = ucast (ps ! i)\<rparr>) [0..<n]"

definition rtl8101_setup_rings :: "'a rtl8101_scheme \<Rightarrow> 'a rtl8101_scheme" where
  "rtl8101_setup_rings m =
    (let n = unat (rtl8101_ring_size m);
         m = m\<lparr>rtl8101_rx := replicate n rtl8101_head_zero, rtl8101_tx := replicate n rtl8101_head_zero,
               rtl8101_rx_packets := replicate n 0, rtl8101_tx_packets := replicate n 0\<rparr>;
         m = align_alloc 32 m;
         (bs, m) = alloc_run (replicate n 1600) m;
         m = m\<lparr>rtl8101_rx_packets := map fst bs\<rparr>;
         (bs, m) = alloc_run (replicate n 1600) m;
         m = m\<lparr>rtl8101_tx_packets := map fst bs\<rparr>;
         m = m\<lparr>rtl8101_rx := rtl8101_fresh 0x80000000 n (rtl8101_rx_packets m)\<rparr>
     in m\<lparr>rtl8101_tx := rtl8101_fresh 0 n (rtl8101_tx_packets m)\<rparr>)"

text \<open>Telling the card where the rings are and starting it (lines 155 to 165).\<close>

definition rtl8101_start :: "'a rtl8101_scheme \<Rightarrow> 'a rtl8101_scheme" where
  "rtl8101_start m =
    (let b = rtl8101_iobase m;
         m = io_outl (b + 0xE8) 0 m;
         m = io_outl (b + 0xE4) (rtl8101_rx_ptr m) m;
         m = io_outl (b + 0x20) (rtl8101_tx_ptr m) m;
         m = io_outl (b + 0x24) 0 m;
         m = io_outl (b + 0x28) 0 m;
         m = io_outl (b + 0x2C) 0 m;
         m = io_outl (b + 0xEC) ((1600 + 127) div 128) m
     in io_outb (b + 0x37) 0x0C m)"

definition rtl8101_init :: "'h hw_scheme \<Rightarrow> nat option \<Rightarrow> 'a rtl8101_scheme \<Rightarrow> bool \<times> 'a rtl8101_scheme" where
  "rtl8101_init h pdev m =
    (case pci_dev_at m pdev of None \<Rightarrow> (False, m) | Some d \<Rightarrow>
     if \<not> rtl8101_known_pci_id (Some d) then (False, m)
     else case find_io_bar 0xFF (BAR d) of
       None \<Rightarrow> (False, vga_write (''Cannot locate I/O resource'' @ crlf) m)
     | Some b \<Rightarrow>
       let m = pci_config_write_imm (bus_no d) (device_no d) (function_no d) 4 0x29F m;
           m = m\<lparr>rtl8101_iobase := ucast (bar_start b)\<rparr>;
           m = io_outw (rtl8101_iobase m + 0x3C) 0x0000 m;
           m = io_outb (rtl8101_iobase m + 0x37) 0x10 m;
           (done, m) = rtl8101_reset_wait h 200 m
       in if \<not> done then (False, m)
          else
            let m = rtl8101_configure h m;
                m = rtl8101_alloc_rings m;
                m = rtl8101_setup_rings m;
                m = m\<lparr>rtl8101_rx_offset := 0, rtl8101_tx_offset := 0, my_eth_mac := rtl8101_mac_address m\<rparr>
            in (True, rtl8101_start m))"

definition rtl8101_uninit :: "nat option \<Rightarrow> 'a rtl8101_scheme \<Rightarrow> bool \<times> 'a rtl8101_scheme" where
  "rtl8101_uninit pdev m = (True, m)"

subsection \<open>Volatile reads\<close>

definition rtl8101_sync :: "'h rtl8101_hw_scheme \<Rightarrow> 'a rtl8101_scheme \<Rightarrow> 'a rtl8101_scheme" where
  "rtl8101_sync h m =
    (let s = (rtl8101_rx m, rtl8101_tx m, mem m)
     in m\<lparr>rtl8101_rx := map (rtl8101_dma_rx h (hist m) s) [0..<length (rtl8101_rx m)],
          rtl8101_tx := map (rtl8101_dma_tx h (hist m) s) [0..<length (rtl8101_tx m)],
          mem := rtl8101_dma_mem h (hist m) s\<rparr>)"

definition rtl8101_rx_read :: "'h rtl8101_hw_scheme \<Rightarrow> nat \<Rightarrow> 'a rtl8101_scheme \<Rightarrow> u32 \<times> 'a rtl8101_scheme" where
  "rtl8101_rx_read h i m =
    (let m = rtl8101_sync h m
     in (d1 (rtl8101_rx m ! i), m\<lparr>hist := VolatileRead (rtl8101_rx_ptr m + 16 * of_nat i) # hist m\<rparr>))"

definition rtl8101_tx_read :: "'h rtl8101_hw_scheme \<Rightarrow> 'a rtl8101_scheme \<Rightarrow> u32 \<times> 'a rtl8101_scheme" where
  "rtl8101_tx_read h m =
    (let m = rtl8101_sync h m; i = unat (rtl8101_tx_offset m)
     in (d1 (rtl8101_tx m ! i), m\<lparr>hist := VolatileRead (rtl8101_tx_ptr m + 16 * of_nat i) # hist m\<rparr>))"

definition rtl8101_rx_write :: "nat \<Rightarrow> (rtl8101_head \<Rightarrow> rtl8101_head) \<Rightarrow> 'a rtl8101_scheme \<Rightarrow> 'a rtl8101_scheme" where
  "rtl8101_rx_write i f m = m\<lparr>rtl8101_rx := (rtl8101_rx m)[i := f (rtl8101_rx m ! i)]\<rparr>"

subsection \<open>Packets\<close>

definition rtl8101_rx_reinit :: "'h rtl8101_hw_scheme \<Rightarrow> nat \<Rightarrow> 'a rtl8101_scheme \<Rightarrow> 'a rtl8101_scheme" where
  "rtl8101_rx_reinit h entry m =
    (let m = rtl8101_rx_write entry (\<lambda>d. d\<lparr>d2 := 0\<rparr>) m;
         (x, m) = rtl8101_rx_read h entry m;
         m = rtl8101_rx_write entry (\<lambda>d. d\<lparr>d1 := x AND 0x3FFFC000\<rparr>) m;
         m = rtl8101_rx_write entry (\<lambda>d. d\<lparr>d_addr := ucast (rtl8101_rx_packets m ! entry)\<rparr>) m;
         m = (if of_nat entry = rtl8101_ring_size m - 1
              then (let (x, m) = rtl8101_rx_read h entry m
                    in rtl8101_rx_write entry (\<lambda>d. d\<lparr>d1 := x OR 0x40000000\<rparr>) m)
              else m);
         (x, m) = rtl8101_rx_read h entry m
     in rtl8101_rx_write entry (\<lambda>d. d\<lparr>d1 := x OR (0x80000000 OR 1600)\<rparr>) m)"

definition rtl8101_adv_packet :: "'a rtl8101_scheme \<Rightarrow> 'a rtl8101_scheme" where
  "rtl8101_adv_packet m =
    (let m = m\<lparr>rtl8101_rx_offset := rtl8101_rx_offset m + 1\<rparr>
     in if rtl8101_rx_offset m \<ge> rtl8101_ring_size m then m\<lparr>rtl8101_rx_offset := 0\<rparr> else m)"

text \<open>The two bounded waits for the card to release the transmit descriptor.\<close>

fun rtl8101_tx_wait :: "'h rtl8101_hw_scheme \<Rightarrow> string \<Rightarrow> nat \<Rightarrow> 'a rtl8101_scheme \<Rightarrow> 'a rtl8101_scheme" where
  "rtl8101_tx_wait h msg 0 m = m"
| "rtl8101_tx_wait h msg (Suc patience) m =
    (let (x, m) = rtl8101_tx_read h m
     in if x AND 0x80000000 = 0 then m
        else if patience = 0 then vga_write msg m
        else rtl8101_tx_wait h msg patience m)"

definition rtl8101_prepare_send_packet ::
  "'h rtl8101_hw_scheme \<Rightarrow> int \<Rightarrow> ethernet_frame_header \<Rightarrow> 'a rtl8101_scheme \<Rightarrow> u32 option \<times> 'a rtl8101_scheme" where
  "rtl8101_prepare_send_packet h sz hdr m =
    (if sz > 1600 - 14 then (None, m)
     else
       let m = m\<lparr>rtl8101_send_sz := of_int sz\<rparr>;
           m = rtl8101_tx_wait h (''Timeout waiting for transmit ring to free up fragment'' @ crlf) 3000000 m;
           p = rtl8101_tx_packets m ! unat (rtl8101_tx_offset m)
       in (Some (p + 14), m\<lparr>mem := eth_store (mem m) p hdr\<rparr>))"

definition rtl8101_send_packet :: "'h rtl8101_hw_scheme \<Rightarrow> 'a rtl8101_scheme \<Rightarrow> 'a rtl8101_scheme" where
  "rtl8101_send_packet h m =
    (let i = unat (rtl8101_tx_offset m);
         x = 0x30000000 OR 0x80000000 OR (rtl8101_send_sz m + 14);
         x = (if rtl8101_tx_offset m = rtl8101_ring_size m - 1 \<or> True then x OR 0x40000000 else x);
         m = m\<lparr>rtl8101_tx := (rtl8101_tx m)[i := \<lparr>d1 = x, d2 = 0, d_addr = ucast (rtl8101_tx_packets m ! i)\<rparr>]\<rparr>;
         m = io_outb (rtl8101_iobase m + 0x38) 0x40 m;
         m = rtl8101_tx_wait h (''Timeout waiting for transmit ring to actually send packet'' @ crlf) 300000000 m;
         m = m\<lparr>rtl8101_tx_offset := rtl8101_tx_offset m + 1\<rparr>
     in if rtl8101_tx_offset m \<ge> rtl8101_ring_size m \<or> True then m\<lparr>rtl8101_tx_offset := 0\<rparr> else m)"

definition rtl8101_discard :: "'h rtl8101_hw_scheme \<Rightarrow> 'a rtl8101_scheme \<Rightarrow> 'a rtl8101_scheme" where
  "rtl8101_discard h m = rtl8101_adv_packet (rtl8101_rx_reinit h (unat (rtl8101_rx_offset m)) m)"

definition rtl8101_get_packet ::
  "'h rtl8101_hw_scheme \<Rightarrow> 'a rtl8101_scheme \<Rightarrow> (int \<times> ethernet_frame_header \<times> u32) option \<times> 'a rtl8101_scheme" where
  "rtl8101_get_packet h m =
    (let i = unat (rtl8101_rx_offset m);
         (x, m) = rtl8101_rx_read h i m
     in if x AND 0x80000000 \<noteq> 0 then (None, m)
        else let (x, m) = rtl8101_rx_read h i m
        in if x AND push_bit 21 1 \<noteq> 0 then (None, rtl8101_discard h m)
        else let (x, m) = rtl8101_rx_read h i m;
                 (both, m) = (if x AND push_bit 29 1 = 0 then (False, m)
                              else (let (x, m) = rtl8101_rx_read h i m in (x AND push_bit 28 1 \<noteq> 0, m)))
        in if both then
             (let (x, m) = rtl8101_rx_read h i m; frame_length = x AND 0x3FFF
              in if frame_length \<ge> 14
                 then (let p = rtl8101_rx_packets m ! i
                       in (Some (sint (frame_length - 14), eth_load (mem m) p, p + 14), m))
                 else (None, m))
        else let (x, m) = rtl8101_rx_read h i m
        in if x AND push_bit 29 1 = 0 then (None, rtl8101_discard h m)
        else (None, rtl8101_discard h m))"

definition rtl8101_put_packet :: "'h rtl8101_hw_scheme \<Rightarrow> u32 \<Rightarrow> 'a rtl8101_scheme \<Rightarrow> 'a rtl8101_scheme" where
  "rtl8101_put_packet h p m = rtl8101_discard h m"

section \<open>The disabled RealTek 8139 driver\<close>

definition rtl8139_known_pci_id :: "pci_device option \<Rightarrow> bool" where
  "rtl8139_known_pci_id p = False"

definition rtl8139_probe :: "nat option \<Rightarrow> 'a net_scheme \<Rightarrow> bool" where
  "rtl8139_probe pdev m = rtl8139_known_pci_id (pci_dev_at m pdev)"

definition rtl8139_init :: "nat option \<Rightarrow> 'a net_scheme \<Rightarrow> bool \<times> 'a net_scheme" where
  "rtl8139_init pdev m = (False, m)"

definition rtl8139_uninit :: "nat option \<Rightarrow> 'a net_scheme \<Rightarrow> bool \<times> 'a net_scheme" where
  "rtl8139_uninit pdev m = (False, m)"

definition rtl8139_prepare_send_packet ::
  "int \<Rightarrow> ethernet_frame_header \<Rightarrow> 'a net_scheme \<Rightarrow> u32 option \<times> 'a net_scheme" where
  "rtl8139_prepare_send_packet sz hdr m = (None, m)"

definition rtl8139_send_packet :: "'a net_scheme \<Rightarrow> 'a net_scheme" where
  "rtl8139_send_packet m = m"

definition rtl8139_get_packet ::
  "'a net_scheme \<Rightarrow> (int \<times> ethernet_frame_header \<times> u32) option \<times> 'a net_scheme" where
  "rtl8139_get_packet m = (None, m)"

definition rtl8139_put_packet :: "u32 \<Rightarrow> 'a net_scheme \<Rightarrow> 'a net_scheme" where
  "rtl8139_put_packet p m = m"

interpretation rtl8139_driver: net_driver "\<lambda>sz hdr m. Some (rtl8139_prepare_send_packet sz hdr m)"
  "\<lambda>m. Some (rtl8139_send_packet m)" "\<lambda>m. Some (rtl8139_get_packet m)" rtl8139_put_packet
  "\<lambda>_. True" mem "-1"
  by unfold_locales (auto simp: rtl8139_prepare_send_packet_def rtl8139_get_packet_def)

section \<open>Invariant and interface\<close>

declare rtl8101_reset_wait.simps [simp del]

definition rtl8101_ok :: "'a rtl8101_scheme \<Rightarrow> bool" where
  "rtl8101_ok m \<longleftrightarrow> length (rtl8101_rx m) = 4 \<and> length (rtl8101_tx m) = 4 \<and>
    length (rtl8101_rx_packets m) = 4 \<and> length (rtl8101_tx_packets m) = 4 \<and>
    rtl8101_ring_size m = 4 \<and> unat (rtl8101_rx_offset m) < 4 \<and> rtl8101_tx_offset m = 0"

lemma rtl8101_sync_ok [simp]: "rtl8101_ok (rtl8101_sync h m) = rtl8101_ok m"
  by (simp add: rtl8101_sync_def rtl8101_ok_def Let_def)

lemma rtl8101_read_ok [simp]:
  "rtl8101_ok (snd (rtl8101_rx_read h i m)) = rtl8101_ok m"
  "rtl8101_ok (snd (rtl8101_tx_read h m)) = rtl8101_ok m"
  using rtl8101_sync_ok [of h m]
  by (simp_all add: rtl8101_rx_read_def rtl8101_tx_read_def Let_def rtl8101_ok_def)

lemma rtl8101_write_ok [simp]: "rtl8101_ok (rtl8101_rx_write i f m) = rtl8101_ok m"
  by (simp add: rtl8101_rx_write_def rtl8101_ok_def)

lemma rtl8101_reinit_ok [simp]: "rtl8101_ok (rtl8101_rx_reinit h i m) = rtl8101_ok m"
  by (simp add: rtl8101_rx_reinit_def Let_def split_beta)

lemma rtl8101_offset_frame [simp]:
  "rtl8101_rx_offset (snd (rtl8101_rx_read h i m)) = rtl8101_rx_offset m"
  "rtl8101_rx_offset (rtl8101_rx_write i f m) = rtl8101_rx_offset m"
  "rtl8101_rx_offset (rtl8101_rx_reinit h i m) = rtl8101_rx_offset m"
  by (simp_all add: rtl8101_rx_read_def rtl8101_rx_write_def rtl8101_rx_reinit_def rtl8101_sync_def Let_def split_beta)

lemma rtl8101_discard_ok:
  assumes "rtl8101_ok m"
  shows "rtl8101_ok (rtl8101_discard h m)"
    and "unat (rtl8101_rx_offset (rtl8101_discard h m)) = Suc (unat (rtl8101_rx_offset m)) mod 4"
    and "rtl8101_rx (rtl8101_discard h m) = rtl8101_rx (rtl8101_rx_reinit h (unat (rtl8101_rx_offset m)) m)"
proof -
  define r where "r = rtl8101_rx_reinit h (unat (rtl8101_rx_offset m)) m"
  have r: "rtl8101_ok r" "rtl8101_rx_offset r = rtl8101_rx_offset m" using assms by (simp_all add: r_def)
  have "unat (rtl8101_rx_offset (rtl8101_adv_packet r)) = Suc (unat (rtl8101_rx_offset r)) mod 4"
    using ring_step [of "rtl8101_rx_offset r" "rtl8101_ring_size r"] r(1)
    by (auto simp: rtl8101_adv_packet_def rtl8101_ok_def Let_def split: if_splits)
  moreover have "rtl8101_adv_packet r = r\<lparr>rtl8101_rx_offset := rtl8101_rx_offset (rtl8101_adv_packet r)\<rparr>"
    by (simp add: rtl8101_adv_packet_def Let_def)
  moreover have "rtl8101_discard h m = rtl8101_adv_packet r" by (simp add: rtl8101_discard_def r_def)
  ultimately obtain off where "rtl8101_discard h m = r\<lparr>rtl8101_rx_offset := off\<rparr>"
    "unat off = Suc (unat (rtl8101_rx_offset m)) mod 4" using r(2) by metis
  then show "rtl8101_ok (rtl8101_discard h m)"
    "unat (rtl8101_rx_offset (rtl8101_discard h m)) = Suc (unat (rtl8101_rx_offset m)) mod 4"
    "rtl8101_rx (rtl8101_discard h m) = rtl8101_rx r"
    using r(1) by (simp_all add: rtl8101_ok_def)
qed

lemma console_rtl8101_ok: "console_step m m' \<Longrightarrow> rtl8101_ok m' = rtl8101_ok m"
  by (erule console_stepE) (simp add: rtl8101_ok_def)

lemma rtl8101_tx_wait_ok: "rtl8101_ok (rtl8101_tx_wait h msg n m) = rtl8101_ok m"
proof (induction n arbitrary: m)
  case (Suc n)
  obtain x m1 where r: "rtl8101_tx_read h m = (x, m1)" by fastforce
  then have "rtl8101_ok m1 = rtl8101_ok m" using rtl8101_read_ok(2) [of h m] by simp
  then show ?case using Suc r console_rtl8101_ok [OF vga_write_step, of msg m1] by simp
qed simp

lemma rtl8101_prepare_ok:
  "rtl8101_ok m \<Longrightarrow> rtl8101_ok (snd (rtl8101_prepare_send_packet h sz hdr m))"
proof -
  assume "rtl8101_ok m"
  then have "rtl8101_ok (m\<lparr>rtl8101_send_sz := of_int sz\<rparr>)" by (simp add: rtl8101_ok_def)
  then have "rtl8101_ok (rtl8101_tx_wait h msg n (m\<lparr>rtl8101_send_sz := of_int sz\<rparr>))" for msg n
    by (simp add: rtl8101_tx_wait_ok)
  then have "rtl8101_ok ((rtl8101_tx_wait h msg n (m\<lparr>rtl8101_send_sz := of_int sz\<rparr>))\<lparr>mem := mm\<rparr>)" for msg n mm
    by (simp add: rtl8101_ok_def)
  then show ?thesis using \<open>rtl8101_ok m\<close> by (simp add: rtl8101_prepare_send_packet_def Let_def)
qed

lemma rtl8101_send_ok:
  assumes "rtl8101_ok m"
  shows "rtl8101_ok (rtl8101_send_packet h m)"
proof -
  have "rtl8101_ok (io_outb b v (m\<lparr>rtl8101_tx := (rtl8101_tx m)[i := d]\<rparr>))" for b v i d
    using assms by (simp add: rtl8101_ok_def io_outb_def)
  then have "rtl8101_ok (rtl8101_tx_wait h msg n (io_outb b v (m\<lparr>rtl8101_tx := (rtl8101_tx m)[i := d]\<rparr>)))" for msg n b v i d
    by (simp add: rtl8101_tx_wait_ok)
  then have "rtl8101_ok ((rtl8101_tx_wait h msg n (io_outb b v (m\<lparr>rtl8101_tx := (rtl8101_tx m)[i := d]\<rparr>)))
    \<lparr>rtl8101_tx_offset := 0\<rparr>)" for msg n b v i d by (simp add: rtl8101_ok_def)
  then show ?thesis by (simp add: rtl8101_send_packet_def Let_def)
qed

lemma rtl8101_get_ok:
  assumes "rtl8101_ok m"
  shows "rtl8101_ok (snd (rtl8101_get_packet h m))"
proof -
  have "rtl8101_ok m1" if "rtl8101_rx_read h i m = (s, m1)" "rtl8101_ok m" for i s m m1
    using rtl8101_read_ok(1) [of h i m] that by simp
  then show ?thesis
    using assms by (auto simp: rtl8101_get_packet_def Let_def split: prod.splits if_splits
        intro!: rtl8101_discard_ok(1))
qed

lemma rtl8101_get_header:
  "rtl8101_get_packet h m = (Some (sz, hdr, p), m') \<Longrightarrow> hdr = eth_load (mem m') (p - 14)"
  by (auto simp: rtl8101_get_packet_def Let_def split: prod.splits if_splits)

interpretation rtl8101_driver: net_driver "\<lambda>sz hdr m. Some (rtl8101_prepare_send_packet h sz hdr m)"
  "\<lambda>m. Some (rtl8101_send_packet h m)" "\<lambda>m. Some (rtl8101_get_packet h m)" "rtl8101_put_packet h"
  rtl8101_ok mem 1586 for h
proof (unfold_locales, goal_cases)
  case (1 s sz hdr r s')
  then show ?case using rtl8101_prepare_ok [of s h sz hdr] by auto
next
  case (3 s pkt s')
  then show ?case using rtl8101_get_ok [of s h] by auto
next
  case (6 hdr sz s p s')
  then show ?case
    by (auto simp: rtl8101_prepare_send_packet_def Let_def eth_store_header split: if_splits)
qed (auto simp: rtl8101_send_ok rtl8101_put_packet_def rtl8101_discard_ok(1) rtl8101_get_header
    rtl8101_prepare_send_packet_def Let_def split: if_splits)

section \<open>Properties\<close>

text \<open>
  The reset has no patience at all: whatever the counter (other than one) says, if the card
  still reports the reset at the first look, the wait gives up at once, after a single port read,
  and \<^verbatim>\<open>rtl8101_init\<close> fails; it succeeds only if the first look finds the reset done.
\<close>

theorem rtl8101_reset_impatient:
  assumes "patience \<noteq> 1"
  shows "rtl8101_reset_wait h patience m =
    (fst (io_inb h (rtl8101_iobase m + 0x37) m) AND 0x10 = 0, snd (io_inb h (rtl8101_iobase m + 0x37) m))"
proof -
  have "patience - 1 \<noteq> 0" using assms by simp
  then show ?thesis by (subst rtl8101_reset_wait.simps) (simp add: split_beta)
qed

definition rtl8101_example :: rtl8101 where
  "rtl8101_example = pcnet32.extend (pcnet32_example 0) (rtl8101.fields 0xD000 [0, 1, 2, 3, 4, 5]
     0x140000 0x140100 0x140200 0x140210
     (replicate 4 rtl8101_head_zero) (replicate 4 rtl8101_head_zero)
     (map (\<lambda>i. 0x150000 + 0x640 * of_nat i) [0..<4]) (map (\<lambda>i. 0x160000 + 0x640 * of_nat i) [0..<4])
     4 3 0 0)"

theorem rtl8101_reset_impatient_witness:
  "fst (rtl8101_reset_wait (quiet_hw\<lparr>hw_in := \<lambda>_ _ _. 0x10\<rparr>) 200 rtl8101_example) = False"
  using rtl8101_reset_impatient [where patience = 200 and h = "quiet_hw\<lparr>hw_in := \<lambda>_ _ _. 0x10\<rparr>" and m = rtl8101_example]
  by (simp add: io_inb_def quiet_hw_def)

text \<open>
  The ownership rule of the card, as for the PCnet.
\<close>

definition rtl8101_respects_own :: "'h rtl8101_hw_scheme \<Rightarrow> bool" where
  "rtl8101_respects_own h \<longleftrightarrow> (\<forall>hs rx tx mm i. i < length rx \<longrightarrow> d1 (rx ! i) AND 0x80000000 = 0 \<longrightarrow>
     rtl8101_dma_rx h hs (rx, tx, mm) i = rx ! i)"

lemma rtl8101_rx_read_owned:
  assumes "rtl8101_respects_own h" and "i < length (rtl8101_rx m)" and "d1 (rtl8101_rx m ! i) AND 0x80000000 = 0"
  shows "fst (rtl8101_rx_read h i m) = d1 (rtl8101_rx m ! i)"
    and "rtl8101_rx (snd (rtl8101_rx_read h i m)) ! i = rtl8101_rx m ! i"
    and "length (rtl8101_rx (snd (rtl8101_rx_read h i m))) = length (rtl8101_rx m)"
  using assms by (simp_all add: rtl8101_rx_read_def rtl8101_sync_def Let_def rtl8101_respects_own_def)

lemma rtl8101_rx_write_at:
  "i < length (rtl8101_rx m) \<Longrightarrow> rtl8101_rx (rtl8101_rx_write i f m) ! i = f (rtl8101_rx m ! i)"
  "length (rtl8101_rx (rtl8101_rx_write i f m)) = length (rtl8101_rx m)"
  by (simp_all add: rtl8101_rx_write_def)

lemma rtl8101_reinit_d1:
  assumes own: "rtl8101_respects_own h" and ok: "rtl8101_ok m" and i: "i < 4"
    and free: "d1 (rtl8101_rx m ! i) AND 0x80000000 = 0"
  shows "d1 (rtl8101_rx (rtl8101_rx_reinit h i m) ! i) =
    ((d1 (rtl8101_rx m ! i) AND 0x3FFFC000) OR (if i = 3 then 0x40000000 else 0)) OR 0x80000640"
proof -
  let ?x = "d1 (rtl8101_rx m ! i)"
  define m1 where "m1 = rtl8101_rx_write i (\<lambda>d. d\<lparr>d2 := 0\<rparr>) m"
  define m2 where "m2 = snd (rtl8101_rx_read h i m1)"
  define m3 where "m3 = rtl8101_rx_write i (\<lambda>d. d\<lparr>d1 := ?x AND 0x3FFFC000\<rparr>) m2"
  define m4 where "m4 = rtl8101_rx_write i (\<lambda>d. d\<lparr>d_addr := ucast (rtl8101_rx_packets m3 ! i)\<rparr>) m3"
  have len: "length (rtl8101_rx m) = 4" using ok by (simp add: rtl8101_ok_def)
  have 1: "d1 (rtl8101_rx m1 ! i) = ?x" "length (rtl8101_rx m1) = 4"
    using i len by (simp_all add: m1_def rtl8101_rx_write_at)
  have r1: "fst (rtl8101_rx_read h i m1) = ?x" and "length (rtl8101_rx m2) = 4"
    using rtl8101_rx_read_owned [OF own, of i m1] 1 i free by (simp_all add: m2_def)
  then have 4: "d1 (rtl8101_rx m4 ! i) = ?x AND 0x3FFFC000" "length (rtl8101_rx m4) = 4"
    using i by (simp_all add: m3_def m4_def rtl8101_rx_write_at)
  then have free4: "d1 (rtl8101_rx m4 ! i) AND 0x80000000 = 0" by (simp add: and.assoc)
  have "rtl8101_ok m4" using ok by (simp add: m4_def m3_def m2_def m1_def)
  then have size: "rtl8101_ring_size m4 = 4" by (simp add: rtl8101_ok_def)
  define m5 where "m5 = (if of_nat i = rtl8101_ring_size m4 - 1
    then (let (x, m) = rtl8101_rx_read h i m4 in rtl8101_rx_write i (\<lambda>d. d\<lparr>d1 := x OR 0x40000000\<rparr>) m) else m4)"
  have last: "(of_nat i = (3 :: u32)) = (i = 3)"
    using i by (auto simp: word_unat_eq_iff)
  have 5: "d1 (rtl8101_rx m5 ! i) = (?x AND 0x3FFFC000) OR (if i = 3 then 0x40000000 else 0)" "length (rtl8101_rx m5) = 4"
    using rtl8101_rx_read_owned [OF own, of i m4] 4 free4 i
    by (auto simp: m5_def size last split_beta rtl8101_rx_write_at)
  then have free5: "d1 (rtl8101_rx m5 ! i) AND 0x80000000 = 0"
    by (auto simp: and.assoc word_ao_dist)
  have "rtl8101_rx_reinit h i m = (let (x, m) = rtl8101_rx_read h i m5
     in rtl8101_rx_write i (\<lambda>d. d\<lparr>d1 := x OR (0x80000000 OR 1600)\<rparr>) m)"
    using r1 by (simp add: rtl8101_rx_reinit_def Let_def split_beta m1_def [symmetric] m2_def [symmetric]
        m3_def [symmetric] m4_def [symmetric]) (simp add: m5_def split_beta)
  then show ?thesis
    using rtl8101_rx_read_owned [OF own, of i m5] 5 free5 i by (simp add: split_beta rtl8101_rx_write_at)
qed

lemma rx_d1_bits:
  fixes x :: u32 and last :: bool
  defines "d \<equiv> ((x AND 0x3FFFC000) OR (if last then 0x40000000 else 0)) OR 0x80000640"
  shows "bit d 31" and "bit d 30 = last" and "d AND 0x3FFF = 1600"
proof -
  show "bit d 31" "bit d 30 = last"
    by (simp_all add: d_def bit_or_iff bit_and_iff bit_numeral_rec)
  have "(x AND 0x3FFFC000) AND 0x3FFF = 0" by (simp add: and.assoc)
  then show "d AND 0x3FFF = 1600" by (simp add: d_def word_ao_dist)
qed

text \<open>
  C31. Returning a packet hands its descriptor back to the card complete: the OWN bit is set, the
  buffer length is 1600 again, the end-of-ring mark is on the last descriptor of the ring and on
  no other whatever the card left in the word, and the driver moves to the next descriptor modulo
  four. The hypothesis is the ownership rule of the card.
\<close>

theorem rtl8101_put_packet_returns:
  fixes p :: u32
  assumes "rtl8101_respects_own h" and "rtl8101_ok m"
    and "d1 (rtl8101_rx m ! unat (rtl8101_rx_offset m)) AND 0x80000000 = 0"
  defines "d \<equiv> d1 (rtl8101_rx (rtl8101_put_packet h p m) ! unat (rtl8101_rx_offset m))"
  shows "bit d 31 \<and> (bit d 30 \<longleftrightarrow> unat (rtl8101_rx_offset m) = 3) \<and> d AND 0x3FFF = 1600 \<and>
    unat (rtl8101_rx_offset (rtl8101_put_packet h p m)) = Suc (unat (rtl8101_rx_offset m)) mod 4 \<and>
    rtl8101_ok (rtl8101_put_packet h p m)"
proof -
  have i: "unat (rtl8101_rx_offset m) < 4" using assms(2) by (simp add: rtl8101_ok_def)
  have "d = ((d1 (rtl8101_rx m ! unat (rtl8101_rx_offset m)) AND 0x3FFFC000) OR
      (if unat (rtl8101_rx_offset m) = 3 then 0x40000000 else 0)) OR 0x80000640"
    using rtl8101_reinit_d1 [OF assms(1,2) i assms(3)] rtl8101_discard_ok(3) [OF assms(2), of h]
    by (simp only: d_def rtl8101_put_packet_def)
  then show ?thesis
    using rx_d1_bits rtl8101_discard_ok(1,2) [OF assms(2)] by (simp only: rtl8101_put_packet_def) blast
qed

definition rtl8101_idle_hw :: rtl8101_hw where
  "rtl8101_idle_hw = pcnet32_hw.extend pcnet32_idle_hw (rtl8101_hw.fields (\<lambda>hs (rx, tx, mm) i. rx ! i)
     (\<lambda>hs (rx, tx, mm) i. tx ! i) (\<lambda>hs (rx, tx, mm). mm))"

lemma rtl8101_idle_own: "rtl8101_respects_own rtl8101_idle_hw"
  by (simp add: rtl8101_respects_own_def rtl8101_idle_hw_def rtl8101_hw.defs pcnet32_hw.defs)

lemma rtl8101_example_ok: "rtl8101_ok rtl8101_example"
  by (simp add: rtl8101_ok_def rtl8101_example_def rtl8101.defs pcnet32.defs)

theorem rtl8101_put_packet_returns_witness:
  "bit (d1 (rtl8101_rx (rtl8101_put_packet rtl8101_idle_hw 0 rtl8101_example) ! 3)) 30 \<and>
   unat (rtl8101_rx_offset (rtl8101_put_packet rtl8101_idle_hw 0 rtl8101_example)) = 0"
proof -
  have "unat (rtl8101_rx_offset rtl8101_example) = 3" "d1 (rtl8101_rx rtl8101_example ! 3) = 0"
    by (simp_all add: rtl8101_example_def rtl8101.defs pcnet32.defs rtl8101_head_zero_def)
  then show ?thesis
    using rtl8101_put_packet_returns [OF rtl8101_idle_own rtl8101_example_ok, of 0] by simp
qed

end
