(* ===== verification/Ne2000.thy ===== *)
theory Ne2000
  imports Rtl8101
begin

text \<open>
  The NE-2000 driver, \<^verbatim>\<open>src/eth/net-ne2000.c\<close>: a card with its own packet memory behind a data
  port. Packets are copied through that port by the processor, so the card never touches main
  memory and the port history is all it sees.
\<close>

section \<open>State\<close>

record ne2000 = rtl8101 +
  ne2000_mac_address :: "u8 list"
  ne2000_probe_base :: u32
  ne2000_last_packet :: u32
  ne2000_xmit_packet :: u32
  ne2000_last_packet_size :: u32
  ne2000_xmit_packet_size :: u32

abbreviation (input) TX_PAGE :: u8 where "TX_PAGE \<equiv> 0x40"
abbreviation (input) RX_PAGE_START :: u8 where "RX_PAGE_START \<equiv> 0x46"
abbreviation (input) RX_PAGE_END :: u8 where "RX_PAGE_END \<equiv> 0x70"

section \<open>Operations\<close>

subsection \<open>Probing\<close>

text \<open>\<^verbatim>\<open>while (patience-- != 0 && (io_inb(base+7)&0x80) == v);\<close>\<close>

fun ne2000_isr_wait :: "'h hw_scheme \<Rightarrow> u32 \<Rightarrow> u8 \<Rightarrow> nat \<Rightarrow> 'a ne2000_scheme \<Rightarrow> 'a ne2000_scheme" where
  "ne2000_isr_wait h base v 0 m = m"
| "ne2000_isr_wait h base v (Suc patience) m =
    (let (c, m) = io_inb h (base + 7) m
     in if c AND 0x80 = v then ne2000_isr_wait h base v patience m else m)"

definition ne2000_isa_probe :: "'h hw_scheme \<Rightarrow> u32 \<Rightarrow> 'a ne2000_scheme \<Rightarrow> bool \<times> 'a ne2000_scheme" where
  "ne2000_isa_probe h base m =
    (let (x, m) = io_inb h base m
     in if x = 0xFF then (False, m)
     else let m = io_outb base 0x21 m; (x, m) = io_inb h base m
     in if x AND 3 \<noteq> 1 then (False, m)
     else if x AND 0xC0 \<noteq> 0 then (False, m)
     else let m = ne2000_isr_wait h base 0 0xC00 m; (x, m) = io_inb h (base + 7) m
     in if x AND 0x80 = 0 then (False, m)
     else let m = io_outb base 0x02 m; (x, m) = io_inb h base m
     in if x AND 3 \<noteq> 2 then (False, m)
     else if x AND 0xC0 \<noteq> 0 then (False, m)
     else let m = ne2000_isr_wait h base 0x80 0xC00 m; (x, m) = io_inb h (base + 7) m
     in if x AND 0x80 = 0x80 then (False, m)
     else let m = io_outb base 0x21 m;
              m = vga_write ''NE-2000 compatible at '' m;
              m = vga_writehex (ucast (ucast base :: u16)) 4 m;
              m = vga_write crlf m
     in (True, m\<lparr>ne2000_probe_base := base\<rparr>))"

definition ne2000_probe :: "'h hw_scheme \<Rightarrow> nat option \<Rightarrow> 'a ne2000_scheme \<Rightarrow> bool \<times> 'a ne2000_scheme" where
  "ne2000_probe h pdev m =
    (if pdev \<noteq> None then (False, m)
     else let (r, m) = ne2000_isa_probe h 0x240 m
     in if r then (True, m)
     else let (r, m) = ne2000_isa_probe h 0x260 m
     in if r then (True, m)
     else let (r, m) = ne2000_isa_probe h 0x300 m
     in if r then (True, m) else (False, m))"

subsection \<open>Initialisation\<close>

text \<open>The sequences of register writes, as offsets and values.\<close>

definition ne2000_regs :: "(u32 \<times> u8) list \<Rightarrow> 'a ne2000_scheme \<Rightarrow> 'a ne2000_scheme" where
  "ne2000_regs ws m = fold (\<lambda>(r, v) m. io_outb (ne2000_probe_base m + r) v m) ws m"

definition ne2000_init :: "'h hw_scheme \<Rightarrow> nat option \<Rightarrow> 'a ne2000_scheme \<Rightarrow> bool \<times> 'a ne2000_scheme" where
  "ne2000_init h pdev m =
    (if ne2000_probe_base m = 0 \<or> pdev \<noteq> None then (False, m)
     else
       let (p, m) = do_alloc 2048 m; m = m\<lparr>ne2000_last_packet := p\<rparr>;
           (p, m) = do_alloc 2049 m; m = m\<lparr>ne2000_xmit_packet := p\<rparr>;
           m = ne2000_regs [(0x0, 0x21), (0xE, 0xC5), (0xA, 0x00), (0xB, 0x00), (0xC, 0x1C), (0xD, 0x02),
             (0x3, RX_PAGE_START), (0x1, RX_PAGE_START), (0x2, RX_PAGE_END), (0x7, 0xFF), (0xF, 0x00),
             (0xA, 32), (0xB, 0), (0x8, 0), (0x9, 0)] m;
           (tmp, m) = io_inb_seq h (replicate 16 (ne2000_probe_base m + 0x10)) m;
           m = m\<lparr>ne2000_mac_address := take 6 tmp, my_eth_mac := take 6 tmp\<rparr>;
           m = ne2000_regs [(0x0, 0x21 OR 0x40)] m;
           m = ne2000_regs (map (\<lambda>i. (0x1 + of_nat i, ne2000_mac_address m ! i)) [0..<6]) m;
           m = ne2000_regs (map (\<lambda>i. (0x8 + of_nat i, 0xFF)) [0..<6]) m;
           m = ne2000_regs [(0x7, RX_PAGE_START), (0x0, 0x22), (0xD, 0x00)] m
       in (True, m))"

definition ne2000_uninit :: "nat option \<Rightarrow> 'a ne2000_scheme \<Rightarrow> bool \<times> 'a ne2000_scheme" where
  "ne2000_uninit pdev m = (True, m)"

definition ne2000_adv_packet :: "'a ne2000_scheme \<Rightarrow> 'a ne2000_scheme" where
  "ne2000_adv_packet m = m"

subsection \<open>Sending\<close>

text \<open>The wait for the transmitter that both halves of a transmission make.\<close>

definition ne2000_tx_wait :: "'h hw_scheme \<Rightarrow> 'a ne2000_scheme \<Rightarrow> 'a ne2000_scheme option" where
  "ne2000_tx_wait h m =
    (let m = io_outb (ne2000_probe_base m + 0) 0x22 m
     in map_option snd (while_option (\<lambda>(c, m). c AND 4 \<noteq> 0) (\<lambda>(c, m). io_inb h (ne2000_probe_base m + 0) m)
          (io_inb h (ne2000_probe_base m + 0) m)))"

definition ne2000_prepare_send_packet ::
  "'h hw_scheme \<Rightarrow> int \<Rightarrow> ethernet_frame_header \<Rightarrow> 'a ne2000_scheme \<Rightarrow> (u32 option \<times> 'a ne2000_scheme) option" where
  "ne2000_prepare_send_packet h sz hdr m = do {
     m \<leftarrow> ne2000_tx_wait h m;
     if sz \<ge> 1520 then Some (None, m)
     else
       let m = m\<lparr>mem := eth_store (mem m) (ne2000_xmit_packet m) hdr\<rparr>;
           m = m\<lparr>ne2000_xmit_packet_size := of_int (sz + 14)\<rparr>
       in Some (Some (ne2000_xmit_packet m + 14), m) }"

definition ne2000_copy_out :: "'a ne2000_scheme \<Rightarrow> 'a ne2000_scheme" where
  "ne2000_copy_out m =
    (let n = unat (ne2000_xmit_packet_size m); p = ne2000_xmit_packet m;
         m = fold (\<lambda>i m. io_outw (ne2000_probe_base m + 0x10) (load16 (mem m) (p + 2 * of_nat i)) m) [0..<n div 2] m
     in if odd n then io_outb (ne2000_probe_base m + 0x10) (mem m (p + of_nat (n - 1))) m else m)"

definition ne2000_send_packet :: "'h hw_scheme \<Rightarrow> 'a ne2000_scheme \<Rightarrow> 'a ne2000_scheme option" where
  "ne2000_send_packet h m =
    (if ne2000_xmit_packet_size m = 0 then Some m
     else do {
       let s = ne2000_xmit_packet_size m;
       let m = ne2000_regs [(0x4, TX_PAGE), (0x5, ucast s), (0x6, ucast (drop_bit 8 s)), (0x8, 0),
         (0x0, 0x02 OR 0x08), (0xA, ucast s), (0xB, ucast (drop_bit 8 s)), (0x8, 0), (0x9, TX_PAGE),
         (0x0, 0x02 OR 0x10)] m;
       let m = ne2000_copy_out m;
       let m = ne2000_regs [(0x0, 0x22 OR 0x04)] m;
       m \<leftarrow> ne2000_tx_wait h m;
       Some (m\<lparr>ne2000_xmit_packet_size := 0\<rparr>) })"

subsection \<open>Receiving\<close>

fun io_inw_seq :: "'h hw_scheme \<Rightarrow> u32 \<Rightarrow> nat \<Rightarrow> 'a bus_scheme \<Rightarrow> u8 list \<times> 'a bus_scheme" where
  "io_inw_seq h p 0 m = ([], m)"
| "io_inw_seq h p (Suc n) m = (let (w, m) = io_inw h p m; (bs, m) = io_inw_seq h p n m in (le16 w @ bs, m))"

text \<open>Copying a frame of \<open>n\<close> bytes out of the card into the buffer (lines 242 to 253).\<close>

definition ne2000_copy_in :: "'h hw_scheme \<Rightarrow> u8 \<Rightarrow> u32 \<Rightarrow> 'a ne2000_scheme \<Rightarrow> 'a ne2000_scheme" where
  "ne2000_copy_in h cur_read n m =
    (let m = ne2000_regs [(0xA, ucast n), (0xB, ucast (drop_bit 8 n)), (0x8, 4), (0x9, cur_read)] m;
         (bs, m) = io_inw_seq h (ne2000_probe_base m + 0x10) (unat n div 2) m;
         m = m\<lparr>mem := mem_write (mem m) (ne2000_last_packet m) bs\<rparr>;
         m = (if n AND 1 \<noteq> 0
              then (let (b, m) = io_inb h (ne2000_probe_base m + 0x10) m
                    in m\<lparr>mem := mem_write (mem m) (ne2000_last_packet m + (n - 1)) [b]\<rparr>)
              else m)
     in m\<lparr>ne2000_last_packet_size := n\<rparr>)"

text \<open>
  The branch of \<^verbatim>\<open>ne2000_get_packet\<close> for a pending packet (lines 213 to 261); \<open>False\<close> is the early
  return when the ring is empty.
\<close>

definition ne2000_receive :: "'h hw_scheme \<Rightarrow> 'a ne2000_scheme \<Rightarrow> bool \<times> 'a ne2000_scheme" where
  "ne2000_receive h m =
    (let m = ne2000_regs [(0, 0x22 OR 0x40)] m;
         (cur_write, m) = io_inb h (ne2000_probe_base m + 7) m;
         m = ne2000_regs [(0, 0x22)] m;
         (bnry, m) = io_inb h (ne2000_probe_base m + 3) m;
         cur_read = bnry + 1;
         cur_read = (if cur_read \<ge> RX_PAGE_END then RX_PAGE_START else cur_read)
     in if cur_read = cur_write then (False, m)
        else
          let m = ne2000_regs [(0xA, 4), (0xB, 0), (0x8, 0), (0x9, cur_read)] m;
              (tmp, m) = io_inw_seq h (ne2000_probe_base m + 0x10) 2 m;
              next = tmp ! 1; rstatus = tmp ! 0;
              byte_count = ucast (tmp ! 2) OR push_bit 8 (ucast (tmp ! 3)) :: u32;
              m = (if rstatus AND 1 \<noteq> 0 \<and> rstatus AND 0x1E = 0 \<and> byte_count \<ge> 14 + 4 \<and> byte_count \<le> 1518 + 4
                   then ne2000_copy_in h cur_read (byte_count - 4) m else m);
              m = ne2000_regs [(3, next - 1), (7, 0x01)] m
          in (True, m))"

definition ne2000_get_packet ::
  "'h hw_scheme \<Rightarrow> 'a ne2000_scheme \<Rightarrow> (int \<times> ethernet_frame_header \<times> u32) option \<times> 'a ne2000_scheme" where
  "ne2000_get_packet h m =
    (let m = m\<lparr>ne2000_last_packet_size := 0\<rparr>;
         m = ne2000_regs [(0x0, 0x22)] m;
         (c, m) = io_inb h (ne2000_probe_base m + 7) m;
         (c, m) = (if c AND 0x40 \<noteq> 0
                   then io_inb h (ne2000_probe_base m + 7) (io_outb (ne2000_probe_base m + 7) 0x40 m)
                   else (c, m));
         (go, m) = (if c AND 1 \<noteq> 0 then ne2000_receive h m else (True, m))
     in if \<not> go then (None, m)
        else
          let m = ne2000_regs [(0x0, 0x22)] m;
              (c, m) = io_inb h (ne2000_probe_base m + 7) m;
              m = (if c \<noteq> 0 then io_outb (ne2000_probe_base m + 7) (c AND 0xFE) m else m)
          in if ne2000_last_packet_size m \<ge> 14
             then (Some (sint (ne2000_last_packet_size m - 14), eth_load (mem m) (ne2000_last_packet m),
                         ne2000_last_packet m + 14), m)
             else (None, m))"

definition ne2000_put_packet :: "u32 \<Rightarrow> 'a ne2000_scheme \<Rightarrow> 'a ne2000_scheme" where
  "ne2000_put_packet p m = m"

section \<open>Interface\<close>

lemma ne2000_tx_wait_ports:
  assumes "ne2000_tx_wait h m = Some m'"
  shows "ports_only m m'"
  using assms unfolding ne2000_tx_wait_def Let_def
  by (auto dest!: poll_ports [where m = m] simp: split_beta)

lemma ne2000_regs_ports: "ports_only m (ne2000_regs ws m)"
proof (induction ws arbitrary: m)
  case (Cons w ws)
  show ?case using Cons [of "io_outb (ne2000_probe_base m + fst w) (snd w) m"]
    by (auto simp: ne2000_regs_def split_beta intro: ports_only_trans [OF io_ports(1)])
qed (simp add: ne2000_regs_def)

lemma ne2000_get_header:
  "ne2000_get_packet h m = (Some (sz, hdr, p), m') \<Longrightarrow> hdr = eth_load (mem m') (p - 14)"
  by (auto simp: ne2000_get_packet_def Let_def split: prod.splits if_splits)

interpretation ne2000_driver: net_driver "ne2000_prepare_send_packet h" "ne2000_send_packet h"
  "\<lambda>m. Some (ne2000_get_packet h m)" ne2000_put_packet "\<lambda>_. True" mem 1519 for h
proof (unfold_locales, goal_cases)
  case (5 sz hdr s r s')
  then show ?case by (auto simp: ne2000_prepare_send_packet_def bind_eq_Some_conv Let_def split: if_splits)
next
  case (6 hdr sz s p s')
  then show ?case
    by (auto simp: ne2000_prepare_send_packet_def bind_eq_Some_conv Let_def eth_store_header split: if_splits)
next
  case (7 s sz hdr p s')
  then show ?case using ne2000_get_header by auto
qed auto

section \<open>What no driver touches\<close>

text \<open>
  The packet operations of every driver leave alone this machine's addresses, the choice of the
  driver, the heap pointer, the fault record and every component that extends the driver state.
\<close>

definition net_frame :: "'a ne2000_scheme \<Rightarrow> 'a ne2000_scheme \<Rightarrow> bool" where
  "net_frame m m' \<longleftrightarrow> my_ipv4_address m' = my_ipv4_address m \<and> my_eth_mac m' = my_eth_mac m \<and>
    chosen_net_drv m' = chosen_net_drv m \<and> chosen_net_drv_open m' = chosen_net_drv_open m \<and>
    pci_devices m' = pci_devices m \<and> alloc m' = alloc m \<and> fault m' = fault m \<and>
    ne2000_xmit_packet m' = ne2000_xmit_packet m \<and> ne2000.more m' = ne2000.more m"

lemma net_frame_refl [simp]: "net_frame m m"
  by (simp add: net_frame_def)

lemma net_frame_trans [trans]: "net_frame m m' \<Longrightarrow> net_frame m' m'' \<Longrightarrow> net_frame m m''"
  by (simp add: net_frame_def)

lemma console_net_frame: "console_step m m' \<Longrightarrow> net_frame m m'"
  by (erule console_stepE) (simp add: net_frame_def)

lemma ports_net_frame: "ports_only m m' \<Longrightarrow> net_frame m m'"
  by (rule console_net_frame) (rule ports_only_step)

lemma net_frame_updates [simp]:
  "net_frame m (u\<lparr>mem := mm\<rparr>) = net_frame m u"
  "net_frame m (u\<lparr>pcnet32_tx := a1\<rparr>) = net_frame m u" "net_frame m (u\<lparr>pcnet32_rx := a2\<rparr>) = net_frame m u"
  "net_frame m (u\<lparr>pcnet32_tx_offset := o1\<rparr>) = net_frame m u" "net_frame m (u\<lparr>pcnet32_rx_offset := o2\<rparr>) = net_frame m u"
  "net_frame m (u\<lparr>rtl8101_tx := b1\<rparr>) = net_frame m u" "net_frame m (u\<lparr>rtl8101_rx := b2\<rparr>) = net_frame m u"
  "net_frame m (u\<lparr>rtl8101_tx_offset := o3\<rparr>) = net_frame m u" "net_frame m (u\<lparr>rtl8101_rx_offset := o4\<rparr>) = net_frame m u"
  "net_frame m (u\<lparr>rtl8101_send_sz := o5\<rparr>) = net_frame m u" "net_frame m (u\<lparr>hist := hs\<rparr>) = net_frame m u"
  "net_frame m (u\<lparr>ne2000_last_packet_size := o6\<rparr>) = net_frame m u"
  "net_frame m (u\<lparr>ne2000_xmit_packet_size := o7\<rparr>) = net_frame m u"
  by (simp_all add: net_frame_def)

section \<open>Properties\<close>

lemma ports_ne2000:
  assumes "ports_only m m'"
  shows "mem m' = mem m" "ne2000_last_packet m' = ne2000_last_packet m"
    "ne2000_last_packet_size m' = ne2000_last_packet_size m" "ne2000_probe_base m' = ne2000_probe_base m"
    "ne2000_xmit_packet m' = ne2000_xmit_packet m" "ne2000_xmit_packet_size m' = ne2000_xmit_packet_size m"
proof -
  obtain hs where "m' = m\<lparr>hist := hs\<rparr>" using assms by (auto simp: ports_only_def)
  then show "mem m' = mem m" "ne2000_last_packet m' = ne2000_last_packet m"
    "ne2000_last_packet_size m' = ne2000_last_packet_size m" "ne2000_probe_base m' = ne2000_probe_base m"
    "ne2000_xmit_packet m' = ne2000_xmit_packet m" "ne2000_xmit_packet_size m' = ne2000_xmit_packet_size m"
    by simp_all
qed

lemma io_inw_seq_ports: "ports_only m (snd (io_inw_seq h p n m))"
  by (induction n arbitrary: m) (auto simp: split_beta intro: ports_only_trans [OF io_ports(9)])

lemma length_io_inw_seq: "length (fst (io_inw_seq h p n m)) = 2 * n"
  by (induction n arbitrary: m) (auto simp: split_beta)

lemmas ne2000_port_frames = ports_ne2000 [OF ne2000_regs_ports] ports_ne2000 [OF io_inw_seq_ports]
  ports_ne2000 [OF io_ports(8)] ports_ne2000 [OF io_ports(1)]

text \<open>What a receive may do to the state the packet code sees.\<close>

definition ne2000_rx_step :: "'a ne2000_scheme \<Rightarrow> 'a ne2000_scheme \<Rightarrow> bool" where
  "ne2000_rx_step m m' \<longleftrightarrow> net_frame m m' \<and> ne2000_last_packet m' = ne2000_last_packet m \<and>
    (\<forall>x. 1518 \<le> unat (x - ne2000_last_packet m) \<longrightarrow> mem m' x = mem m x) \<and>
    (unat (ne2000_last_packet_size m) \<le> 1518 \<longrightarrow> unat (ne2000_last_packet_size m') \<le> 1518)"

lemma ne2000_copy_in_step:
  assumes "14 \<le> unat n" and "unat n \<le> 1518"
  shows "ne2000_rx_step m (ne2000_copy_in h cur n m)"
proof -
  define m1 where "m1 = ne2000_regs [(0xA, ucast n), (0xB, ucast (drop_bit 8 n)), (0x8, 4), (0x9, cur)] m"
  obtain bs m2 where r: "io_inw_seq h (ne2000_probe_base m1 + 0x10) (unat n div 2) m1 = (bs, m2)" by fastforce
  have p1: "ports_only m m1" unfolding m1_def by (rule ne2000_regs_ports)
  have p2: "ports_only m1 m2" using io_inw_seq_ports [of m1 h] r by (metis snd_conv)
  have len: "length bs = 2 * (unat n div 2)" using length_io_inw_seq [of h _ _ m1] r by (metis fst_conv)
  note f = ports_ne2000 [OF p1] ports_ne2000 [OF p2]
  let ?a = "ne2000_last_packet m"
  have w1: "mem_write mm ?a bs x = mm x" if "1518 \<le> unat (x - ?a)" for mm x
    using that len assms(2) by (intro byte_write_apart) simp
  have w2: "mem_write mm (?a + (n - 1)) [b] x = mm x" if "1518 \<le> unat (x - ?a)" for mm b x
    using that assms mem_write_outside [of "unat n - 1" "[b]" 1518 x ?a mm] by simp
  have "net_frame m m2" using ports_net_frame [OF ports_only_trans [OF p1 p2]] .
  then have nf: "net_frame m (snd (io_inb h p (m2\<lparr>mem := mm\<rparr>)))" for p mm
    using net_frame_trans [OF _ ports_net_frame [OF io_ports(8)], of m "m2\<lparr>mem := mm\<rparr>" h p] by simp
  show ?thesis
    using r w1 w2 f assms(2) nf \<open>net_frame m m2\<close>
    by (auto simp: ne2000_rx_step_def ne2000_copy_in_def Let_def m1_def [symmetric] ne2000_port_frames split_beta)
qed

lemma ne2000_rx_step_trans: "ne2000_rx_step m m' \<Longrightarrow> ne2000_rx_step m' m'' \<Longrightarrow> ne2000_rx_step m m''"
  by (auto simp: ne2000_rx_step_def intro: net_frame_trans)

lemma ports_rx_step: "ports_only m m' \<Longrightarrow> ne2000_rx_step m m'"
  by (simp add: ne2000_rx_step_def ports_ne2000 ports_net_frame)

lemma ne2000_rx_step_frames:
  assumes "ne2000_rx_step m u"
  shows "ne2000_rx_step m (ne2000_regs ws u)" "ne2000_rx_step m (snd (io_inb h p u))"
    "ne2000_rx_step m (io_outb p b u)" "ne2000_rx_step m (snd (io_inw_seq h p k u))"
    "14 \<le> unat n \<Longrightarrow> unat n \<le> 1518 \<Longrightarrow> ne2000_rx_step m (ne2000_copy_in h c n u)"
  using ne2000_rx_step_trans [OF assms] ports_rx_step [OF ne2000_regs_ports] ports_rx_step [OF io_ports(8)]
    ports_rx_step [OF io_ports(1)] ports_rx_step [OF io_inw_seq_ports] ne2000_copy_in_step
  by blast+

lemma ne2000_rx_step_refl [simp]: "ne2000_rx_step m m"
  by (simp add: ne2000_rx_step_def)

lemma rx_count_bounds:
  fixes c :: u32
  assumes "18 \<le> c" "c \<le> 1522"
  shows "14 \<le> unat (c - 4)" "unat (c - 4) \<le> 1518"
  using assms by (simp_all add: word_le_nat_alt unat_sub)

lemma ne2000_rx_step_reads:
  "io_inb h p u = (c, u') \<Longrightarrow> ne2000_rx_step m u \<Longrightarrow> ne2000_rx_step m u'"
  "io_inw_seq h p k u = (bs, u') \<Longrightarrow> ne2000_rx_step m u \<Longrightarrow> ne2000_rx_step m u'"
  using ne2000_rx_step_frames(2) [of m u h p] ne2000_rx_step_frames(4) [of m u h p k] by auto

lemma ne2000_receive_step: "ne2000_rx_step m (snd (ne2000_receive h m))"
proof -
  define m1 where "m1 = ne2000_regs [(0, 0x22 OR 0x40)] m"
  obtain cw m2 where r2: "io_inb h (ne2000_probe_base m1 + 7) m1 = (cw, m2)" by fastforce
  define m3 where "m3 = ne2000_regs [(0, 0x22)] m2"
  obtain bnry m4 where r4: "io_inb h (ne2000_probe_base m3 + 3) m3 = (bnry, m4)" by fastforce
  define cur where "cur = (if bnry + 1 \<ge> RX_PAGE_END then RX_PAGE_START else bnry + 1)"
  define m5 where "m5 = ne2000_regs [(0xA, 4), (0xB, 0), (0x8, 0), (0x9, cur)] m4"
  obtain tmp m6 where r6: "io_inw_seq h (ne2000_probe_base m5 + 0x10) 2 m5 = (tmp, m6)" by fastforce
  have s4: "ne2000_rx_step m m4"
    by (rule ne2000_rx_step_reads(1) [OF r4])
      (simp add: m3_def ne2000_rx_step_frames ne2000_rx_step_reads(1) [OF r2] m1_def)
  then have s6: "ne2000_rx_step m m6"
    by (intro ne2000_rx_step_reads(2) [OF r6]) (simp add: m5_def ne2000_rx_step_frames)
  have "snd (ne2000_receive h m) = (if cur = cw then m4 else
     let bc = ucast (tmp ! 2) OR push_bit 8 (ucast (tmp ! 3)) :: u32
     in ne2000_regs [(3, tmp ! 1 - 1), (7, 0x01)]
       (if tmp ! 0 AND 1 \<noteq> 0 \<and> tmp ! 0 AND 0x1E = 0 \<and> bc \<ge> 18 \<and> bc \<le> 1522 then ne2000_copy_in h cur (bc - 4) m6 else m6))"
    using r2 r4 r6 unfolding m1_def m3_def m5_def cur_def
    by (simp add: ne2000_receive_def Let_def cong: if_cong)
  then show ?thesis
    using s4 s6 by (auto simp: Let_def intro!: ne2000_rx_step_frames rx_count_bounds)
qed

lemma frame_size_sint:
  fixes n :: u32
  assumes "14 \<le> n" "unat n \<le> 1518"
  shows "sint (n - 14) = int (unat n) - 14"
proof -
  have "unat (n - 14) = unat n - 14" "14 \<le> unat n" using assms by (simp_all add: word_le_nat_alt unat_sub)
  then show ?thesis using sint_small [of "n - 14"] assms(2) by simp
qed

lemma ne2000_get_step:
  assumes "ne2000_get_packet h m = (r, m')"
  shows "ne2000_rx_step (m\<lparr>ne2000_last_packet_size := 0\<rparr>) m'"
    and "r = None \<or> 14 \<le> ne2000_last_packet_size m' \<and>
      r = Some (sint (ne2000_last_packet_size m' - 14), eth_load (mem m') (ne2000_last_packet m'), ne2000_last_packet m' + 14)"
proof -
  let ?m = "m\<lparr>ne2000_last_packet_size := 0\<rparr>"
  define m1 where "m1 = ne2000_regs [(0x0, 0x22)] ?m"
  obtain c m2 where r2: "io_inb h (ne2000_probe_base m1 + 7) m1 = (c, m2)" by fastforce
  define s3 where "s3 = (if c AND 0x40 \<noteq> 0
    then io_inb h (ne2000_probe_base m2 + 7) (io_outb (ne2000_probe_base m2 + 7) 0x40 m2) else (c, m2))"
  define s4 where "s4 = (if fst s3 AND 1 \<noteq> 0 then ne2000_receive h (snd s3) else (True, snd s3))"
  define m5 where "m5 = ne2000_regs [(0x0, 0x22)] (snd s4)"
  obtain c' m6 where r6: "io_inb h (ne2000_probe_base m5 + 7) m5 = (c', m6)" by fastforce
  define m7 where "m7 = (if c' \<noteq> 0 then io_outb (ne2000_probe_base m6 + 7) (c' AND 0xFE) m6 else m6)"
  have "ne2000_rx_step ?m m2"
    by (rule ne2000_rx_step_reads(1) [OF r2]) (simp add: m1_def ne2000_rx_step_frames)
  then have s3: "ne2000_rx_step ?m (snd s3)" by (simp add: s3_def ne2000_rx_step_frames)
  then have s4: "ne2000_rx_step ?m (snd s4)"
    using ne2000_rx_step_trans [OF s3 ne2000_receive_step [of "snd s3" h]] by (simp add: s4_def)
  then have "ne2000_rx_step ?m m6"
    by (intro ne2000_rx_step_reads(1) [OF r6]) (simp add: m5_def ne2000_rx_step_frames)
  then have s7: "ne2000_rx_step ?m m7" by (simp add: m7_def ne2000_rx_step_frames)
  have g: "ne2000_get_packet h m = (if \<not> fst s4 then (None, snd s4) else if ne2000_last_packet_size m7 \<ge> 14
      then (Some (sint (ne2000_last_packet_size m7 - 14), eth_load (mem m7) (ne2000_last_packet m7),
        ne2000_last_packet m7 + 14), m7) else (None, m7))"
    using r2 r6 unfolding m7_def m5_def s4_def s3_def m1_def
    by (simp add: ne2000_get_packet_def Let_def split_beta cong: if_cong)
  show "ne2000_rx_step ?m m'" using assms g s4 s7 by (auto split: if_splits)
  show "r = None \<or> 14 \<le> ne2000_last_packet_size m' \<and>
    r = Some (sint (ne2000_last_packet_size m' - 14), eth_load (mem m') (ne2000_last_packet m'), ne2000_last_packet m' + 14)"
    using assms g by (auto split: if_splits)
qed

text \<open>
  C32. Receiving never leaves its buffer: whatever the card answers, \<^verbatim>\<open>ne2000_get_packet\<close> writes only the
  first 1518 bytes of the 2048-byte buffer, and a packet it delivers lies behind the header in
  that buffer with a size from 0 to 1504.
\<close>

theorem ne2000_get_packet_bounds:
  assumes "ne2000_get_packet h m = (r, m')"
  shows "(\<forall>x. 1518 \<le> unat (x - ne2000_last_packet m) \<longrightarrow> mem m' x = mem m x) \<and>
    (case r of None \<Rightarrow> True | Some (sz, hdr, p) \<Rightarrow> 0 \<le> sz \<and> sz \<le> 1504 \<and> p = ne2000_last_packet m + 14)"
proof -
  have st: "ne2000_last_packet m' = ne2000_last_packet m" "unat (ne2000_last_packet_size m') \<le> 1518"
    "\<forall>x. 1518 \<le> unat (x - ne2000_last_packet m) \<longrightarrow> mem m' x = mem m x"
    using ne2000_get_step(1) [OF assms] by (simp_all add: ne2000_rx_step_def)
  have "r = None \<or> 14 \<le> ne2000_last_packet_size m' \<and>
    r = Some (sint (ne2000_last_packet_size m' - 14), eth_load (mem m') (ne2000_last_packet m'), ne2000_last_packet m' + 14)"
    by (rule ne2000_get_step(2) [OF assms])
  moreover have "0 \<le> sint (ne2000_last_packet_size m' - 14) \<and> sint (ne2000_last_packet_size m' - 14) \<le> 1504"
    if a: "14 \<le> ne2000_last_packet_size m'"
  proof -
    have "14 \<le> unat (ne2000_last_packet_size m')" using a by (simp add: word_le_nat_alt)
    then show ?thesis using frame_size_sint [OF a st(2)] st(2) by linarith
  qed
  ultimately show ?thesis using st(1,3) by auto
qed

definition ne2000_example :: ne2000 where
  "ne2000_example = rtl8101.extend rtl8101_example (ne2000.fields [0, 1, 2, 3, 4, 5] 0x300 0x170000 0x170800 0 0)"

theorem ne2000_get_packet_bounds_witness:
  "mem (snd (ne2000_get_packet quiet_hw ne2000_example)) 0x170800 = mem ne2000_example 0x170800"
proof -
  have "ne2000_last_packet ne2000_example = 0x170000"
    by (simp add: ne2000_example_def ne2000.defs rtl8101.defs)
  then show ?thesis
    using ne2000_get_packet_bounds [of quiet_hw ne2000_example "fst (ne2000_get_packet quiet_hw ne2000_example)"
        "snd (ne2000_get_packet quiet_hw ne2000_example)"]
    by (auto dest: spec [of _ "0x170800"])
qed

subsection \<open>Sending\<close>

text \<open>The bytes that writes to the data port carry, oldest first.\<close>

fun data_out :: "u16 \<Rightarrow> io_event list \<Rightarrow> u8 list" where
  "data_out p [] = []"
| "data_out p (PortOut W16 q v # es) = data_out p es @ (if q = p then le16 (ucast v) else [])"
| "data_out p (PortOut W8 q v # es) = data_out p es @ (if q = p then [ucast v] else [])"
| "data_out p (e # es) = data_out p es"

lemma data_out_word: "data_out (ucast q) (hist (io_outw q w m)) = data_out (ucast q) (hist m) @ le16 w"
  by (simp add: io_outw_def ucast_up_ucast_id is_up)

lemma data_out_byte: "data_out (ucast q) (hist (io_outb q b m)) = data_out (ucast q) (hist m) @ [b]"
  by (simp add: io_outb_def ucast_up_ucast_id is_up)

lemma data_out_words:
  fixes m :: "'a ne2000_scheme"
  defines "send \<equiv> \<lambda>(p :: u32) i (m :: 'a ne2000_scheme). io_outw (ne2000_probe_base m + 0x10) (load16 (mem m) (p + 2 * of_nat i)) m"
  shows "ports_only m (fold (send p) [0..<k] m) \<and>
    data_out (ucast (ne2000_probe_base m + 0x10)) (hist (fold (send p) [0..<k] m)) =
     data_out (ucast (ne2000_probe_base m + 0x10)) (hist m) @ load_bytes (mem m) p (2 * k)"
proof (induction k)
  case 0
  then show ?case by (simp add: load_bytes_def)
next
  case (Suc k)
  let ?m = "fold (send p) [0..<k] m"
  have f: "mem ?m = mem m" "ne2000_probe_base ?m = ne2000_probe_base m"
    using ports_ne2000(1,4) [of m ?m] Suc by simp_all
  have "load_bytes (mem m) p (2 * Suc k) = load_bytes (mem m) p (2 * k) @ le16 (load16 (mem m) (p + 2 * of_nat k))"
    using load_bytes_add [of "mem m" p "2 * k" 2] by (simp add: le16_load16 mult.commute)
  then show ?case using Suc f by (simp add: send_def data_out_word)
qed

lemma ne2000_copy_out_ports: "ports_only m (ne2000_copy_out m)"
  using data_out_words [of m "ne2000_xmit_packet m" "unat (ne2000_xmit_packet_size m) div 2"]
  by (simp add: ne2000_copy_out_def Let_def)

text \<open>
  Sending pushes exactly the prepared frame through the data port: the words and the last odd byte
  written to it are, in order, the bytes of the transmit buffer, as many as were prepared, and
  nothing but the ports is touched.
\<close>

theorem ne2000_copy_out_bytes:
  "data_out (ucast (ne2000_probe_base m + 0x10)) (hist (ne2000_copy_out m)) =
     data_out (ucast (ne2000_probe_base m + 0x10)) (hist m) @
     load_bytes (mem m) (ne2000_xmit_packet m) (unat (ne2000_xmit_packet_size m)) \<and>
   ports_only m (ne2000_copy_out m)"
proof -
  let ?n = "unat (ne2000_xmit_packet_size m)" and ?p = "ne2000_xmit_packet m"
  define u where "u = fold (\<lambda>i m. io_outw (ne2000_probe_base m + 0x10) (load16 (mem m) (?p + 2 * of_nat i)) m)
    [0..<?n div 2] m"
  note w = data_out_words [of m ?p "?n div 2", folded u_def]
  have f: "mem u = mem m" "ne2000_probe_base u = ne2000_probe_base m"
    using ports_ne2000(1,4) [of m u] w by simp_all
  have c: "ne2000_copy_out m =
    (if odd ?n then io_outb (ne2000_probe_base u + 0x10) (mem u (?p + of_nat (?n - 1))) u else u)"
    by (simp add: ne2000_copy_out_def Let_def u_def)
  show ?thesis
  proof (cases "odd ?n")
    case True
    then have "?n = 2 * (?n div 2) + 1" "?n - 1 = 2 * (?n div 2)" by simp_all
    then have "load_bytes (mem m) ?p ?n = load_bytes (mem m) ?p (2 * (?n div 2)) @ [mem m (?p + of_nat (?n - 1))]"
      using load_bytes_add [of "mem m" ?p "2 * (?n div 2)" 1] by (simp add: load_bytes_def [of _ _ "Suc 0"])
    then show ?thesis using True w by (simp add: c f data_out_byte)
  next
    case False
    then show ?thesis using w by (simp add: c)
  qed
qed

end
