(* ===== verification/Network.thy ===== *)
theory Network
  imports Ne2000
begin

text \<open>
  Choosing and calling a driver: the table of drivers and the automatic probe of
  \<^verbatim>\<open>src/eth/network.c\<close>. A call through a driver pointer is a dispatch on the driver; through a
  \<^verbatim>\<open>NULL\<close> pointer it is the recorded fault \<open>Null_Call\<close>.
\<close>

section \<open>Calls through a driver\<close>

definition drv_probe :: "'h rtl8101_hw_scheme \<Rightarrow> network_driver \<Rightarrow> nat option \<Rightarrow> 'a ne2000_scheme \<Rightarrow> bool \<times> 'a ne2000_scheme" where
  "drv_probe h d pdev m = (case d of Pcnet32 \<Rightarrow> (pcnet32_probe pdev m, m) | Rtl8101 \<Rightarrow> (rtl8101_probe pdev m, m)
     | Rtl8139 \<Rightarrow> (rtl8139_probe pdev m, m) | Ne2000 \<Rightarrow> ne2000_probe h pdev m)"

definition drv_init :: "'h rtl8101_hw_scheme \<Rightarrow> network_driver \<Rightarrow> nat option \<Rightarrow> 'a ne2000_scheme \<Rightarrow> bool \<times> 'a ne2000_scheme" where
  "drv_init h d pdev m = (case d of Pcnet32 \<Rightarrow> pcnet32_init h pdev m | Rtl8101 \<Rightarrow> rtl8101_init h pdev m
     | Rtl8139 \<Rightarrow> rtl8139_init pdev m | Ne2000 \<Rightarrow> ne2000_init h pdev m)"

definition drv_prepare_send_packet ::
  "'h rtl8101_hw_scheme \<Rightarrow> network_driver \<Rightarrow> int \<Rightarrow> ethernet_frame_header \<Rightarrow> 'a ne2000_scheme \<Rightarrow>
    (u32 option \<times> 'a ne2000_scheme) option" where
  "drv_prepare_send_packet h d sz hdr m = (case d of
       Pcnet32 \<Rightarrow> pcnet32_prepare_send_packet h sz hdr m
     | Rtl8101 \<Rightarrow> Some (rtl8101_prepare_send_packet h sz hdr m)
     | Rtl8139 \<Rightarrow> Some (rtl8139_prepare_send_packet sz hdr m)
     | Ne2000 \<Rightarrow> ne2000_prepare_send_packet h sz hdr m)"

definition drv_send_packet :: "'h rtl8101_hw_scheme \<Rightarrow> network_driver \<Rightarrow> 'a ne2000_scheme \<Rightarrow> 'a ne2000_scheme option" where
  "drv_send_packet h d m = (case d of Pcnet32 \<Rightarrow> Some (pcnet32_send_packet m)
     | Rtl8101 \<Rightarrow> Some (rtl8101_send_packet h m) | Rtl8139 \<Rightarrow> Some (rtl8139_send_packet m)
     | Ne2000 \<Rightarrow> ne2000_send_packet h m)"

definition drv_get_packet ::
  "'h rtl8101_hw_scheme \<Rightarrow> network_driver \<Rightarrow> 'a ne2000_scheme \<Rightarrow>
    ((int \<times> ethernet_frame_header \<times> u32) option \<times> 'a ne2000_scheme) option" where
  "drv_get_packet h d m = Some (case d of Pcnet32 \<Rightarrow> pcnet32_get_packet h m
     | Rtl8101 \<Rightarrow> rtl8101_get_packet h m | Rtl8139 \<Rightarrow> rtl8139_get_packet m | Ne2000 \<Rightarrow> ne2000_get_packet h m)"

definition drv_put_packet :: "'h rtl8101_hw_scheme \<Rightarrow> network_driver \<Rightarrow> u32 \<Rightarrow> 'a ne2000_scheme \<Rightarrow> 'a ne2000_scheme" where
  "drv_put_packet h d p m = (case d of Pcnet32 \<Rightarrow> pcnet32_put_packet p m | Rtl8101 \<Rightarrow> rtl8101_put_packet h p m
     | Rtl8139 \<Rightarrow> rtl8139_put_packet p m | Ne2000 \<Rightarrow> ne2000_put_packet p m)"

text \<open>The calls \<^verbatim>\<open>chosen_net_drv->...\<close> of the packet code.\<close>

definition net_prepare_send_packet ::
  "'h rtl8101_hw_scheme \<Rightarrow> int \<Rightarrow> ethernet_frame_header \<Rightarrow> 'a ne2000_scheme \<Rightarrow> (u32 option \<times> 'a ne2000_scheme) option" where
  "net_prepare_send_packet h sz hdr m = (case chosen_net_drv m of
       None \<Rightarrow> Some (None, set_fault Null_Call m) | Some d \<Rightarrow> drv_prepare_send_packet h d sz hdr m)"

definition net_send_packet :: "'h rtl8101_hw_scheme \<Rightarrow> 'a ne2000_scheme \<Rightarrow> 'a ne2000_scheme option" where
  "net_send_packet h m = (case chosen_net_drv m of
       None \<Rightarrow> Some (set_fault Null_Call m) | Some d \<Rightarrow> drv_send_packet h d m)"

definition net_get_packet ::
  "'h rtl8101_hw_scheme \<Rightarrow> 'a ne2000_scheme \<Rightarrow> ((int \<times> ethernet_frame_header \<times> u32) option \<times> 'a ne2000_scheme) option" where
  "net_get_packet h m = (case chosen_net_drv m of
       None \<Rightarrow> Some (None, set_fault Null_Call m) | Some d \<Rightarrow> drv_get_packet h d m)"

definition net_put_packet :: "'h rtl8101_hw_scheme \<Rightarrow> u32 \<Rightarrow> 'a ne2000_scheme \<Rightarrow> 'a ne2000_scheme" where
  "net_put_packet h p m = (case chosen_net_drv m of
       None \<Rightarrow> set_fault Null_Call m | Some d \<Rightarrow> drv_put_packet h d p m)"

section \<open>Automatic probe\<close>

text \<open>The inner loop over the drivers, left as soon as one is chosen.\<close>

fun autoprobe_drivers :: "'h rtl8101_hw_scheme \<Rightarrow> nat option \<Rightarrow> network_driver list \<Rightarrow> 'a ne2000_scheme \<Rightarrow> 'a ne2000_scheme" where
  "autoprobe_drivers h pdev [] m = m"
| "autoprobe_drivers h pdev (d # ds) m =
    (if chosen_net_drv m = None
     then (let (r, m) = drv_probe h d pdev m
           in autoprobe_drivers h pdev ds (if r then m\<lparr>chosen_net_dev := pdev, chosen_net_drv := Some d\<rparr> else m))
     else m)"

definition autoprobe_network_card_isa :: "'h rtl8101_hw_scheme \<Rightarrow> 'a ne2000_scheme \<Rightarrow> 'a ne2000_scheme" where
  "autoprobe_network_card_isa h m =
    autoprobe_drivers h None net_drivers (m\<lparr>chosen_net_drv := None, chosen_net_dev := None\<rparr>)"

fun autoprobe_pci :: "'h rtl8101_hw_scheme \<Rightarrow> nat list \<Rightarrow> 'a ne2000_scheme \<Rightarrow> 'a ne2000_scheme" where
  "autoprobe_pci h [] m = m"
| "autoprobe_pci h (i # is) m =
    (if chosen_net_drv m = None
     then (let pdev = pci_devices m ! i
           in if device_id pdev = 0 \<or> drop_bit 16 (class_code pdev) \<noteq> 2 then autoprobe_pci h is m
              else autoprobe_pci h is (autoprobe_drivers h (Some i) net_drivers m))
     else m)"

definition keyb8042_read_ascii :: "'h hw_scheme \<Rightarrow> 'a vga_scheme \<Rightarrow> (int \<times> 'a vga_scheme) option" where
  "keyb8042_read_ascii h m = map_option (\<lambda>(r, m). (keyb8042_to_ascii r, m)) (keyb8042_read_buffer h m)"

definition autoprobe_network_card :: "'h rtl8101_hw_scheme \<Rightarrow> 'a ne2000_scheme \<Rightarrow> 'a ne2000_scheme option" where
  "autoprobe_network_card h m = do {
     let m = m\<lparr>chosen_net_drv := None, chosen_net_dev := None\<rparr>;
     let m = autoprobe_pci h [0..<MAX_PCI_DEVICE] m;
     if chosen_net_dev m = None
     then do {
       let m = vga_write (''No PCI cards were automatically identified. Would you like me to probe for'' @ crlf) m;
       let m = vga_write (''ISA network cards? '' @ crlf) m;
       (c, m) \<leftarrow> poll_until (\<lambda>c. c = of_char CHR ''y'' \<or> c > 0) (keyb8042_read_ascii h) m;
       Some (if c = of_char CHR ''y'' then autoprobe_network_card_isa h m else m) }
     else Some m }"

section \<open>The interface for whatever driver is chosen\<close>

definition drv_ok :: "network_driver \<Rightarrow> 'a ne2000_scheme \<Rightarrow> bool" where
  "drv_ok d m = (case d of Pcnet32 \<Rightarrow> pcnet32_ok m | Rtl8101 \<Rightarrow> rtl8101_ok m | _ \<Rightarrow> True)"

definition drv_limit :: "network_driver \<Rightarrow> int" where
  "drv_limit d = (case d of Pcnet32 \<Rightarrow> 1586 | Rtl8101 \<Rightarrow> 1586 | Rtl8139 \<Rightarrow> -1 | Ne2000 \<Rightarrow> 1519)"

lemmas drv_defs = drv_prepare_send_packet_def drv_send_packet_def drv_get_packet_def drv_put_packet_def
  drv_ok_def drv_limit_def

interpretation drv: net_driver "drv_prepare_send_packet h d" "drv_send_packet h d" "drv_get_packet h d"
  "drv_put_packet h d" "drv_ok d" mem "drv_limit d" for h d
proof (cases d)
  case Pcnet32
  then show "net_driver (drv_prepare_send_packet h d) (drv_send_packet h d) (drv_get_packet h d)
    (drv_put_packet h d) (drv_ok d) mem (drv_limit d)"
    using pcnet32_driver.net_driver_axioms by (simp add: drv_defs [abs_def])
next
  case Rtl8101
  then show "net_driver (drv_prepare_send_packet h d) (drv_send_packet h d) (drv_get_packet h d)
    (drv_put_packet h d) (drv_ok d) mem (drv_limit d)"
    using rtl8101_driver.net_driver_axioms by (simp add: drv_defs [abs_def])
next
  case Rtl8139
  then show "net_driver (drv_prepare_send_packet h d) (drv_send_packet h d) (drv_get_packet h d)
    (drv_put_packet h d) (drv_ok d) mem (drv_limit d)"
    using rtl8139_driver.net_driver_axioms by (simp add: drv_defs [abs_def])
next
  case Ne2000
  then show "net_driver (drv_prepare_send_packet h d) (drv_send_packet h d) (drv_get_packet h d)
    (drv_put_packet h d) (drv_ok d) mem (drv_limit d)"
    using ne2000_driver.net_driver_axioms by (simp add: drv_defs [abs_def])
qed

section \<open>The frame of every driver\<close>

lemma pcnet32_frames:
  "net_frame m u \<Longrightarrow> net_frame m (snd (pcnet32_rx_status_read h u))"
  "net_frame m u \<Longrightarrow> net_frame m (snd (pcnet32_tx_status_read h u))"
  "net_frame m u \<Longrightarrow> net_frame m (pcnet32_discard u)"
  "net_frame m u \<Longrightarrow> net_frame m (pcnet32_send_packet u)"
  by (simp_all add: pcnet32_rx_status_read_def pcnet32_tx_status_read_def pcnet32_sync_def Let_def
      pcnet32_discard_def pcnet32_rx_reinit_def pcnet32_adv_packet_def pcnet32_send_packet_def)

lemma pcnet32_prepare_frame:
  assumes "pcnet32_prepare_send_packet h sz hdr m = Some (r, m')"
  shows "net_frame m m'"
proof (cases "sz > 1586")
  case True
  then show ?thesis using assms by (simp add: pcnet32_prepare_send_packet_def)
next
  case False
  then obtain s m1 where w: "while_option (\<lambda>(s, m). s AND 0x8000 \<noteq> 0) (\<lambda>(s, m). pcnet32_tx_status_read h m)
      (pcnet32_tx_status_read h m) = Some (s, m1)"
    using assms by (auto simp: pcnet32_prepare_send_packet_def bind_eq_Some_conv)
  have "net_frame m (snd (s, m1))"
    by (rule while_option_rule [where P = "\<lambda>s. net_frame m (snd s)", OF _ w])
      (auto simp: split_beta pcnet32_frames)
  then show ?thesis using assms False w by (auto simp: pcnet32_prepare_send_packet_def Let_def)
qed

lemma pcnet32_read_frame:
  "pcnet32_rx_status_read h u = (s, u') \<Longrightarrow> net_frame m u \<Longrightarrow> net_frame m u'"
  using pcnet32_frames(1) [of m u h] by simp

lemma pcnet32_get_frame: "pcnet32_get_packet h m = (r, m') \<Longrightarrow> net_frame m m'"
  by (auto simp: pcnet32_get_packet_def Let_def split: prod.splits if_splits
      intro!: pcnet32_frames(3) elim!: pcnet32_read_frame)

lemma rtl8101_frames:
  "net_frame m u \<Longrightarrow> net_frame m (snd (rtl8101_rx_read h i u))"
  "net_frame m u \<Longrightarrow> net_frame m (snd (rtl8101_tx_read h u))"
  "net_frame m u \<Longrightarrow> net_frame m (rtl8101_rx_write i f u)"
  "net_frame m u \<Longrightarrow> net_frame m (rtl8101_adv_packet u)"
  by (simp_all add: rtl8101_rx_read_def rtl8101_tx_read_def rtl8101_sync_def rtl8101_rx_write_def
      rtl8101_adv_packet_def Let_def)

lemma rtl8101_discard_frame: "net_frame m u \<Longrightarrow> net_frame m (rtl8101_discard h u)"
  by (simp add: rtl8101_discard_def rtl8101_rx_reinit_def Let_def split_beta rtl8101_frames)

lemma rtl8101_read_frame:
  "rtl8101_rx_read h i u = (s, u') \<Longrightarrow> net_frame m u \<Longrightarrow> net_frame m u'"
  using rtl8101_frames(1) [of m u h i] by simp

lemma rtl8101_get_frame: "rtl8101_get_packet h m = (r, m') \<Longrightarrow> net_frame m m'"
  by (auto simp: rtl8101_get_packet_def Let_def split: prod.splits if_splits
      intro!: rtl8101_discard_frame elim!: rtl8101_read_frame)

lemma rtl8101_tx_wait_frame: "net_frame m u \<Longrightarrow> net_frame m (rtl8101_tx_wait h msg n u)"
proof (induction n arbitrary: u)
  case (Suc n)
  obtain x u1 where r: "rtl8101_tx_read h u = (x, u1)" by fastforce
  then have u1: "net_frame m u1" using rtl8101_frames(2) [OF Suc.prems, of h] by simp
  then show ?case
    using Suc.IH [OF u1] r net_frame_trans [OF u1 console_net_frame [OF vga_write_step]] by simp
qed simp

lemma rtl8101_prepare_frame: "net_frame m (snd (rtl8101_prepare_send_packet h sz hdr m))"
  by (simp add: rtl8101_prepare_send_packet_def Let_def rtl8101_tx_wait_frame)

lemma rtl8101_send_frame: "net_frame m (rtl8101_send_packet h m)"
  by (simp add: rtl8101_send_packet_def Let_def rtl8101_tx_wait_frame io_outb_def)

lemma ne2000_prepare_frame:
  "ne2000_prepare_send_packet h sz hdr m = Some (r, m') \<Longrightarrow> net_frame m m'"
  by (auto simp: ne2000_prepare_send_packet_def bind_eq_Some_conv Let_def split: if_splits
      dest!: ne2000_tx_wait_ports intro: ports_net_frame)

lemma ne2000_send_frame:
  assumes "ne2000_send_packet h m = Some m'"
  shows "net_frame m m'"
proof (cases "ne2000_xmit_packet_size m = 0")
  case False
  obtain ws ws' u where "ne2000_tx_wait h (ne2000_regs ws' (ne2000_copy_out (ne2000_regs ws m))) = Some u"
    and m': "m' = u\<lparr>ne2000_xmit_packet_size := 0\<rparr>"
    using assms False by (auto simp: ne2000_send_packet_def Let_def bind_eq_Some_conv)
  then have "ports_only m u"
    by (meson ne2000_tx_wait_ports ne2000_regs_ports ne2000_copy_out_ports ports_only_trans)
  then show ?thesis using m' by (simp add: ports_net_frame)
qed (use assms in \<open>simp add: ne2000_send_packet_def\<close>)

lemma ne2000_get_frame: "ne2000_get_packet h m = (r, m') \<Longrightarrow> net_frame m m'"
  using ne2000_get_step [of h m r m'] by (simp add: ne2000_rx_step_def net_frame_def)

lemma drv_frame:
  "drv_prepare_send_packet h d sz hdr m = Some (r, m') \<Longrightarrow> net_frame m m'"
  "drv_send_packet h d m = Some m' \<Longrightarrow> net_frame m m'"
  "drv_get_packet h d m = Some (pkt, m') \<Longrightarrow> net_frame m m'"
  "net_frame m (drv_put_packet h d p m)"
  using pcnet32_prepare_frame [of h sz hdr m r m'] rtl8101_prepare_frame [of m h sz hdr]
    ne2000_prepare_frame [of h sz hdr m r m']
    pcnet32_frames(4) [of m m] rtl8101_send_frame [of m h] ne2000_send_frame [of h m m']
    pcnet32_get_frame [of h m pkt m'] rtl8101_get_frame [of h m pkt m'] ne2000_get_frame [of h m pkt m']
    pcnet32_frames(3) [of m m] rtl8101_discard_frame [of m m h]
  by (auto simp: drv_defs rtl8139_prepare_send_packet_def rtl8139_send_packet_def rtl8139_get_packet_def
      rtl8139_put_packet_def pcnet32_put_packet_def rtl8101_put_packet_def ne2000_put_packet_def
      split: network_driver.splits)

section \<open>Which card is chosen\<close>

text \<open>The specification of the probe: which driver, if any, takes a PCI function.\<close>

definition card_driver :: "pci_device \<Rightarrow> network_driver option" where
  "card_driver d =
    (if device_id d = 0 \<or> drop_bit 16 (class_code d) \<noteq> 2 then None
     else if vendor_id d = 0x1022 \<and> device_id d = 0x2000 then Some Pcnet32
     else if vendor_id d = 0x10EC \<and> device_id d = 0x8136 then Some Rtl8101 else None)"

lemma autoprobe_drivers_pci:
  assumes "chosen_net_drv m = None" and "device_id (pci_devices m ! i) \<noteq> 0"
    and "drop_bit 16 (class_code (pci_devices m ! i)) = 2"
  shows "autoprobe_drivers h (Some i) net_drivers m = (case card_driver (pci_devices m ! i) of None \<Rightarrow> m
    | Some d \<Rightarrow> m\<lparr>chosen_net_dev := Some i, chosen_net_drv := Some d\<rparr>)"
  using assms
  by (auto simp: net_drivers_def drv_probe_def pcnet32_probe_def pcnet32_known_pci_id_def rtl8101_probe_def
      rtl8101_known_pci_id_def rtl8139_probe_def rtl8139_known_pci_id_def ne2000_probe_def pci_dev_at_def
      card_driver_def)

lemma autoprobe_drivers_isa:
  "chosen_net_drv m = None \<Longrightarrow> autoprobe_drivers h None net_drivers m =
    (let (r, m) = ne2000_probe h None m in if r then m\<lparr>chosen_net_dev := None, chosen_net_drv := Some Ne2000\<rparr> else m)"
  by (simp add: net_drivers_def drv_probe_def pcnet32_probe_def pcnet32_known_pci_id_def rtl8101_probe_def
      rtl8101_known_pci_id_def rtl8139_probe_def rtl8139_known_pci_id_def pci_dev_at_def split_beta Let_def)

lemma autoprobe_pci_chosen: "chosen_net_drv m = Some d \<Longrightarrow> autoprobe_pci h is m = m"
  by (cases "is") simp_all

text \<open>The scan of the table in closed form: the first function some driver takes.\<close>

lemma autoprobe_pci_first:
  assumes "chosen_net_drv m = None"
  shows "autoprobe_pci h is m = (case find (\<lambda>i. card_driver (pci_devices m ! i) \<noteq> None) is of None \<Rightarrow> m
    | Some i \<Rightarrow> m\<lparr>chosen_net_dev := Some i, chosen_net_drv := card_driver (pci_devices m ! i)\<rparr>)"
  using assms
proof (induction "is")
  case (Cons i "is")
  show ?case
  proof (cases "device_id (pci_devices m ! i) = 0 \<or> drop_bit 16 (class_code (pci_devices m ! i)) \<noteq> 2")
    case True
    then have "card_driver (pci_devices m ! i) = None" by (simp add: card_driver_def)
    then show ?thesis using Cons True by (simp add: Let_def)
  next
    case False
    then have p: "autoprobe_pci h (i # is) m =
        autoprobe_pci h is (autoprobe_drivers h (Some i) net_drivers m)"
      using Cons.prems by (simp add: Let_def)
    show ?thesis
      using Cons False autoprobe_drivers_pci [OF Cons.prems, of i h]
      unfolding p by (auto simp: autoprobe_pci_chosen split: option.splits)
  qed
qed simp

definition choice_same :: "'a ne2000_scheme \<Rightarrow> 'a ne2000_scheme \<Rightarrow> bool" where
  "choice_same m m' \<longleftrightarrow> chosen_net_dev m' = chosen_net_dev m \<and> chosen_net_drv m' = chosen_net_drv m"

lemma choice_same_trans: "choice_same m m' \<Longrightarrow> choice_same m' m'' \<Longrightarrow> choice_same m m''"
  by (simp add: choice_same_def)

lemma console_choice: "console_step m m' \<Longrightarrow> choice_same m m'"
  by (erule console_stepE) (simp add: choice_same_def)

lemma read_ascii_ports:
  "poll_until P (keyb8042_read_ascii h) m = Some (c, m') \<Longrightarrow> ports_only m m'"
  by (rule poll_until_ports) (auto simp: keyb8042_read_ascii_def dest: read_ports)

lemma ne2000_isr_wait_ports: "ports_only m (ne2000_isr_wait h base v n m)"
  by (induction n arbitrary: m) (auto simp: split_beta intro: ports_only_trans [OF io_ports(8)])

lemma choice_frames:
  assumes "choice_same m u"
  shows "choice_same m (snd (io_inb h p u))" "choice_same m (io_outb p b u)"
    "choice_same m (vga_write s u)" "choice_same m (vga_writehex x k u)"
    "choice_same m (ne2000_isr_wait h' base v n u)" "choice_same m (u\<lparr>ne2000_probe_base := base'\<rparr>)"
  using choice_same_trans [OF assms console_choice [OF ports_only_step [OF io_ports(8) [of u h p]]]]
    choice_same_trans [OF assms console_choice [OF ports_only_step [OF io_ports(1)]]]
    choice_same_trans [OF assms console_choice [OF vga_write_step]]
    choice_same_trans [OF assms console_choice [OF vga_writehex_step]]
    choice_same_trans [OF assms console_choice [OF ports_only_step [OF ne2000_isr_wait_ports [of u h' base v n]]]] assms
  by (auto simp: choice_same_def)

lemma choice_read: "io_inb h p u = (x, u') \<Longrightarrow> choice_same m u \<Longrightarrow> choice_same m u'"
  using choice_frames(1) [of m u h p] by simp

lemma isa_probe_choice: "ne2000_isa_probe h base m = (r, m') \<Longrightarrow> choice_same m m'"
  by (auto simp: ne2000_isa_probe_def Let_def choice_same_def [of m m] split: prod.splits if_splits
      intro!: choice_frames elim!: choice_read)

lemma isa_choice:
  assumes "chosen_net_drv m = None"
  shows "chosen_net_dev (autoprobe_network_card_isa h m) = None \<and>
    chosen_net_drv (autoprobe_network_card_isa h m) \<in> {None, Some Ne2000}"
proof -
  let ?m = "m\<lparr>chosen_net_drv := None, chosen_net_dev := None\<rparr>"
  have "choice_same ?m (snd (ne2000_probe h None ?m))"
    by (auto simp: ne2000_probe_def split: prod.splits if_splits dest!: isa_probe_choice intro: choice_same_trans)
  then show ?thesis
    using autoprobe_drivers_isa [of ?m h]
    by (auto simp: autoprobe_network_card_isa_def split_beta choice_same_def)
qed

lemma autoprobe_outcome:
  assumes "autoprobe_network_card h m = Some m'"
  shows "case find (\<lambda>i. card_driver (pci_devices m ! i) \<noteq> None) [0..<64] of
      Some i \<Rightarrow> m' = m\<lparr>chosen_net_dev := Some i, chosen_net_drv := card_driver (pci_devices m ! i)\<rparr>
    | None \<Rightarrow> chosen_net_dev m' = None \<and> chosen_net_drv m' \<in> {None, Some Ne2000}"
proof -
  let ?m = "m\<lparr>chosen_net_drv := None, chosen_net_dev := None\<rparr>"
  have pci: "autoprobe_pci h [0..<64] ?m = (case find (\<lambda>i. card_driver (pci_devices m ! i) \<noteq> None) [0..<64] of None \<Rightarrow> ?m
    | Some i \<Rightarrow> ?m\<lparr>chosen_net_dev := Some i, chosen_net_drv := card_driver (pci_devices m ! i)\<rparr>)"
    using autoprobe_pci_first [of ?m h "[0..<64]"] by (simp split: option.split)
  show ?thesis
  proof (cases "find (\<lambda>i. card_driver (pci_devices m ! i) \<noteq> None) [0..<64]")
    case (Some i)
    then show ?thesis using assms pci by (simp add: autoprobe_network_card_def Let_def)
  next
    case None
    let ?n = "vga_write (''ISA network cards? '' @ crlf)
      (vga_write (''No PCI cards were automatically identified. Would you like me to probe for'' @ crlf) ?m)"
    obtain c m1 where k: "poll_until (\<lambda>c. c = of_char CHR ''y'' \<or> c > 0) (keyb8042_read_ascii h) ?n = Some (c, m1)"
      and m': "m' = (if c = of_char CHR ''y'' then autoprobe_network_card_isa h m1 else m1)"
      using assms pci None by (auto simp: autoprobe_network_card_def Let_def bind_eq_Some_conv)
    have "choice_same ?m m1"
      using choice_same_trans [OF choice_same_trans [OF console_choice [OF vga_write_step] console_choice [OF vga_write_step]]
        console_choice [OF ports_only_step [OF read_ascii_ports [OF k]]]] .
    then have "chosen_net_dev m1 = None" "chosen_net_drv m1 = None" by (simp_all add: choice_same_def)
    then show ?thesis
      using None m' isa_choice [of m1 h] by auto
  qed
qed

text \<open>
  C25. The automatic probe chooses soundly. If the table holds a PCI function of the network class that a
  driver knows, the first such function and its driver are chosen and the user is not asked.
  Otherwise the choice is left empty unless the user agrees to the ISA probe, and then it can only
  be the NE-2000. The disabled RealTek 8139 driver is never chosen.
\<close>

theorem autoprobe_choice:
  assumes "autoprobe_network_card h m = Some m'"
  shows "case find (\<lambda>i. card_driver (pci_devices m ! i) \<noteq> None) [0..<64] of
      Some i \<Rightarrow> m' = m\<lparr>chosen_net_dev := Some i, chosen_net_drv := card_driver (pci_devices m ! i)\<rparr>
    | None \<Rightarrow> chosen_net_dev m' = None \<and> chosen_net_drv m' \<in> {None, Some Ne2000}"
  using assms by (rule autoprobe_outcome)

definition probe_example :: ne2000 where
  "probe_example = ne2000_example\<lparr>pci_devices :=
    pci_device_zero # pci_device_zero\<lparr>device_id := 0x2000, vendor_id := 0x1022, class_code := 0x020000\<rparr> #
    replicate 62 pci_device_zero\<rparr>"

theorem autoprobe_choice_witness:
  "\<exists>m. autoprobe_network_card rtl8101_idle_hw probe_example = Some m \<and> chosen_net_dev m = Some 1 \<and>
    chosen_net_drv m = Some Pcnet32"
proof -
  have f: "find (\<lambda>i. card_driver (pci_devices probe_example ! i) \<noteq> None) [0..<64] = Some 1"
    by (simp add: probe_example_def card_driver_def pci_device_zero_def upt_rec [of _ 64])
  let ?m = "probe_example\<lparr>chosen_net_drv := None, chosen_net_dev := None\<rparr>"
  have "autoprobe_pci rtl8101_idle_hw [0..<64] ?m =
      ?m\<lparr>chosen_net_dev := Some 1, chosen_net_drv := card_driver (pci_devices ?m ! 1)\<rparr>"
    using autoprobe_pci_first [of ?m rtl8101_idle_hw "[0..<64]"] f by simp
  then obtain m where m: "autoprobe_network_card rtl8101_idle_hw probe_example = Some m"
    by (simp add: autoprobe_network_card_def Let_def)
  have "card_driver (pci_devices probe_example ! 1) = Some Pcnet32"
    by (simp add: probe_example_def card_driver_def pci_device_zero_def)
  then have "chosen_net_dev m = Some 1 \<and> chosen_net_drv m = Some Pcnet32"
    using autoprobe_choice [OF m] by (simp only: f option.case) simp
  then show ?thesis using m by blast
qed

end
