(* ===== verification/Packet.thy ===== *)
theory Packet
  imports Network
begin

text \<open>
  The packet code of \<^verbatim>\<open>src/eth/c-main.c\<close>: byte order and checksums, ARP, IPv4 and ICMP, and
  the number parsing and printing that the UDP commands use. Packets are read and built in place,
  in byte memory, exactly where the code does.
\<close>

section \<open>Byte order and checksums\<close>

definition ntoh16 :: "u16 \<Rightarrow> u16" where
  "ntoh16 x = push_bit 8 x OR drop_bit 8 x"

definition ntoh32 :: "u32 \<Rightarrow> u32" where
  "ntoh32 x = (let x = drop_bit 16 x OR push_bit 16 x
     in drop_bit 8 (x AND 0xFF00FF00) OR push_bit 8 (x AND 0x00FF00FF))"

text \<open>One round of the checksum loops: add, fold the carry back, keep 16 bits.\<close>

definition chksum_step :: "u32 \<Rightarrow> u32 \<Rightarrow> u32" where
  "chksum_step c wd = (let c = c + wd; c = c + drop_bit 16 c in c AND 0xFFFF)"

text \<open>The loop over \<open>n\<close> half-words at \<open>p\<close> that leaves out the checksum field, number \<open>skip\<close>.\<close>

definition chksum_loop :: "memory \<Rightarrow> u32 \<Rightarrow> nat \<Rightarrow> nat \<Rightarrow> u32 \<Rightarrow> u32" where
  "chksum_loop mm p skip n c =
    fold (\<lambda>i c. if i \<noteq> skip then chksum_step c (ucast (ntoh16 (load16 mm (p + 2 * of_nat i)))) else c) [0..<n] c"

text \<open>
  Installing a checksum, as every reply does it: the complement of the sum over the other \<open>n\<close>
  half-words, most significant byte first, into half-word \<open>k\<close>.
\<close>

definition chksum_install :: "memory \<Rightarrow> u32 \<Rightarrow> nat \<Rightarrow> nat \<Rightarrow> memory" where
  "chksum_install mm p k n =
    (let chksum = chksum_loop mm p k n 0;
         ret_hdr_chksum = ucast (NOT chksum) :: u16;
         mm = mem_write mm (p + of_nat (2 * k)) [ucast (drop_bit 8 ret_hdr_chksum)]
     in mem_write mm (p + of_nat (2 * k + 1)) [ucast ret_hdr_chksum])"

section \<open>Numbers in commands\<close>

definition skip_whitespace :: "memory \<Rightarrow> u32 \<Rightarrow> u32 option" where
  "skip_whitespace mm p = while_option (\<lambda>p. mm p = 0x20) (\<lambda>p. p + 1) p"

definition chartohex :: "int \<Rightarrow> int" where
  "chartohex c =
    (if c \<ge> of_char CHR ''0'' \<and> c \<le> of_char CHR ''9'' then c - of_char CHR ''0''
     else if c \<ge> of_char CHR ''a'' \<and> c \<le> of_char CHR ''f'' then (c - of_char CHR ''a'') + 10
     else if c \<ge> of_char CHR ''A'' \<and> c \<le> of_char CHR ''F'' then (c - of_char CHR ''A'') + 10
     else -1)"

definition s_strtoul_hex :: "memory \<Rightarrow> u32 \<Rightarrow> (u32 \<times> u32) option" where
  "s_strtoul_hex mm p =
    (let p = (if memcmp (load_bytes mm p 2) (bytes_of ''0x'') = 0 then p + 2 else p)
     in while_option (\<lambda>(val, p). chartohex (uint (mm p)) \<ge> 0)
          (\<lambda>(val, p). (push_bit 4 val OR of_int (chartohex (uint (mm p))), p + 1)) (0, p))"

definition s_strtoul_dec :: "memory \<Rightarrow> u32 \<Rightarrow> (u32 \<times> u32) option" where
  "s_strtoul_dec mm p =
    while_option (\<lambda>(val, p). chartohex (uint (mm p)) \<ge> 0 \<and> \<not> chartohex (uint (mm p)) \<ge> 10)
      (\<lambda>(val, p). (val * 10 + of_int (chartohex (uint (mm p))), p + 1)) (0, p)"

fun hex_to_str :: "memory \<Rightarrow> u32 \<Rightarrow> u32 \<Rightarrow> nat \<Rightarrow> memory \<times> u32" where
  "hex_to_str mm p x 0 = (mm, p)"
| "hex_to_str mm p x (Suc digits) =
    hex_to_str (mem_write mm p [hexdigit (unat (drop_bit 28 x))]) (p + 1) (push_bit 4 x) digits"

section \<open>State of the debugger\<close>

record dbg = ne2000 +
  udp_resp_hdr :: u32
  udp_resp_data :: u32
  udp_resp_len :: u32
  exec_last_seq :: u32

abbreviation (input) ETH_TYPE_ARP :: u16 where "ETH_TYPE_ARP \<equiv> 0x0806"
abbreviation (input) ETH_TYPE_IPv4 :: u16 where "ETH_TYPE_IPv4 \<equiv> 0x0800"
abbreviation (input) ARP_TYPE_ETH :: u16 where "ARP_TYPE_ETH \<equiv> 1"
abbreviation (input) ARP_TYPE_IPv4 :: u16 where "ARP_TYPE_IPv4 \<equiv> 0x0800"
abbreviation (input) ARP_REQUEST :: u16 where "ARP_REQUEST \<equiv> 1"
abbreviation (input) ARP_REPLY :: u16 where "ARP_REPLY \<equiv> 2"
abbreviation (input) IPv4_PROTO_ICMP :: u8 where "IPv4_PROTO_ICMP \<equiv> 1"
abbreviation (input) IPv4_PROTO_UDP :: u8 where "IPv4_PROTO_UDP \<equiv> 0x11"

text \<open>The reply header every handler fills in: back to the sender, from this machine.\<close>

definition reply_eth :: "u16 \<Rightarrow> ethernet_frame_header \<Rightarrow> 'a net_scheme \<Rightarrow> ethernet_frame_header" where
  "reply_eth ty eth m = \<lparr>dst_mac = src_mac eth, src_mac = my_eth_mac m, eth_type = ntoh16 ty\<rparr>"

section \<open>ARP\<close>

text \<open>Filling in the reply at \<open>ret\<close> (lines 236 to 245).\<close>

definition arp_reply_fill :: "u32 \<Rightarrow> u32 \<Rightarrow> 'a net_scheme \<Rightarrow> memory" where
  "arp_reply_fill ret pkt m =
    (let mm = store16 (mem m) ret (ntoh16 ARP_TYPE_ETH);
         mm = store16 mm (ret + 2) (ntoh16 ARP_TYPE_IPv4);
         mm = mem_write mm (ret + 4) [6];
         mm = mem_write mm (ret + 5) [4];
         mm = store16 mm (ret + 6) (ntoh16 ARP_REPLY);
         mm = mem_write mm (ret + 8) (my_eth_mac m);
         mm = mem_write mm (ret + 14) (my_ipv4_address m);
         mm = memcpy mm (ret + 18) (pkt + 8) 6
     in memcpy mm (ret + 24) (pkt + 14) 4)"

definition net_on_arp_IPv4 ::
  "'h rtl8101_hw_scheme \<Rightarrow> ethernet_frame_header \<Rightarrow> u32 \<Rightarrow> int \<Rightarrow> 'a dbg_scheme \<Rightarrow> 'a dbg_scheme option" where
  "net_on_arp_IPv4 h eth pkt sz m =
    (if mem m (pkt + 5) \<noteq> 4 then Some m
     else if ntoh16 (load16 (mem m) (pkt + 6)) \<noteq> ARP_REQUEST then Some m
     else if memcmp (load_bytes (mem m) (pkt + 24) 4) (my_ipv4_address m) \<noteq> 0 then Some m
     else do {
       (r, m) \<leftarrow> net_prepare_send_packet h 28 (reply_eth ETH_TYPE_ARP eth m) m;
       case r of
         None \<Rightarrow> Some (vga_write (''ARP: cannot construct packet to answer'' @ crlf) m)
       | Some ret \<Rightarrow> do {
           let m = m\<lparr>mem := arp_reply_fill ret pkt m\<rparr>;
           m \<leftarrow> net_send_packet h m;
           Some (vga_write (''Someone is looking for me, replying to ARP request'' @ crlf) m) } })"

definition net_on_arp ::
  "'h rtl8101_hw_scheme \<Rightarrow> ethernet_frame_header \<Rightarrow> u32 \<Rightarrow> int \<Rightarrow> 'a dbg_scheme \<Rightarrow> 'a dbg_scheme option" where
  "net_on_arp h eth pkt sz m =
    (if ntoh16 (load16 (mem m) pkt) \<noteq> ARP_TYPE_ETH \<or> mem m (pkt + 4) \<noteq> 6 then Some m
     else if ntoh16 (load16 (mem m) (pkt + 2)) = ARP_TYPE_IPv4 then net_on_arp_IPv4 h eth pkt sz m
     else Some m)"

section \<open>IPv4 replies\<close>

text \<open>
  The IPv4 header both kinds of reply build at \<open>ret\<close> for \<open>n\<close> bytes in all: cleared, filled in,
  then checksummed (lines 303 to 325 and 620 to 642).
\<close>

definition ipv4_reply_header :: "u32 \<Rightarrow> u32 \<Rightarrow> u8 \<Rightarrow> u32 \<Rightarrow> 'a net_scheme \<Rightarrow> memory" where
  "ipv4_reply_header ret n proto src_ip m =
    (let mm = memset (mem m) ret 0 n;
         mm = mem_write mm ret [0x45];
         mm = mem_write mm (ret + 2) [ucast (drop_bit 8 n)];
         mm = mem_write mm (ret + 3) [ucast n];
         mm = mem_write mm (ret + 6) [push_bit 5 2];
         mm = mem_write mm (ret + 8) [0x40];
         mm = mem_write mm (ret + 9) [proto];
         mm = mem_write mm (ret + 12) (my_ipv4_address m);
         mm = memcpy mm (ret + 16) src_ip 4
     in chksum_install mm ret 5 (20 div 2))"

text \<open>The response at \<open>ret\<close> with room for \<open>len\<close> bytes of data (lines 303 to 332).\<close>

definition udp_response_fill :: "u32 \<Rightarrow> u32 \<Rightarrow> u16 \<Rightarrow> u16 \<Rightarrow> int \<Rightarrow> 'a net_scheme \<Rightarrow> memory" where
  "udp_response_fill ret src_ip src_port dst_port len m =
    (let ipv4_len = 0x14 + 8 + of_int len;
         mm = ipv4_reply_header ret ipv4_len IPv4_PROTO_UDP src_ip m;
         udp_len = of_int (len + 8) :: u16;
         udp_header = ret + 0x14;
         mm = store16 mm (udp_header + 0) (ntoh16 dst_port);
         mm = store16 mm (udp_header + 2) (ntoh16 src_port);
         mm = store16 mm (udp_header + 4) (ntoh16 udp_len)
     in store16 mm (udp_header + 6) 0)"

definition make_udp_response ::
  "'h rtl8101_hw_scheme \<Rightarrow> ethernet_frame_header \<Rightarrow> u32 \<Rightarrow> u16 \<Rightarrow> u16 \<Rightarrow> int \<Rightarrow> 'a dbg_scheme \<Rightarrow>
    (u32 option \<times> 'a dbg_scheme) option" where
  "make_udp_response h eth src_ip src_port dst_port len m =
    (if len < 0 \<or> len > 1600 - 20 then Some (None, m)
     else do {
       (r, m) \<leftarrow> net_prepare_send_packet h (0x14 + 8 + len) (reply_eth ETH_TYPE_IPv4 eth m) m;
       case r of
         None \<Rightarrow> Some (None, set_fault Missing_Return
           (vga_write (''ARP: cannot construct packet to answer'' @ crlf) m))
       | Some ret \<Rightarrow>
           let mm = udp_response_fill ret src_ip src_port dst_port len m;
               udp_header = ret + 0x14;
               udp_data = udp_header + 8
           in Some (Some udp_data, m\<lparr>mem := mm, udp_resp_hdr := udp_header, udp_resp_data := udp_data,
                udp_resp_len := of_int len\<rparr>) })"

definition send_udp_response :: "'h rtl8101_hw_scheme \<Rightarrow> 'a dbg_scheme \<Rightarrow> 'a dbg_scheme option" where
  "send_udp_response h m = net_send_packet h m"

section \<open>ICMP\<close>

text \<open>Building the echo reply behind the IPv4 header at \<open>ret\<close> (lines 620 to 660).\<close>

definition icmp_reply_fill :: "u32 \<Rightarrow> u32 \<Rightarrow> u32 \<Rightarrow> int \<Rightarrow> 'a net_scheme \<Rightarrow> memory" where
  "icmp_reply_fill ret src_ip pkt len m =
    (let mm = ipv4_reply_header ret (0x14 + of_int len) IPv4_PROTO_ICMP src_ip m;
         icmp = ret + 0x14;
         mm = memcpy mm icmp pkt (of_int len);
         mm = mem_write mm icmp [0x00]
     in chksum_install mm icmp 1 (nat (len div 2)))"

definition net_on_ipv4_icmp ::
  "'h rtl8101_hw_scheme \<Rightarrow> ethernet_frame_header \<Rightarrow> u32 \<Rightarrow> u32 \<Rightarrow> int \<Rightarrow> 'a dbg_scheme \<Rightarrow> 'a dbg_scheme option" where
  "net_on_ipv4_icmp h eth src_ip pkt len m =
    (if len < 8 then Some m
     else
       let chksum = (NOT (chksum_loop (mem m) pkt 1 (nat (len div 2)) 0)) AND 0xFFFF;
           hdr_chksum = ntoh16 (load16 (mem m) (pkt + 2))
       in if chksum \<noteq> ucast hdr_chksum then Some m
          else if mem m pkt = 8 \<and> mem m (pkt + 1) = 0 then do {
            let m = vga_write (''ICMP echo request, sending reply'' @ crlf) m;
            (r, m) \<leftarrow> net_prepare_send_packet h (0x14 + len) (reply_eth ETH_TYPE_IPv4 eth m) m;
            case r of
              None \<Rightarrow> Some (vga_write (''ARP: cannot construct packet to answer'' @ crlf) m)
            | Some ret \<Rightarrow> net_send_packet h (m\<lparr>mem := icmp_reply_fill ret src_ip pkt len m\<rparr>) }
          else Some m)"

section \<open>One's complement sums\<close>

text \<open>The half-word number \<open>i\<close> at \<open>p\<close>, most significant byte first.\<close>

definition word_be :: "memory \<Rightarrow> u32 \<Rightarrow> nat \<Rightarrow> nat" where
  "word_be mm p i = 256 * unat (mm (p + 2 * of_nat i)) + unat (mm (p + 2 * of_nat i + 1))"

lemma unat_or_bytes:
  fixes a b :: u8
  shows "unat (push_bit 8 (ucast a) OR ucast b :: u16) = 256 * unat a + unat b"
proof -
  have "push_bit 8 (ucast a :: u16) AND ucast b = 0"
    by (rule bit_word_eqI) (auto simp: bit_simps dest: bit_imp_le_length)
  then have "push_bit 8 (ucast a :: u16) OR ucast b = push_bit 8 (ucast a) + ucast b"
    by (rule disjunctive_add_eq_or [symmetric])
  moreover have "unat (push_bit 8 (ucast a :: u16)) = 256 * unat a"
    using unat_bounds(1) [of a]
    by (simp add: push_bit_eq_mult unat_word_ariths(2))
  moreover have "256 * unat a + unat b < 65536" using unat_bounds(1) [of a] unat_bounds(1) [of b] by linarith
  ultimately show ?thesis by (simp add: unat_word_ariths(1))
qed

lemma ntoh16_load16: "unat (ntoh16 (load16 mm q)) = 256 * unat (mm q) + unat (mm (q + 1))"
proof -
  have "ntoh16 (load16 mm q) = push_bit 8 (ucast (mm q)) OR ucast (mm (q + 1))"
    unfolding ntoh16_def load16_def
    by (rule bit_word_eqI) (auto simp: bit_simps dest: bit_imp_le_length)
  then show ?thesis by (simp only: unat_or_bytes)
qed

lemma chksum_step_small:
  fixes c w :: u32
  assumes "unat c < 65536" and "unat w < 65536"
  shows "unat (chksum_step c w) = (if unat c + unat w < 65536 then unat c + unat w else unat c + unat w - 65535)"
proof -
  have s: "unat (c + w) = unat c + unat w" using assms by (simp add: unat_word_ariths(1))
  have d: "unat (drop_bit 16 (c + w)) = (unat c + unat w) div 65536"
    by (simp only: unat_drop_bit_eq s) (simp add: drop_bit_eq_div)
  have m: "(x :: u32) AND 0xFFFF = take_bit 16 x" for x by (simp add: take_bit_eq_mask mask_eq_exp_minus_1)
  have "unat c + unat w < 131072" using assms by linarith
  then have "(unat c + unat w) div 65536 = (if unat c + unat w < 65536 then 0 else 1)" by auto
  then have "unat (c + w + drop_bit 16 (c + w)) =
      unat c + unat w + (if unat c + unat w < 65536 then 0 else 1)"
    using d s assms by (simp add: unat_word_ariths(1) [of "c + w"])
  moreover have "Suc (unat c + unat w) mod 65536 = unat c + unat w - 65535" if "\<not> unat c + unat w < 65536"
    using that assms by (simp add: le_mod_geq)
  ultimately show ?thesis
    using assms by (simp add: chksum_step_def Let_def m unsigned_take_bit_eq take_bit_nat_def)
qed

lemma chksum_step_mod:
  fixes c w :: u32
  assumes "unat c < 65536" and "unat w < 65536"
  shows "unat (chksum_step c w) mod 65535 = (unat c + unat w) mod 65535"
    and "unat (chksum_step c w) < 65536"
    and "unat (chksum_step c w) = 0 \<longleftrightarrow> unat c = 0 \<and> unat w = 0"
proof -
  show "unat (chksum_step c w) mod 65535 = (unat c + unat w) mod 65535"
    using chksum_step_small [OF assms] le_mod_geq [of 65535 "unat c + unat w"] by auto
  show "unat (chksum_step c w) < 65536" "unat (chksum_step c w) = 0 \<longleftrightarrow> unat c = 0 \<and> unat w = 0"
    using chksum_step_small [OF assms] assms by auto
qed

lemma chksum_loop_mod:
  fixes mm p skip n
  assumes "unat c < 65536"
  defines "r \<equiv> unat (chksum_loop mm p skip n c)"
  shows "r < 65536 \<and> r mod 65535 = (unat c + (\<Sum>i\<leftarrow>filter (\<lambda>i. i \<noteq> skip) [0..<n]. word_be mm p i)) mod 65535 \<and>
    (r = 0 \<longleftrightarrow> unat c = 0 \<and> (\<forall>i < n. i \<noteq> skip \<longrightarrow> word_be mm p i = 0))"
  unfolding r_def
proof (induction n)
  case 0
  then show ?case using assms by (simp add: chksum_loop_def)
next
  case (Suc n)
  let ?c = "chksum_loop mm p skip n c" and ?w = "ucast (ntoh16 (load16 mm (p + 2 * of_nat n))) :: u32"
  have w: "unat ?w = word_be mm p n" by (simp add: ntoh16_load16 word_be_def)
  have w16: "unat ?w < 65536" by simp
  have c16: "unat ?c < 65536" using Suc by simp
  have loop: "chksum_loop mm p skip (Suc n) c = (if n \<noteq> skip then chksum_step ?c ?w else ?c)"
    by (simp add: chksum_loop_def)
  note st = chksum_step_mod [OF c16 w16]
  show ?case
  proof (cases "n = skip")
    case True
    then show ?thesis using Suc loop by (auto simp: less_Suc_eq)
  next
    case False
    have "unat (chksum_step ?c ?w) mod 65535 = (unat ?c mod 65535 + word_be mm p n) mod 65535"
      using st(1) w by (simp add: mod_simps)
    then have "unat (chksum_step ?c ?w) mod 65535 =
        (unat c + (\<Sum>i\<leftarrow>filter (\<lambda>i. i \<noteq> skip) [0..<n]. word_be mm p i) + word_be mm p n) mod 65535"
      using Suc by (simp add: mod_simps)
    then show ?thesis using Suc loop False st(2,3) w by (auto simp: less_Suc_eq add.assoc)
  qed
qed

lemma sum_filter_skip:
  fixes f :: "nat \<Rightarrow> nat"
  assumes "k < n"
  shows "(\<Sum>i\<leftarrow>[0..<n]. f i) = (\<Sum>i\<leftarrow>filter (\<lambda>i. i \<noteq> k) [0..<n]. f i) + f k"
  using assms
proof (induction n)
  case (Suc n)
  then show ?case by (cases "k = n") (auto simp: filter_id_conv [THEN iffD2])
qed simp

text \<open>
  Installing a checksum: the half-words left out of the sum are unchanged, the field reads back as the
  complement, and the sum over all half-words is the all-ones word.
\<close>

lemma chksum_install_bytes:
  fixes mm p k n
  defines "ck \<equiv> ucast (NOT (chksum_loop mm p k n 0)) :: u16"
  assumes "2 * k + 1 < 2 ^ 32" and "j < 2 ^ 32"
  shows "chksum_install mm p k n (p + of_nat j) =
    (if j = 2 * k then ucast (drop_bit 8 ck) else if j = 2 * k + 1 then ucast ck else mm (p + of_nat j))"
proof -
  have e: "mem_write u (p + of_nat a) [b] (p + of_nat j) = (if j = a then b else u (p + of_nat j))"
    if "a < 2 ^ 32" for u a b
  proof -
    have "(p + of_nat j - (p + of_nat a) = (0 :: u32)) = (j = a)"
      using that assms(3) by (auto simp: word_of_nat_eq_iff take_bit_nat_eq_self_iff [THEN iffD2])
    then show ?thesis by (auto simp: mem_write_def unat_eq_0 less_one)
  qed
  show ?thesis
    unfolding chksum_install_def Let_def ck_def [symmetric] using assms(2) by (simp only: e) auto
qed

lemma word_be_offset: "word_be mm p i = 256 * unat (mm (p + of_nat (2 * i))) + unat (mm (p + of_nat (2 * i + 1)))"
  by (simp add: word_be_def ac_simps)

lemma chksum_loop_cong:
  assumes "\<And>i. i < n \<Longrightarrow> i \<noteq> skip \<Longrightarrow> load16 mm (p + 2 * of_nat i) = load16 mm' (p + 2 * of_nat i)"
  shows "chksum_loop mm p skip n c = chksum_loop mm' p skip n c"
  unfolding chksum_loop_def by (rule fold_cong) (auto simp: assms)

lemma not_unat_16: "unat (r :: u32) < 65536 \<Longrightarrow> unat (ucast (NOT r) :: u16) = 65535 - unat r"
proof -
  assume r: "unat r < 65536"
  let ?x = "ucast r :: u16"
  have x: "unat ?x = unat r" using r by (simp add: unsigned_ucast_eq take_bit_nat_eq_self)
  have "(ucast (NOT r) :: u16) = NOT ?x" by (rule bit_word_eqI) (simp add: bit_simps)
  also have "\<dots> = -1 - ?x" by (simp add: not_eq_complement)
  finally have "unat (ucast (NOT r) :: u16) = unat (-1 :: u16) - unat ?x" by (simp only: unat_sub word_n1_ge)
  then show ?thesis using x by (simp add: unsigned_minus_1_eq_mask mask_eq_exp_minus_1)
qed

lemma be_bytes: "256 * unat (ucast (drop_bit 8 w) :: u8) + unat (ucast w :: u8) = unat (w :: u16)"
proof -
  have "push_bit 8 (ucast (ucast (drop_bit 8 w) :: u8)) OR ucast (ucast w :: u8) = w"
    by (rule bit_word_eqI) (auto simp: bit_simps)
  then show ?thesis using unat_or_bytes [of "ucast (drop_bit 8 w)" "ucast w"] by simp
qed

lemma chksum_install_correct:
  fixes mm p k n
  defines "mm' \<equiv> chksum_install mm p k n"
  assumes "k < n" and "2 * n < 2 ^ 32"
  shows "chksum_loop mm' p k n 0 = chksum_loop mm p k n 0"
    and "ntoh16 (load16 mm' (p + of_nat (2 * k))) = ucast (NOT (chksum_loop mm p k n 0))"
    and "chksum_loop mm' p n n 0 = 0xFFFF"
proof -
  let ?r = "chksum_loop mm p k n 0" and ?ck = "ucast (NOT (chksum_loop mm p k n 0)) :: u16"
  have b: "mm' (p + of_nat j) = (if j = 2 * k then ucast (drop_bit 8 ?ck) else if j = 2 * k + 1 then ucast ?ck
      else mm (p + of_nat j))" if "j < 2 * n" for j
    unfolding mm'_def using assms(2,3) that by (intro chksum_install_bytes) simp_all
  have l: "load16 mm' (p + 2 * of_nat i) = load16 mm (p + 2 * of_nat i)" if "i < n" "i \<noteq> k" for i
  proof -
    have "2 * i \<noteq> 2 * k + 1" "2 * i + 1 \<noteq> 2 * k" by presburger+
    then have "mm' (p + of_nat (2 * i)) = mm (p + of_nat (2 * i))" "mm' (p + of_nat (2 * i + 1)) = mm (p + of_nat (2 * i + 1))"
      using b [of "2 * i"] b [of "2 * i + 1"] that by simp_all
    then show ?thesis by (simp add: load16_def ac_simps)
  qed
  then show loop: "chksum_loop mm' p k n 0 = ?r" by (intro chksum_loop_cong) auto
  have w: "word_be mm' p k = unat ?ck"
    using b [of "2 * k"] b [of "2 * k + 1"] assms(2) be_bytes [of ?ck] by (simp add: word_be_offset del: of_nat_mult of_nat_add)
  show "ntoh16 (load16 mm' (p + of_nat (2 * k))) = ?ck"
    using w by (simp add: word_unat_eq_iff ntoh16_load16 word_be_offset ac_simps)
  have m: "unat ?r < 65536" using chksum_loop_mod [of 0 mm p k n] by simp
  let ?F = "unat (chksum_loop mm' p n n 0)"
  have all: "filter (\<lambda>i. i \<noteq> n) [0..<n] = [0..<n]" by (simp add: filter_id_conv)
  let ?S = "\<Sum>i\<leftarrow>filter (\<lambda>i. i \<noteq> k) [0..<n]. word_be mm' p i"
  have "?F mod 65535 = (\<Sum>i\<leftarrow>[0..<n]. word_be mm' p i) mod 65535"
    using chksum_loop_mod [of 0 mm' p n n] unfolding all by simp
  also have "\<dots> = (?S + word_be mm' p k) mod 65535" by (simp only: sum_filter_skip [OF assms(2)])
  also have "\<dots> = (unat ?r + word_be mm' p k) mod 65535"
    using chksum_loop_mod [of 0 mm' p k n] by (intro mod_add_cong) (simp_all add: loop)
  also have "\<dots> = 0" using w not_unat_16 [OF m] m by simp
  finally have z: "?F mod 65535 = 0" .
  have "?F \<noteq> 0"
  proof
    assume "?F = 0"
    then have "\<forall>i < n. word_be mm' p i = 0" using chksum_loop_mod [of 0 mm' p n n] by simp
    moreover then have "unat ?r = 0" using chksum_loop_mod [of 0 mm' p k n] loop by simp
    ultimately show False using w not_unat_16 [OF m] assms(2) by simp
  qed
  moreover have "?F < 65536" using chksum_loop_mod [of 0 mm' p n n] by simp
  ultimately have "?F = 65535" using z by (cases "?F < 65535") auto
  then show "chksum_loop mm' p n n 0 = 0xFFFF" by (simp add: word_unat_eq_iff)
qed

section \<open>The bytes of a reply\<close>

text \<open>The IPv4 header a reply starts with, without and with its checksum.\<close>

definition ipv4_bytes :: "u32 \<Rightarrow> u8 \<Rightarrow> u8 \<Rightarrow> u8 \<Rightarrow> u8 list \<Rightarrow> u8 list \<Rightarrow> u8 list" where
  "ipv4_bytes n proto c1 c2 me you =
    [0x45, 0, ucast (drop_bit 8 n), ucast n, 0, 0, 0x40, 0, 0x40, proto, c1, c2] @ me @ you"

lemma splice_rest: "k + length bs \<le> length xs \<Longrightarrow> splice k bs (xs @ ys) = splice k bs xs @ ys"
  by (simp add: splice_def)

lemma ipv4_reply_bytes:
  fixes m :: "'a net_scheme"
  assumes me: "length (my_ipv4_address m) = 4" and n: "20 \<le> unat n" and src: "apart src_ip 4 ret (unat n)"
  shows "\<exists>c1 c2. load_bytes (ipv4_reply_header ret n proto src_ip m) ret (unat n) =
    ipv4_bytes n proto c1 c2 (my_ipv4_address m) (load_bytes (mem m) src_ip 4) @ replicate (unat n - 20) 0"
proof -
  have N: "unat n < 2 ^ 32" using unat_bounds(3) [of n] by simp
  define R where "R = replicate (unat n - 20) (0 :: u8)"
  obtain a b c d where me4: "my_ipv4_address m = [a, b, c, d]"
    using me by (auto simp: length_Suc_conv eval_nat_numeral)
  obtain a' b' c' d' where you4: "load_bytes (mem m) src_ip 4 = [a', b', c', d']"
    by (auto simp: load_bytes_def eval_nat_numeral)
  have r: "replicate (unat n) (0 :: u8) = replicate 20 0 @ R"
    using n by (simp add: R_def flip: replicate_add)
  have k: "replicate 20 (0 :: u8) = [0, 0, 0, 0, 0, 0, 0, 0, 0, 0, 0, 0, 0, 0, 0, 0, 0, 0, 0, 0]"
    by (simp add: eval_nat_numeral)
  have l: "length R = unat n - 20" by (simp add: R_def)
  show ?thesis
    unfolding ipv4_reply_header_def Let_def chksum_install_def memcpy_def memset_def ipv4_bytes_def R_def [symmetric]
    using n N src
    by (simp add: view_write view_write_0 outside_write outside_write_0 me4 you4 del: of_nat_mult)
      (simp add: r k l splice_def del: of_nat_mult)
qed

lemma apart_sub:
  assumes "apart p n a l" and "j + k \<le> n" and "0 < k"
  shows "apart (p + of_nat j) k a l"
proof -
  have "n \<le> unat (a - p)" using assms(1) by (simp add: apart_def)
  then have "j < 4294967296" "j \<le> unat (a - p)" using assms(2,3) unat_bounds(3) [of "a - p"] by linarith+
  then have j: "unat (of_nat j :: u32) = j" "j \<le> unat (a - p)"
    by (simp_all add: unat_of_nat_small)
  then have "unat ((a - p) - of_nat j) = unat (a - p) - j"
    by (simp only: unat_sub word_le_nat_alt)
  then have "unat (a - (p + of_nat j)) = unat (a - p) - j" by (simp only: diff_diff_eq)
  then show ?thesis using assms apart_not_in [OF assms(1), of j] by (auto simp: apart_def)
qed

lemma ipv4_reply_only:
  assumes "length (my_ipv4_address m) = 4" and "20 \<le> unat n"
  shows "only_in (mem m) (ipv4_reply_header ret n proto src_ip m) ret (unat n)"
  unfolding ipv4_reply_header_def Let_def chksum_install_def memcpy_def memset_def using assms
  by (simp add: only_in_write only_in_write_0 del: of_nat_mult)

text \<open>An installed checksum passes the test that the receive paths make.\<close>

lemma chksum_accepted:
  fixes mm p k n
  defines "mm' \<equiv> chksum_install mm p k n"
  assumes "k < n" and "2 * n < 2 ^ 32"
  shows "(NOT (chksum_loop mm' p k n 0)) AND 0xFFFF = (ucast (ntoh16 (load16 mm' (p + of_nat (2 * k)))) :: u32)"
proof -
  have "ntoh16 (load16 mm' (p + of_nat (2 * k))) = ucast (NOT (chksum_loop mm' p k n 0))"
    using chksum_install_correct(1,2) [OF assms(2,3), of mm p] by (simp add: mm'_def)
  moreover have "(x :: u32) AND 0xFFFF = take_bit 16 x" for x
    by (simp add: take_bit_eq_mask mask_eq_exp_minus_1)
  ultimately show ?thesis by (auto intro!: bit_word_eqI simp: bit_simps)
qed

text \<open>The receivers' test against the sum of all half-words: it differs only for a field of minus zero.\<close>

lemma ones_complement_cases:
  fixes s f T :: nat
  assumes "s < 65536" "f < 65536" "T < 65536" and "T mod 65535 = (s + f) mod 65535" and "T = 0 \<longleftrightarrow> s = 0 \<and> f = 0"
  shows "65535 - s = f \<longleftrightarrow> T = 65535 \<and> (f = 65535 \<longrightarrow> s = 0)"
proof -
  have T: "T mod 65535 = (if T = 65535 then 0 else T)" using assms(3) by auto
  consider "s + f < 65535" | "s + f = 65535" | "65535 < s + f" "s + f < 131070" | "s = 65535" "f = 65535"
    using assms by linarith
  then show ?thesis
  proof cases
    case 3
    then have "(s + f) mod 65535 = s + f - 65535" by (simp add: le_mod_geq)
    then show ?thesis using 3 T assms by auto
  qed (use T assms in auto)
qed

lemma chksum_test_iff:
  assumes "k < n"
  shows "(NOT (chksum_loop mm p k n 0)) AND 0xFFFF = (ucast (ntoh16 (load16 mm (p + of_nat (2 * k)))) :: u32) \<longleftrightarrow>
    chksum_loop mm p n n 0 = 0xFFFF \<and> (word_be mm p k = 65535 \<longrightarrow> chksum_loop mm p k n 0 = 0)"
proof -
  let ?s = "unat (chksum_loop mm p k n 0)" and ?T = "unat (chksum_loop mm p n n 0)" and ?f = "word_be mm p k"
  have all: "filter (\<lambda>i. i \<noteq> n) [0..<n] = [0..<n]" by (simp add: filter_id_conv)
  have s: "?s < 65536" "?s mod 65535 = (\<Sum>i\<leftarrow>filter (\<lambda>i. i \<noteq> k) [0..<n]. word_be mm p i) mod 65535"
    "?s = 0 \<longleftrightarrow> (\<forall>i < n. i \<noteq> k \<longrightarrow> word_be mm p i = 0)"
    using chksum_loop_mod [of 0 mm p k n] by simp_all
  have T: "?T < 65536" "?T mod 65535 = (\<Sum>i\<leftarrow>[0..<n]. word_be mm p i) mod 65535" "?T = 0 \<longleftrightarrow> (\<forall>i < n. word_be mm p i = 0)"
    using chksum_loop_mod [of 0 mm p n n] unfolding all by simp_all
  have f2: "unat (ntoh16 (load16 mm (p + of_nat (2 * k)))) = ?f" by (simp add: word_be_def ntoh16_load16)
  then have f: "?f < 65536" using unat_bounds(2) [of "ntoh16 (load16 mm (p + of_nat (2 * k)))"] by simp
  have "?T mod 65535 = (?s + ?f) mod 65535"
    unfolding T(2) sum_filter_skip [OF assms] using s(2) by (intro mod_add_cong) simp_all
  moreover have "?T = 0 \<longleftrightarrow> ?s = 0 \<and> ?f = 0" using s(3) T(3) assms by auto
  moreover have "unat ((NOT (chksum_loop mm p k n 0)) AND 0xFFFF) = 65535 - ?s"
  proof -
    have "(x :: u32) AND 0xFFFF = take_bit 16 x" for x by (simp add: take_bit_eq_mask mask_eq_exp_minus_1)
    then have "(x :: u32) AND 0xFFFF = ucast (ucast x :: u16)" for x
      by (auto intro!: bit_word_eqI simp: bit_simps)
    then show ?thesis using not_unat_16 [OF s(1)] by simp
  qed
  ultimately show ?thesis
    using ones_complement_cases [OF s(1) f T(1)] f2 by (simp add: word_unat_eq_iff)
qed

lemma arp_reply_bytes:
  assumes "length (my_eth_mac m) = 6" and "length (my_ipv4_address m) = 4" and "apart pkt 28 ret 28"
  shows "load_bytes (arp_reply_fill ret pkt m) ret 28 =
      [0, 1, 8, 0, 6, 4, 0, 2] @ my_eth_mac m @ my_ipv4_address m @ load_bytes (mem m) (pkt + 8) 10"
    and "only_in (mem m) (arp_reply_fill ret pkt m) ret 28"
proof -
  have b: "le16 (ntoh16 1) = [0, 1]" "le16 (ntoh16 0x800) = [8, 0]" "le16 (ntoh16 2) = [0, 2]"
    by (code_simp)+
  have s: "apart (pkt + 8) 6 ret 28" "apart (pkt + 14) 4 ret 28"
    using apart_sub [OF assms(3), of 8 6] apart_sub [OF assms(3), of 14 4] by simp_all
  have k: "load_bytes (mem m) ret 28 = map (\<lambda>i. mem m (ret + of_nat i)) [0..<28]" by (simp add: load_bytes_def)
  have j: "load_bytes (mem m) (pkt + 8) 10 = load_bytes (mem m) (pkt + 8) 6 @ load_bytes (mem m) (pkt + 14) 4"
    using load_bytes_add [of "mem m" "pkt + 8" 6 4] by (simp add: add.commute [of 14])
  show "load_bytes (arp_reply_fill ret pkt m) ret 28 =
      [0, 1, 8, 0, 6, 4, 0, 2] @ my_eth_mac m @ my_ipv4_address m @ load_bytes (mem m) (pkt + 8) 10"
    unfolding arp_reply_fill_def Let_def memcpy_def store16_def b using assms s
    by (simp add: view_write view_write_0 outside_write outside_write_0 j)
      (simp add: splice_def)
  show "only_in (mem m) (arp_reply_fill ret pkt m) ret 28"
    unfolding arp_reply_fill_def Let_def memcpy_def store16_def b using assms
    by (simp add: only_in_write only_in_write_0)
qed

section \<open>Printing and parsing numbers\<close>

text \<open>The digits that \<^verbatim>\<open>hex_to_str\<close> writes, most significant first.\<close>

primrec hex_digits :: "u32 \<Rightarrow> nat \<Rightarrow> u8 list" where
  "hex_digits x 0 = []"
| "hex_digits x (Suc n) = hexdigit (unat (drop_bit 28 x)) # hex_digits (push_bit 4 x) n"

lemma length_hex_digits [simp]: "length (hex_digits x n) = n"
  by (induction n arbitrary: x) simp_all

lemma mem_write_Cons:
  assumes "length bs + 1 < 2 ^ 32"
  shows "mem_write (mem_write mm p [b]) (p + 1) bs = mem_write mm p (b # bs)"
proof (rule ext)
  fix x :: u32
  show "mem_write (mem_write mm p [b]) (p + 1) bs x = mem_write mm p (b # bs) x"
  proof (cases "x = p")
    case True
    have "unat (-1 :: u32) = 4294967295" by (simp add: unsigned_minus_1_eq_mask mask_eq_exp_minus_1)
    then show ?thesis using True assms by (simp add: mem_write_def)
  next
    case False
    then have "x - p \<noteq> 0" by simp
    then obtain k where k: "unat (x - p) = Suc k" by (cases "unat (x - p)") (auto simp: unat_eq_0)
    have "unat (x - p - 1) = unat (x - p) - 1" using k by (intro unat_minus_one) auto
    then have "unat (x - (p + 1)) = k" using k by (simp add: algebra_simps)
    then show ?thesis using k by (auto simp: mem_write_def)
  qed
qed

lemma hex_to_str_digits:
  "n < 2 ^ 32 \<Longrightarrow> hex_to_str mm p x n = (mem_write mm p (hex_digits x n), p + of_nat n)"
proof (induction n arbitrary: mm p x)
  case 0
  then show ?case by (simp add: mem_write_def)
next
  case (Suc n)
  have "hex_to_str mm p x (Suc n) =
      (mem_write (mem_write mm p [hexdigit (unat (drop_bit 28 x))]) (p + 1) (hex_digits (push_bit 4 x) n), p + 1 + of_nat n)"
    using Suc by simp
  also have "\<dots> = (mem_write mm p (hex_digits x (Suc n)), p + of_nat (Suc n))"
    using Suc.prems by (subst mem_write_Cons) simp_all
  finally show ?case .
qed

definition hex_value :: "u32 \<Rightarrow> u8 list \<Rightarrow> u32" where
  "hex_value = foldl (\<lambda>v d. push_bit 4 v OR of_int (chartohex (uint d)))"

lemma chartohex_hexdigit: "k < 16 \<Longrightarrow> chartohex (uint (hexdigit k)) = int k"
proof -
  have "\<forall>k \<in> set [0..<16]. chartohex (uint (hexdigit k)) = int k" by code_simp
  then show "k < 16 \<Longrightarrow> ?thesis" by auto
qed

lemma top_digit: "unat (drop_bit 28 (x :: u32)) < 16"
proof -
  have "unat (drop_bit 28 x) = unat x div 268435456" by (simp only: unat_drop_bit_eq) (simp add: drop_bit_eq_div)
  then show ?thesis using unat_bounds(3) [of x] by (simp add: less_mult_imp_div_less)
qed

lemma digit_shift:
  fixes v x :: u32
  assumes "n \<le> 7"
  shows "push_bit (4 * n) (push_bit 4 v OR drop_bit 28 x) OR drop_bit (32 - 4 * n) (push_bit 4 x) =
    push_bit (4 * Suc n) v OR drop_bit (32 - 4 * Suc n) x"
proof (rule bit_word_eqI)
  fix j assume "j < LENGTH(32)"
  then have j: "j < 32" by simp
  have out: "\<not> bit x i" if "32 \<le> i" for i using that bit_imp_le_length [of x i] by auto
  consider "j < 4 * n" | "4 * n \<le> j" "j < 4 * n + 4" | "4 * n + 4 \<le> j" by linarith
  then show "bit (push_bit (4 * n) (push_bit 4 v OR drop_bit 28 x) OR drop_bit (32 - 4 * n) (push_bit 4 x)) j =
    bit (push_bit (4 * Suc n) v OR drop_bit (32 - 4 * Suc n) x) j"
  proof cases
    case 1
    then have "4 \<le> 32 + j - 4 * n" "32 + j - 4 * n < 32" using assms by arith+
    then show ?thesis using 1 assms by (simp add: bit_simps)
  next
    case 2
    then have "28 + (j - 4 * n) = 32 - 4 * Suc n + j" using assms by simp
    then show ?thesis using 2 j assms by (auto simp: bit_simps)
  next
    case 3
    then have "32 \<le> 28 + (j - 4 * n)" "32 \<le> 32 - 4 * Suc n + j" using assms by simp_all
    then show ?thesis using 3 j assms out by (simp add: bit_simps add.commute)
  qed
qed

lemma hex_value_digits:
  "n \<le> 8 \<Longrightarrow> hex_value v (hex_digits x n) = push_bit (4 * n) v OR drop_bit (32 - 4 * n) x"
proof (induction n arbitrary: v x)
  case 0
  then show ?case by (simp add: hex_value_def)
next
  case (Suc n)
  have "chartohex (uint (hexdigit (unat (drop_bit 28 x)))) = uint (drop_bit 28 x)"
    by (simp add: chartohex_hexdigit top_digit)
  then have "hex_value v (hex_digits x (Suc n)) = hex_value (push_bit 4 v OR drop_bit 28 x) (hex_digits (push_bit 4 x) n)"
    by (simp add: hex_value_def)
  also have "\<dots> = push_bit (4 * n) (push_bit 4 v OR drop_bit 28 x) OR drop_bit (32 - 4 * n) (push_bit 4 x)"
    using Suc by simp
  also have "\<dots> = push_bit (4 * Suc n) v OR drop_bit (32 - 4 * Suc n) x"
    using Suc.prems by (intro digit_shift) simp
  finally show ?case .
qed

text \<open>The parsing loop runs over the digits and stops at the first byte that is none.\<close>

lemma strtoul_hex_loop:
  assumes "\<forall>d \<in> set ds. 0 \<le> chartohex (uint d)" and "load_bytes mm p (length ds) = ds"
    and "chartohex (uint (mm (p + of_nat (length ds)))) < 0"
  shows "while_option (\<lambda>(val, p). chartohex (uint (mm p)) \<ge> 0)
      (\<lambda>(val, p). (push_bit 4 val OR of_int (chartohex (uint (mm p))), p + 1)) (v, p) =
    Some (hex_value v ds, p + of_nat (length ds))"
  using assms
proof (induction ds arbitrary: v p)
  case Nil
  then show ?case by (subst while_option_unfold) (simp add: hex_value_def)
next
  case (Cons d ds)
  have "load_bytes mm p (Suc (length ds)) = mm p # load_bytes mm (p + 1) (length ds)"
    unfolding load_bytes_def upt_conv_Cons [OF zero_less_Suc] map_Suc_upt [symmetric]
    by (simp add: comp_def algebra_simps)
  then have "mm p = d" "load_bytes mm (p + 1) (length ds) = ds" using Cons.prems(2) by simp_all
  then show ?case
    using Cons.prems Cons.IH [of "p + 1"]
    by (subst while_option_unfold) (simp add: hex_value_def algebra_simps)
qed

lemma hexdigit_is_hex: "k < 16 \<Longrightarrow> 0 \<le> chartohex (uint (hexdigit k))"
  by (simp add: chartohex_hexdigit)

lemma hex_digits_hex: "\<forall>d \<in> set (hex_digits x n). 0 \<le> chartohex (uint d)"
  by (induction n arbitrary: x) (simp_all add: hexdigit_is_hex top_digit)

text \<open>A hexadecimal number as text, and a byte that ends one.\<close>

definition hex_text :: "u8 list \<Rightarrow> bool" where
  "hex_text ds \<longleftrightarrow> ds \<noteq> [] \<and> (\<forall>d \<in> set ds. 0 \<le> chartohex (uint d))"

definition hex_end :: "u8 \<Rightarrow> bool" where
  "hex_end c \<longleftrightarrow> chartohex (uint c) < 0 \<and> c \<noteq> 0x78"

lemma hex_text_digits [simp]: "0 < n \<Longrightarrow> hex_text (hex_digits x n)"
  using hex_digits_hex [of x n] by (cases n) (auto simp: hex_text_def)

lemma hex_value_all [simp]: "hex_value 0 (hex_digits x 8) = x"
  by (simp add: hex_value_digits)

lemma strtoul_hex_text:
  assumes "hex_text ds" and "load_bytes mm p (length ds) = ds" and "hex_end (mm (p + of_nat (length ds)))"
  shows "s_strtoul_hex mm p = Some (hex_value 0 ds, p + of_nat (length ds))"
proof -
  have x: "chartohex (uint (0x78 :: u8)) < 0" by code_simp
  have "mm (p + 1) \<noteq> 0x78"
  proof (cases "length ds = 1")
    case True
    then show ?thesis using assms(3) by (simp add: hex_end_def)
  next
    case False
    then have l: "1 < length ds" using assms(1) by (cases ds) (auto simp: hex_text_def)
    then have "mm (p + 1) \<in> set ds"
      using arg_cong [OF assms(2), of "\<lambda>xs. xs ! 1"] nth_mem [OF l] by simp
    then show ?thesis using assms(1) x by (auto simp: hex_text_def)
  qed
  moreover have "bytes_of ''0x'' = [0x30, 0x78]" by code_simp
  moreover have "load_bytes mm p 2 = [mm p, mm (p + 1)]" by (simp add: load_bytes_def upt_rec)
  ultimately have "memcmp (load_bytes mm p 2) (bytes_of ''0x'') \<noteq> 0"
    using memcmp_eq_0_iff [of "load_bytes mm p 2" "bytes_of ''0x''"] by (simp del: memcmp.simps)
  then show ?thesis
    using strtoul_hex_loop [of ds mm p 0] assms by (simp add: s_strtoul_hex_def Let_def hex_text_def hex_end_def)
qed

lemma hex_text_first: "hex_text ds \<Longrightarrow> load_bytes mm p (length ds) = ds \<Longrightarrow> mm p \<noteq> 0x20"
proof -
  assume t: "hex_text ds" and l: "load_bytes mm p (length ds) = ds"
  have "0 < length ds" using t by (simp add: hex_text_def)
  then have "mm p \<in> set ds" using arg_cong [OF l, of "\<lambda>xs. xs ! 0"] nth_mem [of 0 ds] by simp
  moreover have "chartohex (uint (0x20 :: u8)) < 0" by code_simp
  ultimately show ?thesis using t by (auto simp: hex_text_def)
qed

lemma skip_whitespace_none: "mm p \<noteq> 0x20 \<Longrightarrow> skip_whitespace mm p = Some p"
  by (simp add: skip_whitespace_def while_option_unfold)

lemma skip_whitespace_one: "mm p = 0x20 \<Longrightarrow> mm (p + 1) \<noteq> 0x20 \<Longrightarrow> skip_whitespace mm p = Some (p + 1)"
  by (simp add: skip_whitespace_def while_option_unfold)

lemma load_bytes_append:
  assumes "load_bytes mm p (length (xs @ ys)) = xs @ ys"
  shows "load_bytes mm p (length xs) = xs" "load_bytes mm (p + of_nat (length xs)) (length ys) = ys"
  using assms by (simp_all add: load_bytes_add)

text \<open>The two numbers every command but TEST and LOW carries.\<close>

lemma parse_numbers:
  assumes "hex_text as" and "hex_text bs" and "load_bytes mm p (length (as @ [0x20] @ bs)) = as @ [0x20] @ bs"
    and "hex_end (mm (p + of_nat (length (as @ [0x20] @ bs))))"
  shows "skip_whitespace mm p = Some p"
    and "s_strtoul_hex mm p = Some (hex_value 0 as, p + of_nat (length as))"
    and "skip_whitespace mm (p + of_nat (length as)) = Some (p + of_nat (length as) + 1)"
    and "s_strtoul_hex mm (p + of_nat (length as) + 1) =
      Some (hex_value 0 bs, p + of_nat (length (as @ [0x20] @ bs)))"
proof -
  note l1 = load_bytes_append [OF assms(3)]
  have l2: "load_bytes mm (p + of_nat (length as)) (length ([0x20] @ bs)) = [0x20] @ bs" using l1(2) by simp
  note l3 = load_bytes_append [OF l2]
  have sp: "mm (p + of_nat (length as)) = 0x20" using l3(1) by (simp add: load_bytes_def)
  have b: "load_bytes mm (p + of_nat (length as) + 1) (length bs) = bs" using l3(2) by simp
  have e: "p + of_nat (length as) + 1 + of_nat (length bs) = p + of_nat (length (as @ [0x20] @ bs))" by simp
  show "skip_whitespace mm p = Some p"
    using skip_whitespace_none [of mm p] hex_text_first [OF assms(1) l1(1)] by simp
  have "hex_end 0x20" by code_simp
  then show "s_strtoul_hex mm p = Some (hex_value 0 as, p + of_nat (length as))"
    using strtoul_hex_text [OF assms(1) l1(1)] sp by simp
  show "skip_whitespace mm (p + of_nat (length as)) = Some (p + of_nat (length as) + 1)"
    using skip_whitespace_one [of mm "p + of_nat (length as)"] sp hex_text_first [OF assms(2) b] by simp
  show "s_strtoul_hex mm (p + of_nat (length as) + 1) = Some (hex_value 0 bs, p + of_nat (length (as @ [0x20] @ bs)))"
    using strtoul_hex_text [OF assms(2) b] assms(4) by (simp only: e)
qed

section \<open>Replies as whole frames\<close>

lemma be_inj:
  fixes x y z v :: nat
  assumes "y < 256" and "v < 256"
  shows "256 * x + y = 256 * z + v \<longleftrightarrow> x = z \<and> y = v"
proof
  assume e: "256 * x + y = 256 * z + v"
  then have "(256 * x + y) mod 256 = (256 * z + v) mod 256" by (rule arg_cong)
  then have "y = v" using assms by simp
  then show "x = z \<and> y = v" using e by simp
qed simp

lemma ntoh16_load_iff: "ntoh16 (load16 mm p) = w \<longleftrightarrow> mm p = ucast (drop_bit 8 w) \<and> mm (p + 1) = ucast w"
proof -
  have "ntoh16 (load16 mm p) = w \<longleftrightarrow> 256 * unat (mm p) + unat (mm (p + 1)) =
      256 * unat (ucast (drop_bit 8 w) :: u8) + unat (ucast w :: u8)"
    by (simp add: word_unat_eq_iff ntoh16_load16 be_bytes)
  moreover have "256 * unat a + unat b = 256 * unat c + unat d \<longleftrightarrow> a = c \<and> b = d" for a b c d :: u8
    using be_inj [of "unat b" "unat d" "unat a" "unat c"] unat_bounds(1) [of b] unat_bounds(1) [of d]
    by (simp add: word_unat_eq_iff)
  ultimately show ?thesis by simp
qed

lemma le16_ntoh16: "le16 (ntoh16 w) = [ucast (drop_bit 8 w), ucast w]"
  unfolding le16_def ntoh16_def by (auto intro!: bit_word_eqI simp: bit_simps dest: bit_imp_le_length)

lemma reply_eth_ok:
  "length (src_mac eth) = 6 \<Longrightarrow> length (my_eth_mac m) = 6 \<Longrightarrow> eth_hdr_ok (reply_eth ty eth m)"
  by (simp add: reply_eth_def eth_hdr_ok_def)

lemma reply_eth_bytes:
  "eth_bytes (reply_eth ty eth m) = src_mac eth @ my_eth_mac m @ [ucast (drop_bit 8 ty), ucast ty]"
  by (simp add: reply_eth_def eth_bytes_def le16_ntoh16)

text \<open>An ARP request for this machine's address: the fixed part of the packet and the target.\<close>

definition arp_for_me :: "u32 \<Rightarrow> 'a net_scheme \<Rightarrow> bool" where
  "arp_for_me pkt m \<longleftrightarrow> load_bytes (mem m) pkt 8 = [0, 1, 8, 0, 6, 4, 0, 1] \<and>
     load_bytes (mem m) (pkt + 24) 4 = my_ipv4_address m"

lemma arp_tests:
  assumes "length (my_ipv4_address m) = 4"
  shows "arp_for_me pkt m \<longleftrightarrow>
    ntoh16 (load16 (mem m) pkt) = 1 \<and> mem m (pkt + 4) = 6 \<and> ntoh16 (load16 (mem m) (pkt + 2)) = 0x800 \<and>
    mem m (pkt + 5) = 4 \<and> ntoh16 (load16 (mem m) (pkt + 6)) = 1 \<and>
    memcmp (load_bytes (mem m) (pkt + 24) 4) (my_ipv4_address m) = 0"
proof -
  have "load_bytes (mem m) pkt 8 = map (mem m) [pkt, pkt + 1, pkt + 2, pkt + 3, pkt + 4, pkt + 5, pkt + 6, pkt + 7]"
    by (simp add: load_bytes_def upt_rec)
  then show ?thesis
    using assms
    by (auto simp: arp_for_me_def ntoh16_load_iff memcmp_eq_0_iff add.commute [of 3] add.commute [of 7])
qed

lemma prepare_same:
  assumes "drv_prepare_send_packet h d sz hdr m = Some (r, m1)"
  shows "my_ipv4_address m1 = my_ipv4_address m" "my_eth_mac m1 = my_eth_mac m"
    "chosen_net_drv m1 = chosen_net_drv m" "ne2000.more m1 = ne2000.more m" "fault m1 = fault m" "alloc m1 = alloc m"
  using drv_frame(1) [OF assms] by (simp_all add: net_frame_def)

text \<open>
  C19. ARP is answered for this machine's own address and for nothing else. A request for it is
  answered with exactly one frame, to the sender, that carries this machine's hardware and IPv4
  address and returns the sender's own; any other ARP packet leaves the machine as it was.
\<close>

theorem net_on_arp_answer:
  assumes "chosen_net_drv m = Some d"
    and "length (my_eth_mac m) = 6" "length (my_ipv4_address m) = 4" "length (src_mac eth) = 6"
    and "drv_prepare_send_packet h d 28 (reply_eth 0x806 eth m) m = Some (Some ret, m1)"
    and "apart pkt 28 ret 28"
  shows "if arp_for_me pkt m
    then \<exists>m2. load_bytes (mem m2) (ret - 14) 42 = src_mac eth @ my_eth_mac m @ [8, 6] @
          [0, 1, 8, 0, 6, 4, 0, 2] @ my_eth_mac m @ my_ipv4_address m @ load_bytes (mem m1) (pkt + 8) 10 \<and>
        net_on_arp h eth pkt sz m = map_option
          (vga_write (''Someone is looking for me, replying to ARP request'' @ crlf)) (drv_send_packet h d m2)
    else net_on_arp h eth pkt sz m = Some m"
proof (cases "arp_for_me pkt m")
  case True
  let ?m2 = "m1\<lparr>mem := arp_reply_fill ret pkt m1\<rparr>"
  note same = prepare_same [OF assms(5)]
  note bytes = arp_reply_bytes [of m1 pkt ret]
  have "load_bytes (mem ?m2) (ret - 14) (14 + 28) =
      eth_bytes (reply_eth 0x806 eth m) @ load_bytes (mem ?m2) ret 28"
    using drv.frame_built [OF reply_eth_ok [OF assms(4,2)] assms(5), of "mem ?m2" 28] bytes(2) assms same by simp
  then have "load_bytes (mem ?m2) (ret - 14) 42 = src_mac eth @ my_eth_mac m @ [8, 6] @
      [0, 1, 8, 0, 6, 4, 0, 2] @ my_eth_mac m @ my_ipv4_address m @ load_bytes (mem m1) (pkt + 8) 10"
    using bytes(1) assms same by (simp add: reply_eth_bytes)
  moreover have "net_on_arp h eth pkt sz m = map_option
      (vga_write (''Someone is looking for me, replying to ARP request'' @ crlf)) (drv_send_packet h d ?m2)"
    using True assms same
    by (auto simp: arp_tests net_on_arp_def net_on_arp_IPv4_def net_prepare_send_packet_def net_send_packet_def
        Let_def map_option_case split: option.split)
  ultimately show ?thesis unfolding if_P [OF True] by blast
next
  case False
  then show ?thesis
    using assms by (auto simp: arp_tests net_on_arp_def net_on_arp_IPv4_def)
qed

text \<open>A machine with an open NE-2000 that is always ready, for the witnesses.\<close>

definition dbg_example :: "memory \<Rightarrow> dbg" where
  "dbg_example mm = (ne2000.extend ne2000_example (dbg.fields 0 0 0 0xFFFFFFFF))\<lparr>mem := mm,
     chosen_net_drv := Some Ne2000, chosen_net_drv_open := True\<rparr>"

lemmas dbg_example_defs = dbg_example_def dbg.defs ne2000_example_def ne2000.defs rtl8101_example_def rtl8101.defs
  pcnet32_example_defs

lemma dbg_example_fields [simp]:
  "mem (dbg_example mm) = mm" "chosen_net_drv (dbg_example mm) = Some Ne2000" "chosen_net_drv_open (dbg_example mm)"
  "my_eth_mac (dbg_example mm) = [0, 1, 2, 3, 4, 5]" "my_ipv4_address (dbg_example mm) = [192, 168, 250, 254]"
  "ne2000_xmit_packet (dbg_example mm) = 0x170800" "ne2000_last_packet (dbg_example mm) = 0x170000"
  "ne2000_probe_base (dbg_example mm) = 0x300" "fault (dbg_example mm) = None" "exec_last_seq (dbg_example mm) = 0xFFFFFFFF"
  by (simp_all add: dbg_example_defs)

lemma idle_hw_in [simp]: "hw_in rtl8101_idle_hw hs w p = 0"
  by (simp add: rtl8101_idle_hw_def pcnet32_idle_hw_def quiet_hw_def hw.defs pcnet32_hw.defs rtl8101_hw.defs)

lemma idle_prepare:
  fixes m :: "'a dbg_scheme"
  assumes "sz < 1520"
  obtains hs where "drv_prepare_send_packet rtl8101_idle_hw Ne2000 sz hdr m = Some (Some (ne2000_xmit_packet m + 14),
    m\<lparr>hist := hs, mem := eth_store (mem m) (ne2000_xmit_packet m) hdr, ne2000_xmit_packet_size := of_int (sz + 14)\<rparr>)"
proof -
  have "\<exists>hs. drv_prepare_send_packet rtl8101_idle_hw Ne2000 sz hdr m = Some (Some (ne2000_xmit_packet m + 14),
    m\<lparr>hist := hs, mem := eth_store (mem m) (ne2000_xmit_packet m) hdr, ne2000_xmit_packet_size := of_int (sz + 14)\<rparr>)"
    using assms
    by (auto simp: drv_prepare_send_packet_def ne2000_prepare_send_packet_def ne2000_tx_wait_def io_defs Let_def
        while_option_unfold)
  then show ?thesis using that by blast
qed

lemma dbg_example_prepare:
  assumes "sz < 1520"
  obtains hs where "drv_prepare_send_packet rtl8101_idle_hw Ne2000 sz hdr (dbg_example mm) = Some (Some 0x17080E,
    (dbg_example mm)\<lparr>hist := hs, mem := eth_store mm 0x170800 hdr, ne2000_xmit_packet_size := of_int (sz + 14)\<rparr>)"
proof -
  obtain hs where e: "drv_prepare_send_packet rtl8101_idle_hw Ne2000 sz hdr (dbg_example mm) =
      Some (Some (ne2000_xmit_packet (dbg_example mm) + 14), (dbg_example mm)\<lparr>hist := hs,
        mem := eth_store (mem (dbg_example mm)) (ne2000_xmit_packet (dbg_example mm)) hdr,
        ne2000_xmit_packet_size := of_int (sz + 14)\<rparr>)"
    by (rule idle_prepare [OF assms])
  have a: "0x170800 + 14 = (0x17080E :: u32)" by simp
  show ?thesis using e unfolding dbg_example_fields a by (rule that)
qed

lemma load_write_whole: "length bs = n \<Longrightarrow> n < 2 ^ 32 \<Longrightarrow> load_bytes (mem_write mm p bs) p n = bs"
  using load_write_same [of bs mm p] by simp

text \<open>A request from 192.168.250.1 in the receive buffer.\<close>

definition arp_example :: memory where
  "arp_example = mem_write (\<lambda>_. 0) 0x17000E [0, 1, 8, 0, 6, 4, 0, 1, 9, 9, 9, 9, 9, 9, 192, 168, 250, 1, 0, 0, 0, 0, 0, 0,
     192, 168, 250, 254]"

theorem net_on_arp_answer_witness:
  "\<exists>m2 :: dbg. load_bytes (mem m2) 0x170800 42 = replicate 6 9 @ [0, 1, 2, 3, 4, 5, 8, 6] @
       [0, 1, 8, 0, 6, 4, 0, 2] @ [0, 1, 2, 3, 4, 5] @ [192, 168, 250, 254] @ [9, 9, 9, 9, 9, 9, 192, 168, 250, 1] \<and>
     net_on_arp rtl8101_idle_hw \<lparr>dst_mac = replicate 6 0xFF, src_mac = replicate 6 9, eth_type = 0x608\<rparr> 0x17000E 28
       (dbg_example arp_example) = map_option
         (vga_write (''Someone is looking for me, replying to ARP request'' @ crlf)) (drv_send_packet rtl8101_idle_hw Ne2000 m2)"
proof -
  let ?m = "dbg_example arp_example" and ?p = "0x17000E :: u32"
  let ?eth = "\<lparr>dst_mac = replicate 6 0xFF, src_mac = replicate 6 9, eth_type = 0x608\<rparr> :: ethernet_frame_header"
  let ?hdr = "reply_eth 0x806 ?eth ?m"
  have "28 < (1520 :: int)" by simp
  then obtain hs where prep: "drv_prepare_send_packet rtl8101_idle_hw Ne2000 28 ?hdr ?m = Some (Some 0x17080E,
      ?m\<lparr>hist := hs, mem := eth_store arp_example 0x170800 ?hdr, ne2000_xmit_packet_size := of_int (28 + 14)\<rparr>)"
    by (rule dbg_example_prepare)
  have "load_bytes arp_example ?p 28 = [0, 1, 8, 0, 6, 4, 0, 1, 9, 9, 9, 9, 9, 9, 192, 168, 250, 1,
      0, 0, 0, 0, 0, 0, 192, 168, 250, 254]"
    unfolding arp_example_def by (rule load_write_whole) simp_all
  then have b: "arp_for_me ?p ?m" "load_bytes arp_example (?p + 8) 10 = [9, 9, 9, 9, 9, 9, 192, 168, 250, 1]"
    using load_bytes_sub [of 0 8 28 arp_example ?p] load_bytes_sub [of 24 4 28 arp_example ?p]
      load_bytes_sub [of 8 10 28 arp_example ?p] by (simp_all add: arp_for_me_def)
  have "load_bytes (eth_store arp_example 0x170800 (reply_eth 0x806 ?eth ?m)) (?p + 8) 10 = load_bytes arp_example (?p + 8) 10"
    unfolding eth_store_def by (rule load_write_apart) (simp add: apart_def reply_eth_bytes)
  then show ?thesis
    using net_on_arp_answer [OF _ _ _ _ prep, of ?p 28] b by (simp add: apart_def if_P)
qed

subsection \<open>UDP responses\<close>

lemma splice_skip: "length xs \<le> k \<Longrightarrow> splice k bs (xs @ ys) = xs @ splice (k - length xs) bs ys"
  by (simp add: splice_def)

lemma chksum_loop_bytes:
  assumes "load_bytes mm p (2 * n) = load_bytes mm' p' (2 * n)"
  shows "chksum_loop mm p skip n c = chksum_loop mm' p' skip n c"
proof -
  have b: "mm (p + of_nat j) = mm' (p' + of_nat j)" if "j < 2 * n" for j
    using arg_cong [OF assms, of "\<lambda>xs. xs ! j"] that by simp
  have "load16 mm (p + 2 * of_nat i) = load16 mm' (p' + 2 * of_nat i)" if "i < n" for i
    using b [of "2 * i"] b [of "2 * i + 1"] that by (simp add: load16_def ac_simps)
  then show ?thesis unfolding chksum_loop_def by (intro fold_cong) auto
qed

lemma ipv4_reply_sum:
  assumes "load_bytes mm ret (2 * 10) = load_bytes (ipv4_reply_header ret n proto src_ip m) ret (2 * 10)"
  shows "chksum_loop mm ret 10 10 0 = 0xFFFF"
proof -
  have "chksum_loop mm ret 10 10 0 = chksum_loop (ipv4_reply_header ret n proto src_ip m) ret 10 10 0"
    using assms by (rule chksum_loop_bytes)
  also have "\<dots> = 0xFFFF"
    unfolding ipv4_reply_header_def Let_def using chksum_install_correct(3) [of 5 10 _ ret] by simp
  finally show ?thesis .
qed

definition udp_bytes :: "u16 \<Rightarrow> u16 \<Rightarrow> u16 \<Rightarrow> u8 list" where
  "udp_bytes from to n = [ucast (drop_bit 8 from), ucast from, ucast (drop_bit 8 to), ucast to,
     ucast (drop_bit 8 n), ucast n, 0, 0]"

lemma udp_response_bytes:
  fixes m :: "'a net_scheme" and len :: int and src_port dst_port :: u16 and ret src_ip :: u32
  defines "n \<equiv> nat (28 + len)" and "L \<equiv> 28 + of_int len :: u32"
  assumes me: "length (my_ipv4_address m) = 4" and len: "0 \<le> len" "len \<le> 1580" and src: "apart src_ip 4 ret n"
  defines "mm \<equiv> udp_response_fill ret src_ip src_port dst_port len m"
  shows "only_in (mem m) mm ret n" and "chksum_loop mm ret 10 10 0 = 0xFFFF"
    and "\<exists>c1 c2. load_bytes mm ret n =
      ipv4_bytes L 0x11 c1 c2 (my_ipv4_address m) (load_bytes (mem m) src_ip 4) @
      udp_bytes dst_port src_port (of_int (len + 8)) @ replicate (nat len) 0"
proof -
  have n: "n = 28 + nat len" "n < 2 ^ 32" using len by (simp_all add: n_def nat_add_distrib)
  have "L = of_nat n" using len by (simp add: L_def n(1))
  then have L: "unat L = n" "n = 28 + nat len" "n < 2 ^ 32"
    using n unat_of_nat_small [of n, where 'a = 32] by simp_all
  define mi where "mi = ipv4_reply_header ret L 0x11 src_ip m"
  have L': "0x14 + 8 + of_int len = L" by (simp add: L_def)
  have mm: "mm = mem_write (mem_write (mem_write (mem_write mi (ret + 20) (le16 (ntoh16 dst_port)))
      (ret + 22) (le16 (ntoh16 src_port))) (ret + 24) (le16 (ntoh16 (of_int (len + 8))))) (ret + 26) (le16 0)"
    unfolding mm_def udp_response_fill_def Let_def L' mi_def store16_def by (simp add: add.assoc)
  have "only_in (mem m) mi ret n"
    unfolding mi_def using ipv4_reply_only [OF me, of L ret] L by simp
  then show "only_in (mem m) mm ret n"
    unfolding mm using L by (simp add: only_in_write)
  obtain c1 c2 where b: "load_bytes mi ret n =
      ipv4_bytes L 0x11 c1 c2 (my_ipv4_address m) (load_bytes (mem m) src_ip 4) @ replicate (n - 20) 0"
    using ipv4_reply_bytes [OF me, of L src_ip ret "0x11"] L src unfolding mi_def by auto
  let ?X = "ipv4_bytes L 0x11 c1 c2 (my_ipv4_address m) (load_bytes (mem m) src_ip 4)"
  have X: "length ?X = 20" using me by (simp add: ipv4_bytes_def)
  have r: "replicate (n - 20) (0 :: u8) = [0, 0, 0, 0, 0, 0, 0, 0] @ replicate (nat len) 0"
  proof -
    have "n - 20 = 8 + nat len" using n by simp
    moreover have "replicate 8 (0 :: u8) = [0, 0, 0, 0, 0, 0, 0, 0]" by (simp add: numeral_eq_Suc)
    ultimately show ?thesis by (simp only: replicate_add)
  qed
  have all: "load_bytes mm ret n = ?X @ udp_bytes dst_port src_port (of_int (len + 8)) @ replicate (nat len) 0"
  proof -
    have "28 \<le> n" "n < 2 ^ 32" using L by simp_all
    then have "load_bytes mm ret n = splice 26 (le16 0) (splice 24 (le16 (ntoh16 (of_int (len + 8))))
        (splice 22 (le16 (ntoh16 src_port)) (splice 20 (le16 (ntoh16 dst_port)) (load_bytes mi ret n))))"
      unfolding mm by (simp add: view_write)
    also have "\<dots> = ?X @ splice 6 [0, 0] (splice 4 (le16 (ntoh16 (of_int (len + 8))))
        (splice 2 (le16 (ntoh16 src_port)) (splice 0 (le16 (ntoh16 dst_port))
          ([0, 0, 0, 0, 0, 0, 0, 0] @ replicate (nat len) 0))))"
      by (simp add: b r splice_skip X le16_def)
    also have "\<dots> = ?X @ udp_bytes dst_port src_port (of_int (len + 8)) @ replicate (nat len) 0"
      by (simp add: splice_def udp_bytes_def le16_ntoh16)
    finally show ?thesis .
  qed
  then show "\<exists>c1 c2. load_bytes mm ret n =
      ipv4_bytes L 0x11 c1 c2 (my_ipv4_address m) (load_bytes (mem m) src_ip 4) @
      udp_bytes dst_port src_port (of_int (len + 8)) @ replicate (nat len) 0" by blast
  have "load_bytes mm ret (2 * 10) = load_bytes mi ret (2 * 10)"
    using load_bytes_sub [of 0 20 n mm ret] load_bytes_sub [of 0 20 n mi ret] all b X L by simp
  then show "chksum_loop mm ret 10 10 0 = 0xFFFF" unfolding mi_def by (rule ipv4_reply_sum)
qed

subsection \<open>Echo replies\<close>

lemma length_ipv4_bytes: "length me = 4 \<Longrightarrow> length you = 4 \<Longrightarrow> length (ipv4_bytes n proto c1 c2 me you) = 20"
  by (simp add: ipv4_bytes_def)

lemma icmp_reply_bytes:
  fixes m :: "'a net_scheme" and len :: int and pkt ret src_ip :: u32
  defines "n \<equiv> nat (20 + len)" and "L \<equiv> 20 + of_int len :: u32" and "you \<equiv> load_bytes (mem m) src_ip 4"
  assumes me: "length (my_ipv4_address m) = 4" and len: "8 \<le> len" "len \<le> 65515"
    and src: "apart src_ip 4 ret n" and pkt: "apart pkt (nat len) ret n"
  defines "mm \<equiv> icmp_reply_fill ret src_ip pkt len m"
  shows "only_in (mem m) mm ret n"
    and "\<exists>c1 c2 s1 s2. load_bytes mm ret n = ipv4_bytes L 1 c1 c2 (my_ipv4_address m) you @
      [0, mem m (pkt + 1), s1, s2] @ load_bytes (mem m) (pkt + 4) (nat len - 4)"
    and "chksum_loop mm ret 10 10 0 = 0xFFFF"
    and "chksum_loop mm (ret + 20) (nat (len div 2)) (nat (len div 2)) 0 = 0xFFFF"
proof -
  have n: "n = 20 + nat len" "n < 2 ^ 32" using len by (simp_all add: n_def nat_add_distrib)
  have "L = of_nat n" using len by (simp add: L_def n(1))
  then have L: "unat L = n" using n unat_of_nat_small [of n, where 'a = 32] by simp
  have "(of_int len :: u32) = of_nat (nat len)" using len by simp
  then have l: "unat (of_int len :: u32) = nat len" using len unat_of_nat_small [of "nat len", where 'a = 32] by simp
  define mi where "mi = ipv4_reply_header ret L 1 src_ip m"
  define D where "D = load_bytes (mem m) (pkt + 4) (nat len - 4)"
  have oi: "only_in (mem m) mi ret n" unfolding mi_def using ipv4_reply_only [OF me, of L ret] L n by simp
  have "load_bytes mi pkt (nat len) = load_bytes (mem m) pkt (4 + (nat len - 4))"
    using only_in_load [OF oi pkt] len by simp
  also have "\<dots> = [mem m pkt, mem m (pkt + 1), mem m (pkt + 2), mem m (pkt + 3)] @ D"
    unfolding load_bytes_add D_def by (simp add: load_bytes_def upt_rec)
  finally have data: "load_bytes mi pkt (nat len) = [mem m pkt, mem m (pkt + 1), mem m (pkt + 2), mem m (pkt + 3)] @ D" .
  define mj where "mj = mem_write (mem_write mi (ret + 20) (load_bytes mi pkt (nat len))) (ret + 20) [0]"
  have mm: "mm = chksum_install mj (ret + 20) 1 (nat (len div 2))"
    unfolding mm_def icmp_reply_fill_def Let_def mj_def mi_def memcpy_def l L_def by simp
  have "1 < nat (len div 2)" "2 * nat (len div 2) < 4294967296" using len by linarith+
  then have k: "1 < nat (len div 2)" "2 * nat (len div 2) < 2 ^ 32" by simp_all
  show "chksum_loop mm (ret + 20) (nat (len div 2)) (nat (len div 2)) 0 = 0xFFFF"
    unfolding mm by (rule chksum_install_correct(3) [OF k])
  obtain s1 s2 where mm2: "mm = mem_write (mem_write mj (ret + 22) [s1]) (ret + 23) [s2]"
    unfolding mm chksum_install_def Let_def by (simp add: add.assoc)
  have len': "20 + nat len \<le> n" "24 \<le> n" using n len by simp_all
  show "only_in (mem m) mm ret n"
    unfolding mm2 mj_def using oi len' by (simp add: only_in_write)
  obtain c1 c2 where b: "load_bytes mi ret n =
      ipv4_bytes L 1 c1 c2 (my_ipv4_address m) you @ replicate (n - 20) 0"
    using ipv4_reply_bytes [OF me, of L src_ip ret 1] L n src unfolding mi_def you_def by auto
  let ?X = "ipv4_bytes L 1 c1 c2 (my_ipv4_address m) you"
  have X: "length ?X = 20" using me by (simp add: length_ipv4_bytes you_def)
  have D: "length D = nat len - 4" "n - 20 = nat len" "4 \<le> nat len" using n len by (simp_all add: D_def)
  have "load_bytes mm ret n = splice 23 [s2] (splice 22 [s1] (splice 20 [0]
      (splice 20 (load_bytes mi pkt (nat len)) (load_bytes mi ret n))))"
    unfolding mm2 mj_def using len' n by (simp add: view_write)
  also have "\<dots> = ?X @ splice 3 [s2] (splice 2 [s1] (splice 0 [0] (splice 0 (load_bytes mi pkt (nat len)) (replicate (n - 20) 0))))"
    by (simp add: b splice_skip X)
  also have "\<dots> = ?X @ [0, mem m (pkt + 1), s1, s2] @ D"
    unfolding data using D by (simp add: splice_def)
  finally have all: "load_bytes mm ret n = ?X @ [0, mem m (pkt + 1), s1, s2] @ D" .
  then show "\<exists>c1 c2 s1 s2. load_bytes mm ret n = ipv4_bytes L 1 c1 c2 (my_ipv4_address m) you @
      [0, mem m (pkt + 1), s1, s2] @ load_bytes (mem m) (pkt + 4) (nat len - 4)"
    unfolding D_def by blast
  have "load_bytes mm ret (2 * 10) = load_bytes mi ret (2 * 10)"
    using load_bytes_sub [of 0 20 n mm ret] load_bytes_sub [of 0 20 n mi ret] all b X n by simp
  then show "chksum_loop mm ret 10 10 0 = 0xFFFF" unfolding mi_def by (rule ipv4_reply_sum)
qed

text \<open>What counts as an echo request: long enough, with the right sum, type 8 and code 0.\<close>

definition icmp_echo_ok :: "u32 \<Rightarrow> int \<Rightarrow> memory \<Rightarrow> bool" where
  "icmp_echo_ok pkt len mm \<longleftrightarrow> 8 \<le> len \<and> mm pkt = 8 \<and> mm (pkt + 1) = 0 \<and>
     (NOT (chksum_loop mm pkt 1 (nat (len div 2)) 0)) AND 0xFFFF = ucast (ntoh16 (load16 mm (pkt + 2)))"

lemma console_net:
  assumes "console_step m m'"
  shows "my_ipv4_address m' = my_ipv4_address m" "my_eth_mac m' = my_eth_mac m" "chosen_net_drv m' = chosen_net_drv m"
    "chosen_net_drv_open m' = chosen_net_drv_open m"
  using assms by (auto elim!: console_stepE)


lemma console_xmit_packet: "console_step m m' \<Longrightarrow> ne2000_xmit_packet m' = ne2000_xmit_packet m"
  by (auto elim!: console_stepE)

definition icmp_example :: memory where
  "icmp_example = mem_write (\<lambda>_. 0) 0x170022 [8, 0, 0xF7, 0xFC, 0, 1, 0, 2]"

lemma icmp_example_ok: "icmp_echo_ok 0x170022 8 icmp_example"
  by code_simp


section \<open>Numbers and checksums\<close>

text \<open>
  C17. Numbers survive the wire: what \<^verbatim>\<open>hex_to_str\<close> prints as eight digits, \<^verbatim>\<open>s_strtoul_hex\<close> reads
  back as the same 32-bit value, and it stops behind the last digit.
\<close>

theorem hex_round_trip:
  assumes "hex_end (mm (p + 8))"
  shows "s_strtoul_hex (fst (hex_to_str mm p x 8)) p = Some (x, snd (hex_to_str mm p x 8))"
proof -
  let ?mm = "mem_write mm p (hex_digits x 8)"
  have "?mm (p + 8) = mm (p + 8)" by (simp add: mem_write_def)
  moreover have "load_bytes ?mm p 8 = hex_digits x 8" by (rule load_write_whole) simp_all
  ultimately show ?thesis
    using strtoul_hex_text [of "hex_digits x 8" ?mm p] assms by (simp add: hex_to_str_digits)
qed

theorem hex_round_trip_witness:
  "s_strtoul_hex (fst (hex_to_str (\<lambda>_. 0) 0x1000 0xDEADBEEF 8)) 0x1000 = Some (0xDEADBEEF, 0x1008)"
proof -
  have "hex_end 0" by code_simp
  then show ?thesis using hex_round_trip [of "\<lambda>_. 0" "0x1000" "0xDEADBEEF"] by (simp add: hex_to_str_digits)
qed

text \<open>
  C15. The checksum loop is the one's complement sum of the half-words it covers, in network byte
  order: it is congruent to their sum modulo 65535, it is a 16-bit value, and it is zero only when all
  of them are.
\<close>

theorem chksum_loop_ones_sum:
  "unat (chksum_loop mm p skip n 0) < 65536 \<and>
   unat (chksum_loop mm p skip n 0) mod 65535 = (\<Sum>i\<leftarrow>filter (\<lambda>i. i \<noteq> skip) [0..<n]. word_be mm p i) mod 65535 \<and>
   (unat (chksum_loop mm p skip n 0) = 0 \<longleftrightarrow> (\<Sum>i\<leftarrow>filter (\<lambda>i. i \<noteq> skip) [0..<n]. word_be mm p i) = 0)"
  using chksum_loop_mod [of 0 mm p skip n] by (auto simp: sum_list_eq_0_iff)

text \<open>
  C16. A checksum that a reply installs verifies: the sum over all half-words, the field included,
  is all ones, and the packet passes the very test that the receive paths make.
\<close>

theorem chksum_install_verifies:
  assumes "k < n" and "2 * n < 2 ^ 32"
  shows "chksum_loop (chksum_install mm p k n) p n n 0 = 0xFFFF \<and>
    (NOT (chksum_loop (chksum_install mm p k n) p k n 0)) AND 0xFFFF =
      (ucast (ntoh16 (load16 (chksum_install mm p k n) (p + of_nat (2 * k)))) :: u32)"
  using chksum_install_correct(3) [OF assms] chksum_accepted [OF assms] by blast

theorem chksum_install_verifies_witness:
  "chksum_loop (chksum_install (\<lambda>_. 0x45) 0x1000 5 10) 0x1000 10 10 0 = 0xFFFF"
  using chksum_install_verifies [of 5 10 "\<lambda>_. 0x45" "0x1000"] by simp

end
