(* ===== verification/Debugger.thy ===== *)
theory Debugger
  imports Packet
begin

text \<open>
  The remote debugger of \<^verbatim>\<open>src/eth/c-main.c\<close>: the UDP commands on port 777 (TEST, READ, WRITE, LOW,
  EXEC), the IPv4 input filter and \<^verbatim>\<open>net_idle\<close>, the step that receives one packet, dispatches it
  and releases it.
\<close>

section \<open>UDP commands\<close>

text \<open>The checksum of a UDP packet with its pseudo header (lines 419 to 448).\<close>

definition udp_pseudo :: "memory \<Rightarrow> u8 list \<Rightarrow> u32 \<Rightarrow> int \<Rightarrow> u8 list" where
  "udp_pseudo mm me src_ip len =
    load_bytes mm src_ip 4 @ me @ [0x00, IPv4_PROTO_UDP, of_int (len div 256), of_int len]"

definition udp_chksum :: "memory \<Rightarrow> u8 list \<Rightarrow> u32 \<Rightarrow> u32 \<Rightarrow> int \<Rightarrow> u32" where
  "udp_chksum mm me src_ip pkt len =
    (let pseudo_ipv4 = udp_pseudo mm me src_ip len;
         chksum = fold (\<lambda>i c. chksum_step c (ucast (ntoh16
           (ucast (pseudo_ipv4 ! (2 * i)) OR push_bit 8 (ucast (pseudo_ipv4 ! (2 * i + 1))))))) [0..<6] 0;
         chksum = chksum_loop mm pkt 3 (nat (len div 2)) chksum;
         chksum = (if odd len then chksum_step chksum (push_bit 8 (ucast (mm (pkt + of_int (len - 1))))) else chksum)
     in (NOT chksum) AND 0xFFFF)"

text \<open>Every command ends the same way: make the response, fill it in, send it.\<close>

definition udp_answer ::
  "'h rtl8101_hw_scheme \<Rightarrow> ethernet_frame_header \<Rightarrow> u32 \<Rightarrow> u16 \<Rightarrow> u16 \<Rightarrow> int \<Rightarrow>
    (u32 \<Rightarrow> 'a dbg_scheme \<Rightarrow> memory) \<Rightarrow> 'a dbg_scheme \<Rightarrow> 'a dbg_scheme option" where
  "udp_answer h eth src_ip src_port dst_port len fill m = do {
     (r, m) \<leftarrow> make_udp_response h eth src_ip src_port dst_port len m;
     case r of
       None \<Rightarrow> Some m
     | Some data \<Rightarrow> send_udp_response h (m\<lparr>mem := fill data m\<rparr>) }"

definition udp_test ::
  "'h rtl8101_hw_scheme \<Rightarrow> ethernet_frame_header \<Rightarrow> u32 \<Rightarrow> u16 \<Rightarrow> u16 \<Rightarrow> 'a dbg_scheme \<Rightarrow> 'a dbg_scheme option" where
  "udp_test h eth src_ip src_port dst_port m =
    udp_answer h eth src_ip src_port dst_port (int (length ''OK x86-32''))
      (\<lambda>data m. mem_write (mem m) data (bytes_of ''OK x86-32'')) m"

definition read_fill :: "u32 \<Rightarrow> u32 \<Rightarrow> u32 \<Rightarrow> memory \<Rightarrow> memory" where
  "read_fill address rsize data mm =
    (let mm = mem_write mm data (bytes_of ''OK '');
         data = data + 3;
         (mm, data) = hex_to_str mm data address 8;
         mm = mem_write mm data [0x0A];
         data = data + 1
     in if rsize > 0 then memcpy mm data address rsize else mm)"

definition udp_read ::
  "'h rtl8101_hw_scheme \<Rightarrow> ethernet_frame_header \<Rightarrow> u32 \<Rightarrow> u16 \<Rightarrow> u16 \<Rightarrow> u32 \<Rightarrow> 'a dbg_scheme \<Rightarrow> 'a dbg_scheme option" where
  "udp_read h eth src_ip src_port dst_port data m = do {
     let p = data + 5;
     p \<leftarrow> skip_whitespace (mem m) p;
     (address, p) \<leftarrow> s_strtoul_hex (mem m) p;
     p \<leftarrow> skip_whitespace (mem m) p;
     (rsize, p) \<leftarrow> s_strtoul_hex (mem m) p;
     let rsize = (if rsize > 1400 then 1400 else rsize);
     udp_answer h eth src_ip src_port dst_port (3 + 8 + 1 + uint rsize)
       (\<lambda>data m. read_fill address rsize data (mem m)) m }"

lemma unat_inc: "(p :: u32) < q \<Longrightarrow> unat (p + 1) = Suc (unat p)"
proof -
  assume "p < q"
  then have "unat p < unat q" by (simp add: word_less_nat_alt)
  then have "Suc (unat p) < 4294967296" using unat_bounds(3) [of q] by linarith
  then show ?thesis by (simp add: unat_word_ariths(1))
qed

text \<open>The two scanning statements that look for the newline (lines 504 and 505).\<close>

function scan_newline :: "memory \<Rightarrow> u32 \<Rightarrow> u32 \<Rightarrow> u32" where
  "scan_newline mm fence p = (if p < fence \<and> mm p \<noteq> 0x0A then scan_newline mm fence (p + 1) else p)"
  by pat_completeness auto
termination
proof (relation "measure (\<lambda>(mm, fence, p). unat fence - unat p)")
  fix mm :: memory and fence p :: u32
  assume "p < fence \<and> mm p \<noteq> 0x0A"
  then have "unat (p + 1) = Suc (unat p)" "unat p < unat fence"
    by (auto simp: word_less_nat_alt intro: unat_inc)
  then show "((mm, fence, p + 1), (mm, fence, p)) \<in> measure (\<lambda>(mm, fence, p). unat fence - unat p)"
    by simp
qed simp

declare scan_newline.simps [simp del]

definition write_data_start :: "memory \<Rightarrow> u32 \<Rightarrow> u32 \<Rightarrow> u32" where
  "write_data_start mm fence p =
    (let p = scan_newline mm fence p in if p < fence \<and> mm p = 0x0A then p + 1 else p)"

definition write_fill :: "u32 \<Rightarrow> u32 \<Rightarrow> u32 \<Rightarrow> memory \<Rightarrow> memory" where
  "write_fill address seq data mm =
    (let mm = mem_write mm data (bytes_of ''OK '');
         data = data + 3;
         (mm, data) = hex_to_str mm data address 8;
         mm = mem_write mm data [0x20];
         data = data + 1
     in fst (hex_to_str mm data seq 8))"

definition udp_write ::
  "'h rtl8101_hw_scheme \<Rightarrow> ethernet_frame_header \<Rightarrow> u32 \<Rightarrow> u16 \<Rightarrow> u16 \<Rightarrow> u32 \<Rightarrow> u32 \<Rightarrow> 'a dbg_scheme \<Rightarrow>
    'a dbg_scheme option" where
  "udp_write h eth src_ip src_port dst_port data data_length m = do {
     let p = data + 5;
     let fence = data + data_length;
     p \<leftarrow> skip_whitespace (mem m) p;
     (address, p) \<leftarrow> s_strtoul_hex (mem m) p;
     p \<leftarrow> skip_whitespace (mem m) p;
     (seq, p) \<leftarrow> s_strtoul_hex (mem m) p;
     let p = write_data_start (mem m) fence p;
     let data_len = fence - p;
     let m = (if data_len > 0 then m\<lparr>mem := memcpy (mem m) address p data_len\<rparr> else m);
     udp_answer h eth src_ip src_port dst_port (3 + 8 + 1 + 8)
       (\<lambda>data m. write_fill address seq data (mem m)) m }"

definition udp_low ::
  "'h rtl8101_hw_scheme \<Rightarrow> ethernet_frame_header \<Rightarrow> u32 \<Rightarrow> u16 \<Rightarrow> u16 \<Rightarrow> 'a dbg_scheme \<Rightarrow> 'a dbg_scheme option" where
  "udp_low h eth src_ip src_port dst_port m =
    udp_answer h eth src_ip src_port dst_port (3 + 8)
      (\<lambda>data m. fst (hex_to_str (mem_write (mem m) data (bytes_of ''OK '')) (data + 3) (alloc m) 8)) m"

text \<open>
  EXEC calls the address unless the sequence number is that of the last call. The callee is the
  parameter \<open>hw_call\<close>, which may never return.
\<close>

definition udp_exec ::
  "'h rtl8101_hw_scheme \<Rightarrow> ethernet_frame_header \<Rightarrow> u32 \<Rightarrow> u16 \<Rightarrow> u16 \<Rightarrow> u32 \<Rightarrow> 'a dbg_scheme \<Rightarrow> 'a dbg_scheme option" where
  "udp_exec h eth src_ip src_port dst_port data m = do {
     let p = data + 5;
     p \<leftarrow> skip_whitespace (mem m) p;
     (address, p) \<leftarrow> s_strtoul_hex (mem m) p;
     p \<leftarrow> skip_whitespace (mem m) p;
     (seq, p) \<leftarrow> s_strtoul_hex (mem m) p;
     m \<leftarrow> (if seq \<noteq> exec_last_seq m
           then map_option (\<lambda>(mm, hs). m\<lparr>mem := mm, hist := hs, exec_last_seq := seq\<rparr>)
             (hw_call h address (mem m) (CallAddr address # hist m))
           else Some m);
     udp_answer h eth src_ip src_port dst_port (12 + 8)
       (\<lambda>data m. fst (hex_to_str (mem_write (mem m) data (bytes_of ''OK Complete '')) (data + 12) seq 8)) m }"

definition udp_unknown ::
  "'h rtl8101_hw_scheme \<Rightarrow> ethernet_frame_header \<Rightarrow> u32 \<Rightarrow> u16 \<Rightarrow> u16 \<Rightarrow> 'a dbg_scheme \<Rightarrow> 'a dbg_scheme option" where
  "udp_unknown h eth src_ip src_port dst_port m =
    udp_answer h eth src_ip src_port dst_port (int (length ''ERR Unknown command''))
      (\<lambda>data m. mem_write (mem m) data (bytes_of ''ERR Unknown command'')) m"

text \<open>A packet for another port is shown on the console.\<close>

definition udp_show :: "u16 \<Rightarrow> u16 \<Rightarrow> u32 \<Rightarrow> u32 \<Rightarrow> 'a vga_scheme \<Rightarrow> 'a vga_scheme" where
  "udp_show src_port dst_port data data_length m =
    (let m = vga_write ''UDP '' m;
         m = vga_writehex (ucast src_port) 4 (vga_write ''sport='' m);
         m = vga_writehex (ucast dst_port) 4 (vga_write '' dport='' m);
         m = vga_writehex data_length 8 (vga_write '' len='' m);
         m = vga_write crlf m;
         m = fold (\<lambda>i m. vga_writechar (mem m (data + of_nat i)) m) [0..<unat data_length] m
     in vga_write crlf m)"

definition starts_with :: "memory \<Rightarrow> u32 \<Rightarrow> string \<Rightarrow> bool" where
  "starts_with mm data s = (memcmp (load_bytes mm data (length s)) (bytes_of s) = 0)"

definition net_on_ipv4_udp ::
  "'h rtl8101_hw_scheme \<Rightarrow> ethernet_frame_header \<Rightarrow> u32 \<Rightarrow> u32 \<Rightarrow> int \<Rightarrow> 'a dbg_scheme \<Rightarrow> 'a dbg_scheme option" where
  "net_on_ipv4_udp h eth src_ip pkt len m =
    (if len < 8 then Some m
     else
       let hdr_chksum = ntoh16 (load16 (mem m) (pkt + 6))
       in if hdr_chksum \<noteq> 0 \<and> udp_chksum (mem m) (my_ipv4_address m) src_ip pkt len \<noteq> ucast hdr_chksum then Some m
       else
         let data = pkt + 8;
             data_length = uint (ntoh16 (load16 (mem m) (pkt + 4)));
             data_length = (if data_length > len - 8 then len - 8 else data_length);
             src_port = ntoh16 (load16 (mem m) (pkt + 0));
             dst_port = ntoh16 (load16 (mem m) (pkt + 2))
         in if dst_port = 777 then
              (if data_length \<ge> 4 \<and> starts_with (mem m) data ''TEST''
               then udp_test h eth src_ip src_port dst_port m
               else if data_length \<ge> 5 \<and> starts_with (mem m) data ''READ ''
               then udp_read h eth src_ip src_port dst_port data m
               else if data_length \<ge> 6 \<and> starts_with (mem m) data ''WRITE ''
               then udp_write h eth src_ip src_port dst_port data (of_int data_length) m
               else if data_length \<ge> 3 \<and> starts_with (mem m) data ''LOW''
               then udp_low h eth src_ip src_port dst_port m
               else if data_length \<ge> 5 \<and> starts_with (mem m) data ''EXEC ''
               then udp_exec h eth src_ip src_port dst_port data m
               else udp_unknown h eth src_ip src_port dst_port m)
            else Some (udp_show src_port dst_port data (of_int data_length) m))"

section \<open>IPv4 input\<close>

definition net_on_ipv4 ::
  "'h rtl8101_hw_scheme \<Rightarrow> ethernet_frame_header \<Rightarrow> u32 \<Rightarrow> int \<Rightarrow> 'a dbg_scheme \<Rightarrow> 'a dbg_scheme option" where
  "net_on_ipv4 h eth pkt sz m =
    (if sz < 20 then Some m
     else if drop_bit 4 (mem m pkt) \<noteq> 4 then Some m
     else
       let hdr_len = uint (mem m pkt AND 0xF) * 4
       in if hdr_len < 20 then Some m
       else
         let chksum = (NOT (chksum_loop (mem m) pkt 5 (nat (hdr_len div 2)) 0)) AND 0xFFFF;
             hdr_chksum = ntoh16 (load16 (mem m) (pkt + 10))
         in if chksum \<noteq> ucast hdr_chksum then Some m
         else
           let total_len = uint (ntoh16 (load16 (mem m) (pkt + 2)));
               flags = drop_bit 5 (mem m (pkt + 6));
               frag_offset = (ucast (mem m (pkt + 6)) AND 0x1F) OR push_bit 5 (ucast (mem m (pkt + 7))) :: u16;
               proto = mem m (pkt + 9);
               src_ip = pkt + 12;
               dst_ip = pkt + 16
           in if memcmp (load_bytes (mem m) dst_ip 4) (my_ipv4_address m) \<noteq> 0 then Some m
           else if flags AND 1 \<noteq> 0 then Some m
           else if frag_offset \<noteq> 0 then Some m
           else if hdr_len > sz then Some m
           else if hdr_len > total_len then Some m
           else if total_len > sz then Some m
           else
             let data = pkt + of_int hdr_len;
                 data_len = total_len - hdr_len
             in if data_len < 0 then Some m
             else if proto = IPv4_PROTO_ICMP then net_on_ipv4_icmp h eth src_ip data data_len m
             else if proto = IPv4_PROTO_UDP then net_on_ipv4_udp h eth src_ip data data_len m
             else Some m)"

section \<open>One step of the network\<close>

definition net_show :: "ethernet_frame_header \<Rightarrow> u32 \<Rightarrow> int \<Rightarrow> 'a vga_scheme \<Rightarrow> 'a vga_scheme" where
  "net_show eth p sz m =
    (let m = vga_writechar (of_char CHR ''>'') m;
         m = fold (\<lambda>i m. vga_writehex (ucast (dst_mac eth ! i)) 2 m) [0..<6] m;
         m = vga_writechar (of_char CHR '':'') m;
         m = fold (\<lambda>i m. vga_writehex (ucast (mem m (p + of_nat i))) 2 m) [0..<min 24 (unat (of_int sz :: u32))] m
     in vga_write crlf m)"

definition net_dispatch ::
  "'h rtl8101_hw_scheme \<Rightarrow> ethernet_frame_header \<Rightarrow> u32 \<Rightarrow> int \<Rightarrow> 'a dbg_scheme \<Rightarrow> 'a dbg_scheme option" where
  "net_dispatch h eth p sz m =
    (if memcmp (dst_mac eth) (replicate 6 0xFF) = 0 \<or> memcmp (dst_mac eth) (my_eth_mac m) = 0 then
       (if ntoh16 (eth_type eth) = ETH_TYPE_ARP then net_on_arp h eth p sz m
        else if ntoh16 (eth_type eth) = ETH_TYPE_IPv4 then net_on_ipv4 h eth p sz m
        else if memcmp (load_bytes (mem m) p 6) (replicate 6 0xFF) = 0 then Some m
        else Some (net_show eth p sz m))
     else Some m)"

definition net_idle :: "'h rtl8101_hw_scheme \<Rightarrow> 'a dbg_scheme \<Rightarrow> 'a dbg_scheme option" where
  "net_idle h m =
    (if \<not> chosen_net_drv_open m then Some m
     else do {
       (r, m) \<leftarrow> net_get_packet h m;
       case r of
         None \<Rightarrow> Some m
       | Some (sz, eth, p) \<Rightarrow> do {
           m \<leftarrow> net_dispatch h eth p sz m;
           Some (net_put_packet h p m) } })"

section \<open>Answers as frames\<close>

text \<open>The frame of a response to \<open>eth\<close> that carries \<open>payload\<close>.\<close>

definition udp_frame ::
  "ethernet_frame_header \<Rightarrow> 'a net_scheme \<Rightarrow> u8 list \<Rightarrow> u16 \<Rightarrow> u16 \<Rightarrow> u8 list \<Rightarrow> u8 \<Rightarrow> u8 \<Rightarrow> u8 list" where
  "udp_frame eth m you src_port dst_port payload c1 c2 = src_mac eth @ my_eth_mac m @ [8, 0] @
     ipv4_bytes (of_nat (28 + length payload)) 0x11 c1 c2 (my_ipv4_address m) you @
     udp_bytes dst_port src_port (of_nat (8 + length payload)) @ payload"

text \<open>
  What every answer relies on: a driver is chosen, the addresses have their sizes, and the driver
  gave a buffer at \<open>ret\<close> for \<open>n\<close> bytes of data that does not overlap the sender's address.
\<close>

definition answer_ready ::
  "'h rtl8101_hw_scheme \<Rightarrow> network_driver \<Rightarrow> ethernet_frame_header \<Rightarrow> u32 \<Rightarrow> nat \<Rightarrow> u32 \<Rightarrow> 'a dbg_scheme \<Rightarrow>
    'a dbg_scheme \<Rightarrow> bool" where
  "answer_ready h d eth src_ip n ret m m1 \<longleftrightarrow> chosen_net_drv m = Some d \<and> n \<le> 1580 \<and>
     length (my_eth_mac m) = 6 \<and> length (my_ipv4_address m) = 4 \<and> length (src_mac eth) = 6 \<and>
     drv_prepare_send_packet h d (28 + int n) (reply_eth 0x800 eth m) m = Some (Some ret, m1) \<and>
     apart src_ip 4 ret (28 + n)"

lemma only_in_shift:
  assumes "only_in mm mm' (p + of_nat k) l" and "k + l \<le> n"
  shows "only_in mm mm' p n"
  unfolding only_in_def
proof (intro allI impI)
  fix x assume x: "n \<le> unat (x - p)"
  then have "k \<le> unat (x - p)" "k < 4294967296" using assms(2) unat_bounds(3) [of "x - p"] by linarith+
  then have k: "unat (of_nat k :: u32) = k" "of_nat k \<le> x - p" by (simp_all add: word_le_nat_alt)
  then have "unat (x - p - of_nat k) = unat (x - p) - k" by (simp only: unat_sub)
  then have "l \<le> unat (x - (p + of_nat k))" using x assms(2) by (simp add: diff_diff_eq)
  then show "mm' x = mm x" using assms(1) by (simp add: only_in_def)
qed

text \<open>Data written into a prepared response completes the frame and disturbs nothing else.\<close>

lemma udp_payload_frame:
  fixes m m1 :: "'a dbg_scheme" and ret src_ip :: u32 and src_port dst_port :: u16 and n :: nat
  defines "mm \<equiv> udp_response_fill ret src_ip src_port dst_port (int n) m1"
  assumes ready: "answer_ready h d eth src_ip n ret m m1" and data: "only_in mm mm2 (ret + 28) n"
  shows "only_in (mem m1) mm ret (28 + n)" and "only_in (mem m1) mm2 ret (28 + n)"
    and "chksum_loop mm2 ret 10 10 0 = 0xFFFF"
    and "\<exists>c1 c2. load_bytes mm2 (ret - 14) (42 + n) =
      udp_frame eth m (load_bytes (mem m1) src_ip 4) src_port dst_port (load_bytes mm2 (ret + 28) n) c1 c2"
proof -
  note r = ready [unfolded answer_ready_def]
  have prep: "drv_prepare_send_packet h d (28 + int n) (reply_eth 0x800 eth m) m = Some (Some ret, m1)" using r by simp
  note same = prepare_same [OF prep]
  have me: "length (my_ipv4_address m1) = 4" using r same by simp
  have n: "nat (28 + int n) = 28 + n" "n \<le> 1580" using r by simp_all
  note ub = udp_response_bytes [OF me, of "int n" src_ip ret src_port dst_port, unfolded n nat_int, folded mm_def]
  show o1: "only_in (mem m1) mm ret (28 + n)" using ub(1) r by simp
  have o2: "only_in mm mm2 (ret + of_nat 28) n" using data by simp
  then have "only_in mm mm2 ret (28 + n)" by (rule only_in_shift) simp
  then show o3: "only_in (mem m1) mm2 ret (28 + n)" by (rule only_in_trans [OF o1])
  have head: "load_bytes mm2 ret 28 = load_bytes mm ret 28"
    using only_in_before [OF o2, of 28] n by simp
  obtain c1 c2 where b: "load_bytes mm ret (28 + n) =
      ipv4_bytes (28 + of_nat n) 0x11 c1 c2 (my_ipv4_address m) (load_bytes (mem m1) src_ip 4) @
      udp_bytes dst_port src_port (of_int (int n + 8)) @ replicate n 0"
    using ub(3) r same by auto
  have hd: "load_bytes mm ret 28 =
      ipv4_bytes (28 + of_nat n) 0x11 c1 c2 (my_ipv4_address m) (load_bytes (mem m1) src_ip 4) @
      udp_bytes dst_port src_port (of_int (int n + 8))"
    using load_bytes_sub [of 0 28 "28 + n" mm ret] b r by (simp add: length_ipv4_bytes udp_bytes_def)
  have e: "14 + (28 + n) = 42 + n" "of_int (int n + 8) = (of_nat (8 + n) :: u16)"
    "28 + of_nat n = (of_nat (28 + n) :: u32)" by simp_all
  have "load_bytes mm2 (ret - 14) (14 + (28 + n)) = eth_bytes (reply_eth 0x800 eth m) @ load_bytes mm2 ret (28 + n)"
    using drv.frame_built [OF reply_eth_ok prep o3] r by simp
  also have "load_bytes mm2 ret (28 + n) = load_bytes mm ret 28 @ load_bytes mm2 (ret + 28) n"
    by (simp only: load_bytes_add head) simp
  finally show "\<exists>c1 c2. load_bytes mm2 (ret - 14) (42 + n) =
      udp_frame eth m (load_bytes (mem m1) src_ip 4) src_port dst_port (load_bytes mm2 (ret + 28) n) c1 c2"
    unfolding e udp_frame_def reply_eth_bytes hd length_load_bytes by auto
  have "load_bytes mm2 ret (2 * 10) = load_bytes mm ret (2 * 10)"
    using load_bytes_sub [of 0 20 28 mm2 ret] load_bytes_sub [of 0 20 28 mm ret] head by simp
  then have "chksum_loop mm2 ret 10 10 0 = chksum_loop mm ret 10 10 0" by (rule chksum_loop_bytes)
  then show "chksum_loop mm2 ret 10 10 0 = 0xFFFF" using ub(2) r by simp
qed

text \<open>What the NE-2000 driver goes by when it sends.\<close>

definition tx_state :: "'a ne2000_scheme \<Rightarrow> io_event list \<times> u32 \<times> u32 \<times> u32 \<times> u32" where
  "tx_state m = (hist m, ne2000_probe_base m, ne2000_last_packet m, ne2000_xmit_packet m, ne2000_xmit_packet_size m)"

lemma more_exec_last_seq: "ne2000.more m1 = ne2000.more m \<Longrightarrow> exec_last_seq m1 = exec_last_seq (m :: 'a dbg_scheme)"
  by (cases m; cases m1) simp

lemma udp_answer_frame:
  fixes m :: "'a dbg_scheme"
  assumes ready: "answer_ready h d eth src_ip n ret m m1"
    and fill: "\<And>u. only_in (mem u) (fill (ret + 28) u) (ret + 28) n"
  obtains m2 mp c1 c2 where "udp_answer h eth src_ip src_port dst_port (int n) fill m = drv_send_packet h d m2"
    and "load_bytes (mem m2) (ret - 14) (42 + n) =
      udp_frame eth m (load_bytes (mem m1) src_ip 4) src_port dst_port (load_bytes (fill (ret + 28) mp) (ret + 28) n) c1 c2"
    and "chksum_loop (mem m2) ret 10 10 0 = 0xFFFF"
    and "only_in (mem m1) (mem mp) ret (28 + n)" "only_in (mem m1) (mem m2) ret (28 + n)"
    and "alloc mp = alloc m" "exec_last_seq m2 = exec_last_seq m" "tx_state m2 = tx_state m1"
proof -
  note r = ready [unfolded answer_ready_def]
  then have prep: "drv_prepare_send_packet h d (28 + int n) (reply_eth 0x800 eth m) m = Some (Some ret, m1)" by simp
  note same = prepare_same [OF prep]
  define mp where "mp = m1\<lparr>mem := udp_response_fill ret src_ip src_port dst_port (int n) m1, udp_resp_hdr := ret + 20,
    udp_resp_data := ret + 28, udp_resp_len := of_nat n\<rparr>"
  define m2 where "m2 = mp\<lparr>mem := fill (ret + 28) mp\<rparr>"
  have mem: "mem mp = udp_response_fill ret src_ip src_port dst_port (int n) m1" "mem m2 = fill (ret + 28) mp"
    by (simp_all add: m2_def mp_def)
  have keep: "alloc mp = alloc m" "exec_last_seq m2 = exec_last_seq m" "tx_state m2 = tx_state m1"
    using same(6) more_exec_last_seq [OF same(4)] by (simp_all add: m2_def mp_def tx_state_def)
  have "only_in (mem mp) (mem m2) (ret + 28) n" unfolding mem(2) by (rule fill)
  note f = udp_payload_frame [OF ready this [unfolded mem(1)]]
  have "udp_answer h eth src_ip src_port dst_port (int n) fill m = drv_send_packet h d m2"
    using r prep same
    by (simp add: udp_answer_def make_udp_response_def net_prepare_send_packet_def send_udp_response_def
        net_send_packet_def Let_def add.assoc m2_def mp_def)
  then show ?thesis using f that [of m2 mp] keep unfolding mem by blast
qed

section \<open>What each command answers\<close>

lemma mem_write_Nil [simp]: "mem_write mm p [] = mm"
  by (simp add: mem_write_def)

lemma mem_write_append:
  "length (xs @ ys) < 2 ^ 32 \<Longrightarrow> mem_write (mem_write mm p xs) (p + of_nat (length xs)) ys = mem_write mm p (xs @ ys)"
proof (induction xs arbitrary: mm p)
  case (Cons x xs)
  have "mem_write mm p (x # xs) = mem_write (mem_write mm p [x]) (p + 1) xs"
    using Cons.prems by (intro mem_write_Cons [symmetric]) simp
  then have "mem_write (mem_write mm p (x # xs)) (p + of_nat (length (x # xs))) ys =
      mem_write (mem_write (mem_write mm p [x]) (p + 1) xs) (p + 1 + of_nat (length xs)) ys"
    by (simp add: add.assoc)
  also have "\<dots> = mem_write (mem_write mm p [x]) (p + 1) (xs @ ys)" using Cons by simp
  also have "\<dots> = mem_write mm p (x # xs @ ys)" using Cons.prems by (intro mem_write_Cons) simp
  finally show ?case by simp
qed simp

abbreviation (input) reply_ok :: "u8 list" where "reply_ok \<equiv> [0x4F, 0x4B, 0x20]"

lemma bytes_OK [simp]: "bytes_of ''OK '' = reply_ok"
  by code_simp

lemma ok_hex: "hex_to_str (mem_write mm p reply_ok) (p + 3) x 8 = (mem_write mm p (reply_ok @ hex_digits x 8), p + 11)"
  using mem_write_append [of reply_ok "hex_digits x 8" mm p] by (simp add: hex_to_str_digits)

lemma write_fill_text:
  "write_fill address seq p mm = mem_write mm p (reply_ok @ hex_digits address 8 @ [0x20] @ hex_digits seq 8)"
  unfolding write_fill_def Let_def bytes_OK ok_hex prod.case
  using mem_write_append [of "reply_ok @ hex_digits address 8" "[0x20]" mm p]
    mem_write_append [of "reply_ok @ hex_digits address 8 @ [0x20]" "hex_digits seq 8" mm p]
  by (simp add: hex_to_str_digits add.commute [of 12])

lemma read_fill_text:
  fixes mm p address
  defines "head \<equiv> reply_ok @ hex_digits address 8 @ [0x0A]"
  assumes small: "unat rsize < 4000000000"
  shows "read_fill address rsize p mm =
    mem_write mm p (head @ load_bytes (mem_write mm p head) address (unat rsize))"
proof -
  have a: "mem_write (mem_write mm p (reply_ok @ hex_digits address 8)) (p + 11) [0x0A] = mem_write mm p head"
    using mem_write_append [of "reply_ok @ hex_digits address 8" "[0x0A]" mm p] by (simp add: head_def)
  have "mem_write (mem_write mm p head) (p + 12) (load_bytes (mem_write mm p head) address (unat rsize)) =
      mem_write mm p (head @ load_bytes (mem_write mm p head) address (unat rsize))"
    using mem_write_append [of head "load_bytes (mem_write mm p head) address (unat rsize)" mm p] small
    by (simp add: head_def)
  moreover have "p + 11 + 1 = p + 12" by simp
  ultimately show ?thesis
    unfolding read_fill_def Let_def bytes_OK ok_hex prod.case a memcpy_def by (auto simp: word_gt_0 load_bytes_def add.commute [of 12])
qed

lemma exec_fill_text:
  "fst (hex_to_str (mem_write mm p (bytes_of ''OK Complete '')) (p + 12) seq 8) =
    mem_write mm p (bytes_of ''OK Complete '' @ hex_digits seq 8)"
  using mem_write_append [of "bytes_of ''OK Complete ''" "hex_digits seq 8" mm p]
  by (simp add: hex_to_str_digits bytes_of_def)

text \<open>An answer with a text that depends on the heap pointer at most.\<close>

lemma udp_answer_text:
  fixes m :: "'a dbg_scheme"
  assumes ready: "answer_ready h d eth src_ip n ret m m1"
    and fill: "\<And>u. fill (ret + 28) u = mem_write (mem u) (ret + 28) (text (alloc u))"
    and len: "\<And>a. length (text a) = n"
  obtains m2 c1 c2 where "udp_answer h eth src_ip src_port dst_port (int n) fill m = drv_send_packet h d m2"
    and "load_bytes (mem m2) (ret - 14) (42 + n) =
      udp_frame eth m (load_bytes (mem m1) src_ip 4) src_port dst_port (text (alloc m)) c1 c2"
    and "chksum_loop (mem m2) ret 10 10 0 = 0xFFFF" "only_in (mem m1) (mem m2) ret (28 + n)"
    and "exec_last_seq m2 = exec_last_seq m" "tx_state m2 = tx_state m1"
proof -
  have f: "only_in (mem u) (fill (ret + 28) u) (ret + 28) n" for u
    unfolding fill using len by (intro only_in_write_0) simp_all
  have n: "n < 2 ^ 32" using ready by (simp add: answer_ready_def)
  show ?thesis
  proof (rule udp_answer_frame [of h d eth src_ip n ret m m1 fill src_port dst_port, OF ready f])
    fix m2 mp c1 c2
    assume a: "udp_answer h eth src_ip src_port dst_port (int n) fill m = drv_send_packet h d m2"
      "load_bytes (mem m2) (ret - 14) (42 + n) = udp_frame eth m (load_bytes (mem m1) src_ip 4) src_port dst_port
        (load_bytes (fill (ret + 28) mp) (ret + 28) n) c1 c2"
      "chksum_loop (mem m2) ret 10 10 0 = 0xFFFF" "only_in (mem m1) (mem m2) ret (28 + n)"
      "alloc mp = alloc m" "exec_last_seq m2 = exec_last_seq m" "tx_state m2 = tx_state m1"
    have "load_bytes (fill (ret + 28) mp) (ret + 28) n = text (alloc m)"
      unfolding fill using load_write_whole [OF len n] a(5) by simp
    then show thesis using that a by simp
  qed
qed

text \<open>Two hexadecimal numbers at \<open>p\<close>, one space between them, and a byte behind that ends the second.\<close>

definition number_args :: "memory \<Rightarrow> u32 \<Rightarrow> u8 list \<Rightarrow> u8 list \<Rightarrow> bool" where
  "number_args mm p as bs \<longleftrightarrow> hex_text as \<and> hex_text bs \<and>
     load_bytes mm p (length (as @ [0x20] @ bs)) = as @ [0x20] @ bs \<and>
     hex_end (mm (p + of_nat (length (as @ [0x20] @ bs))))"

lemma number_args_parse:
  assumes "number_args mm p as bs"
  shows "do { p \<leftarrow> skip_whitespace mm p; (a, p) \<leftarrow> s_strtoul_hex mm p;
      p \<leftarrow> skip_whitespace mm p; (b, p) \<leftarrow> s_strtoul_hex mm p; f a b p } =
    f (hex_value 0 as) (hex_value 0 bs) (p + of_nat (length (as @ [0x20] @ bs)))"
  using parse_numbers [of as bs mm p] assms unfolding number_args_def by simp

lemma udp_read_frame:
  fixes m m1 :: "'a dbg_scheme"
  assumes "number_args (mem m) (data + 5) as bs"
  defines "a \<equiv> hex_value 0 as" and "n \<equiv> min 1400 (unat (hex_value 0 bs))"
  assumes ready: "answer_ready h d eth src_ip (12 + n) ret m m1" and ap: "apart a n ret (40 + n)"
  shows "\<exists>m2 c1 c2. udp_read h eth src_ip src_port dst_port data m = drv_send_packet h d m2 \<and>
    load_bytes (mem m2) (ret - 14) (54 + n) = udp_frame eth m (load_bytes (mem m1) src_ip 4) src_port dst_port
      (reply_ok @ hex_digits a 8 @ [0x0A] @ load_bytes (mem m1) a n) c1 c2 \<and>
    chksum_loop (mem m2) ret 10 10 0 = 0xFFFF \<and> only_in (mem m1) (mem m2) ret (40 + n) \<and> tx_state m2 = tx_state m1"
proof -
  define rs where "rs = (if hex_value 0 bs > 1400 then 1400 else hex_value 0 bs)"
  have rs: "unat rs = n" by (auto simp: rs_def n_def word_less_nat_alt min_def)
  have "int (12 + n) = 12 + uint rs" unfolding rs [symmetric] by simp
  then have u: "udp_read h eth src_ip src_port dst_port data m =
      udp_answer h eth src_ip src_port dst_port (int (12 + n)) (\<lambda>data m. read_fill a rs data (mem m)) m"
    unfolding udp_read_def Let_def number_args_parse [OF assms(1)] by (simp add: a_def rs_def)
  let ?head = "reply_ok @ hex_digits a 8 @ [0x0A]"
  have f: "read_fill a rs p mm = mem_write mm p (?head @ load_bytes (mem_write mm p ?head) a n)" for p mm
    using read_fill_text [of rs a p mm] rs by (simp add: n_def)
  have o: "only_in (mem u) (read_fill a rs (ret + 28) (mem u)) (ret + 28) (12 + n)" for u :: "'a dbg_scheme"
    unfolding f by (rule only_in_write_0) simp_all
  show ?thesis
  proof (rule udp_answer_frame [of h d eth src_ip "12 + n" ret m m1 "\<lambda>data m. read_fill a rs data (mem m)"
        src_port dst_port, OF ready o])
    fix m2 mp c1 c2
    assume x: "udp_answer h eth src_ip src_port dst_port (int (12 + n)) (\<lambda>data m. read_fill a rs data (mem m)) m =
        drv_send_packet h d m2"
      "load_bytes (mem m2) (ret - 14) (42 + (12 + n)) = udp_frame eth m (load_bytes (mem m1) src_ip 4) src_port dst_port
        (load_bytes (read_fill a rs (ret + 28) (mem mp)) (ret + 28) (12 + n)) c1 c2"
      "chksum_loop (mem m2) ret 10 10 0 = 0xFFFF" "only_in (mem m1) (mem mp) ret (28 + (12 + n))"
      "only_in (mem m1) (mem m2) ret (28 + (12 + n))" "tx_state m2 = tx_state m1"
    have "only_in (mem m1) (mem mp) ret (40 + n)" using x(4) by simp
    then have "only_in (mem m1) (mem_write (mem mp) (ret + 28) ?head) ret (40 + n)" by (rule only_in_write) simp
    then have l: "load_bytes (mem_write (mem mp) (ret + 28) ?head) a n = load_bytes (mem m1) a n"
      using ap by (rule only_in_load)
    have "load_bytes (read_fill a rs (ret + 28) (mem mp)) (ret + 28) (12 + n) =
        ?head @ load_bytes (mem_write (mem mp) (ret + 28) ?head) a n"
      unfolding f by (rule load_write_whole) (simp_all add: n_def)
    then have "load_bytes (read_fill a rs (ret + 28) (mem mp)) (ret + 28) (12 + n) =
        reply_ok @ hex_digits a 8 @ [0x0A] @ load_bytes (mem m1) a n"
      unfolding l by simp
    then show ?thesis using x(1,2,3,5,6) u by auto
  qed
qed

text \<open>
  READ returns memory. For a request with address \<open>a\<close> and size \<open>s\<close> in hexadecimal, one frame goes
  back to the sender whose payload is OK, the address as eight digits, a newline, and the bytes that
  memory holds there, \<open>s\<close> of them but at most 1400; its IPv4 header verifies, and outside the reply buffer
  memory is as the driver left it when it prepared the buffer. The hypotheses: the byte
  behind the request is no hexadecimal digit, and the reply buffer does not overlap what is read.
\<close>

theorem udp_read_reply:
  fixes m m1 :: "'a dbg_scheme"
  assumes "number_args (mem m) (data + 5) as bs"
  defines "a \<equiv> hex_value 0 as" and "n \<equiv> min 1400 (unat (hex_value 0 bs))"
  assumes ready: "answer_ready h d eth src_ip (12 + n) ret m m1" and ap: "apart a n ret (40 + n)"
  shows "\<exists>m2 c1 c2. udp_read h eth src_ip src_port dst_port data m = drv_send_packet h d m2 \<and>
    load_bytes (mem m2) (ret - 14) (54 + n) = udp_frame eth m (load_bytes (mem m1) src_ip 4) src_port dst_port
      (reply_ok @ hex_digits a 8 @ [0x0A] @ load_bytes (mem m1) a n) c1 c2 \<and>
    chksum_loop (mem m2) ret 10 10 0 = 0xFFFF \<and> only_in (mem m1) (mem m2) ret (40 + n)"
  using udp_read_frame [OF assms(1) ready [unfolded n_def] ap [unfolded a_def n_def]] unfolding a_def n_def by blast

text \<open>An idle NE-2000 is ready to answer.\<close>

lemma idle_ready:
  fixes m :: "'a dbg_scheme"
  assumes "chosen_net_drv m = Some Ne2000" "ne2000_xmit_packet m = 0x170800" "n \<le> 1491"
    "length (my_eth_mac m) = 6" "length (my_ipv4_address m) = 4" "length (src_mac eth) = 6"
    "apart src_ip 4 0x17080E (28 + n)"
  obtains m1 where "answer_ready rtl8101_idle_hw Ne2000 eth src_ip n 0x17080E m m1"
    and "mem m1 = eth_store (mem m) 0x170800 (reply_eth 0x800 eth m)"
proof -
  have "28 + int n < 1520" using assms by simp
  then obtain hs where p: "drv_prepare_send_packet rtl8101_idle_hw Ne2000 (28 + int n) (reply_eth 0x800 eth m) m =
      Some (Some (ne2000_xmit_packet m + 14), m\<lparr>hist := hs,
        mem := eth_store (mem m) (ne2000_xmit_packet m) (reply_eth 0x800 eth m),
        ne2000_xmit_packet_size := of_int (28 + int n + 14)\<rparr>)"
    by (rule idle_prepare)
  have "0x170800 + 14 = (0x17080E :: u32)" by simp
  then show ?thesis using p assms that unfolding assms(2) answer_ready_def by auto
qed

lemma eth_store_apart: "length (eth_bytes hdr) = 14 \<Longrightarrow> apart x n p 14 \<Longrightarrow> load_bytes (eth_store mm p hdr) x n = load_bytes mm x n"
  unfolding eth_store_def by (rule load_write_apart) simp

text \<open>The example frame came from 192.168.250.1, with the command's text behind the UDP header.\<close>

definition cmd_example :: "u8 list \<Rightarrow> memory" where
  "cmd_example text = mem_write (mem_write (\<lambda>_. 0) 0x17002A text) 0x17001A [192, 168, 250, 1]"

abbreviation (input) cmd_eth :: ethernet_frame_header where
  "cmd_eth \<equiv> \<lparr>dst_mac = [0, 1, 2, 3, 4, 5], src_mac = [9, 9, 9, 9, 9, 9], eth_type = 8\<rparr>"

lemma cmd_example_ready:
  assumes "n \<le> 1491"
  obtains m1 where "answer_ready rtl8101_idle_hw Ne2000 cmd_eth 0x17001A n 0x17080E (dbg_example mm) m1"
    and "\<forall>x k. apart x k 0x170800 14 \<longrightarrow> load_bytes (mem m1) x k = load_bytes mm x k"
proof -
  have a: "apart 0x17001A 4 0x17080E (28 + n)" using assms by (simp add: apart_def)
  show ?thesis
    by (rule idle_ready [of "dbg_example mm" n cmd_eth "0x17001A", OF _ _ assms _ _ _ a])
      (use that in \<open>auto simp: eth_store_apart reply_eth_bytes\<close>)
qed

text \<open>READ 17002A 4 reads the command's own first bytes.\<close>

theorem udp_read_reply_witness:
  "\<exists>m2 c1 c2. udp_read rtl8101_idle_hw cmd_eth 0x17001A 5000 777 0x17002A
      (dbg_example (cmd_example (bytes_of ''READ 17002A 4''))) = drv_send_packet rtl8101_idle_hw Ne2000 m2 \<and>
    load_bytes (mem m2) 0x170800 58 = udp_frame cmd_eth (dbg_example (cmd_example (bytes_of ''READ 17002A 4'')))
      [192, 168, 250, 1] 5000 777 (bytes_of ''OK 0017002A'' @ [0x0A] @ bytes_of ''READ'') c1 c2"
proof -
  let ?mm = "cmd_example (bytes_of ''READ 17002A 4'')"
  have n: "number_args ?mm (0x17002A + 5) (bytes_of ''17002A'') (bytes_of ''4'')"
    "hex_value 0 (bytes_of ''17002A'') = 0x17002A" "hex_value 0 (bytes_of ''4'') = 4"
    "load_bytes ?mm 0x17002A 4 = bytes_of ''READ''" "load_bytes ?mm 0x17001A 4 = [192, 168, 250, 1]"
    "reply_ok @ hex_digits 0x17002A 8 = bytes_of ''OK 0017002A''"
    subgoal by code_simp
    subgoal by code_simp
    subgoal by code_simp
    subgoal by code_simp
    subgoal by code_simp
    subgoal by code_simp
    done
  have "12 + 4 \<le> (1491 :: nat)" by simp
  then obtain m1 where r: "answer_ready rtl8101_idle_hw Ne2000 cmd_eth 0x17001A (12 + 4) 0x17080E (dbg_example ?mm) m1"
    and l: "\<forall>x k. apart x k 0x170800 14 \<longrightarrow> load_bytes (mem m1) x k = load_bytes ?mm x k"
    by (rule cmd_example_ready)
  have lm: "load_bytes (mem m1) 0x17002A 4 = bytes_of ''READ''" "load_bytes (mem m1) 0x17001A 4 = [192, 168, 250, 1]"
    using l [rule_format, of "0x17002A" 4] l [rule_format, of "0x17001A" 4] n by (simp_all add: apart_def)
  have e: "min 1400 (unat (4 :: u32)) = 4" "54 + 4 = (58 :: nat)" "0x17080E - 14 = (0x170800 :: u32)" by simp_all
  have "number_args (mem (dbg_example ?mm)) (0x17002A + 5) (bytes_of ''17002A'') (bytes_of ''4'')" using n(1) by simp
  note t = udp_read_reply [OF this, unfolded n(2,3) e, OF r, unfolded lm]
  have "apart (0x17002A :: u32) 4 0x17080E (40 + 4)" by (simp add: apart_def)
  note u = t [OF this, of 5000 777, unfolded e]
  show ?thesis unfolding n(6) [symmetric] append_assoc using u by blast
qed

text \<open>
  C21. Unknown commands are refused and the two simple commands answered as documented: TEST with the
  machine type, LOW with the heap pointer as eight digits, anything else with an error; each with one
  frame to the sender whose IPv4 header verifies.
\<close>

theorem udp_simple_replies:
  fixes m m1 m1' m1'' :: "'a dbg_scheme"
  assumes "answer_ready h d eth src_ip 9 ret m m1" "answer_ready h d eth src_ip 11 ret' m m1'"
    "answer_ready h d eth src_ip 19 ret'' m m1''"
  shows "(\<exists>m2 c1 c2. udp_test h eth src_ip src_port dst_port m = drv_send_packet h d m2 \<and>
      load_bytes (mem m2) (ret - 14) 51 = udp_frame eth m (load_bytes (mem m1) src_ip 4) src_port dst_port
        (bytes_of ''OK x86-32'') c1 c2 \<and> chksum_loop (mem m2) ret 10 10 0 = 0xFFFF) \<and>
    (\<exists>m2 c1 c2. udp_low h eth src_ip src_port dst_port m = drv_send_packet h d m2 \<and>
      load_bytes (mem m2) (ret' - 14) 53 = udp_frame eth m (load_bytes (mem m1') src_ip 4) src_port dst_port
        (reply_ok @ hex_digits (alloc m) 8) c1 c2 \<and> chksum_loop (mem m2) ret' 10 10 0 = 0xFFFF) \<and>
    (\<exists>m2 c1 c2. udp_unknown h eth src_ip src_port dst_port m = drv_send_packet h d m2 \<and>
      load_bytes (mem m2) (ret'' - 14) 61 = udp_frame eth m (load_bytes (mem m1'') src_ip 4) src_port dst_port
        (bytes_of ''ERR Unknown command'') c1 c2 \<and> chksum_loop (mem m2) ret'' 10 10 0 = 0xFFFF)"
proof (intro conjI)
  let ?t = "bytes_of ''OK x86-32''" and ?u = "bytes_of ''ERR Unknown command''"
  have l: "length ?t = 9" "length ?u = 19" "int (length ''OK x86-32'') = int 9"
    "int (length ''ERR Unknown command'') = int 19" by (simp_all add: bytes_of_def)
  show "\<exists>m2 c1 c2. udp_test h eth src_ip src_port dst_port m = drv_send_packet h d m2 \<and>
      load_bytes (mem m2) (ret - 14) 51 = udp_frame eth m (load_bytes (mem m1) src_ip 4) src_port dst_port
        ?t c1 c2 \<and> chksum_loop (mem m2) ret 10 10 0 = 0xFFFF"
    unfolding udp_test_def l
    by (rule udp_answer_text [OF assms(1), of "\<lambda>data m. mem_write (mem m) data ?t" "\<lambda>_. ?t" src_port dst_port])
      (auto simp: l)
  show "\<exists>m2 c1 c2. udp_unknown h eth src_ip src_port dst_port m = drv_send_packet h d m2 \<and>
      load_bytes (mem m2) (ret'' - 14) 61 = udp_frame eth m (load_bytes (mem m1'') src_ip 4) src_port dst_port
        ?u c1 c2 \<and> chksum_loop (mem m2) ret'' 10 10 0 = 0xFFFF"
    unfolding udp_unknown_def l
    by (rule udp_answer_text [OF assms(3), of "\<lambda>data m. mem_write (mem m) data ?u" "\<lambda>_. ?u" src_port dst_port])
      (auto simp: l)
  have e: "3 + 8 = int 11" by simp
  show "\<exists>m2 c1 c2. udp_low h eth src_ip src_port dst_port m = drv_send_packet h d m2 \<and>
      load_bytes (mem m2) (ret' - 14) 53 = udp_frame eth m (load_bytes (mem m1') src_ip 4) src_port dst_port
        (reply_ok @ hex_digits (alloc m) 8) c1 c2 \<and> chksum_loop (mem m2) ret' 10 10 0 = 0xFFFF"
    unfolding udp_low_def bytes_OK ok_hex fst_conv e
    by (rule udp_answer_text [OF assms(2), of "\<lambda>data m. mem_write (mem m) data (reply_ok @ hex_digits (alloc m) 8)"
          "\<lambda>a. reply_ok @ hex_digits a 8" src_port dst_port]) auto
qed

theorem udp_simple_replies_witness:
  "\<exists>m2 c1 c2. udp_test rtl8101_idle_hw cmd_eth 0x17001A 5000 777 (dbg_example (cmd_example (bytes_of ''TEST''))) =
      drv_send_packet rtl8101_idle_hw Ne2000 m2 \<and>
    load_bytes (mem m2) 0x170800 51 = udp_frame cmd_eth (dbg_example (cmd_example (bytes_of ''TEST'')))
      [192, 168, 250, 1] 5000 777 (bytes_of ''OK x86-32'') c1 c2"
proof -
  let ?mm = "cmd_example (bytes_of ''TEST'')"
  have le: "9 \<le> (1491 :: nat)" "11 \<le> (1491 :: nat)" "19 \<le> (1491 :: nat)" by simp_all
  obtain m1 where r: "answer_ready rtl8101_idle_hw Ne2000 cmd_eth 0x17001A 9 0x17080E (dbg_example ?mm) m1"
    and l: "\<forall>x k. apart x k 0x170800 14 \<longrightarrow> load_bytes (mem m1) x k = load_bytes ?mm x k"
    using le(1) by (rule cmd_example_ready)
  obtain m1' where r': "answer_ready rtl8101_idle_hw Ne2000 cmd_eth 0x17001A 11 0x17080E (dbg_example ?mm) m1'"
    using le(2) by (rule cmd_example_ready)
  obtain m1'' where r'': "answer_ready rtl8101_idle_hw Ne2000 cmd_eth 0x17001A 19 0x17080E (dbg_example ?mm) m1''"
    using le(3) by (rule cmd_example_ready)
  have "load_bytes ?mm 0x17001A 4 = [192, 168, 250, 1]" by code_simp
  then have lm: "load_bytes (mem m1) 0x17001A 4 = [192, 168, 250, 1]"
    using l [rule_format, of "0x17001A" 4] by (simp add: apart_def)
  have e: "0x17080E - 14 = (0x170800 :: u32)" by simp
  note t = udp_simple_replies [OF r r' r'', of 5000 777, unfolded lm e]
  show ?thesis using conjunct1 [OF t] by blast
qed

lemma write_data_start_here: "p < fence \<Longrightarrow> mm p = 0x0A \<Longrightarrow> write_data_start mm fence p = p + 1"
  by (simp add: write_data_start_def Let_def scan_newline.simps [of mm fence p])

lemma udp_write_frame:
  fixes m m1 :: "'a dbg_scheme"
  assumes "number_args (mem m) (data + 6) as bs" and "mem m (data + 5) = 0x20"
  defines "k \<equiv> 6 + length (as @ [0x20] @ bs)"
  assumes "mem m (data + of_nat k) = 0x0A" and "load_bytes (mem m) (data + of_nat (k + 1)) (length pl) = pl"
    and "unat data + k + 1 + length pl < 2 ^ 32"
  defines "a \<equiv> hex_value 0 as" and "m0 \<equiv> m\<lparr>mem := mem_write (mem m) (hex_value 0 as) pl\<rparr>"
  assumes ready: "answer_ready h d eth src_ip 20 ret m0 m1"
  shows "\<exists>m2 c1 c2. udp_write h eth src_ip src_port dst_port data (of_nat (k + 1 + length pl)) m = drv_send_packet h d m2 \<and>
    load_bytes (mem m2) (ret - 14) 62 = udp_frame eth m (load_bytes (mem m1) src_ip 4) src_port dst_port
      (reply_ok @ hex_digits a 8 @ [0x20] @ hex_digits (hex_value 0 bs) 8) c1 c2 \<and>
    only_in (mem m1) (mem m2) ret 48 \<and> tx_state m2 = tx_state m1"
proof -
  let ?p = "data + of_nat k" and ?fence = "data + of_nat (k + 1 + length pl)"
  have "data + 6 + of_nat (length (as @ [0x20] @ bs)) = ?p" by (simp add: k_def)
  note np = number_args_parse [OF assms(1), unfolded this]
  have first: "mem m (data + 6) \<noteq> 0x20"
    using assms(1) load_bytes_append(1) [of "mem m" "data + 6" as "[0x20] @ bs"] hex_text_first
    unfolding number_args_def by blast
  have sp: "skip_whitespace (mem m) (data + 5) = skip_whitespace (mem m) (data + 6)"
    using skip_whitespace_one [of "mem m" "data + 5"] skip_whitespace_none [of "mem m" "data + 6"] assms(2) first
    by (simp add: add.assoc)
  have un: "unat ?p = unat data + k" "unat ?fence = unat data + (k + 1 + length pl)"
    using assms(6) by (simp_all add: unat_word_ariths(1) unat_of_nat_small)
  then have lt: "?p < ?fence" by (simp add: word_less_nat_alt)
  then have ws: "write_data_start (mem m) ?fence ?p = data + of_nat (k + 1)"
    using write_data_start_here [OF lt, of "mem m"] assms(4) by (simp add: ac_simps)
  have dl: "?fence - (data + of_nat (k + 1)) = of_nat (length pl)" by simp
  have ul: "unat (of_nat (length pl) :: u32) = length pl" using assms(6) by (intro unat_of_nat_small) simp
  have w: "(if (of_nat (length pl) :: u32) > 0
      then m\<lparr>mem := memcpy (mem m) a (data + of_nat (k + 1)) (of_nat (length pl))\<rparr> else m) = m0"
    using ul assms(5) by (auto simp: memcpy_def m0_def a_def word_gt_0 simp del: of_nat_add)
  have e: "3 + 8 + 1 + 8 = int 20" by simp
  have u: "udp_write h eth src_ip src_port dst_port data (of_nat (k + 1 + length pl)) m =
      udp_answer h eth src_ip src_port dst_port (int 20)
        (\<lambda>data m. write_fill a (hex_value 0 bs) data (mem m)) m0"
    unfolding udp_write_def Let_def sp np ws dl w [unfolded a_def] e a_def by simp
  show ?thesis
    unfolding u write_fill_text
    by (rule udp_answer_text [OF ready, of "\<lambda>data m. mem_write (mem m) data
          (reply_ok @ hex_digits a 8 @ [0x20] @ hex_digits (hex_value 0 bs) 8)"
          "\<lambda>_. reply_ok @ hex_digits a 8 @ [0x20] @ hex_digits (hex_value 0 bs) 8" src_port dst_port])
      (auto simp: m0_def udp_frame_def)
qed

text \<open>
  C9. WRITE stores the data and confirms. For a request that carries an address, a sequence number, a newline and
  data, exactly the data are stored at the address before the answer is prepared, and the one frame
  that goes back confirms address and sequence number; outside the reply buffer, memory is as the
  driver left it when it prepared the buffer.
\<close>

theorem udp_write_reply:
  fixes m m1 :: "'a dbg_scheme"
  assumes "number_args (mem m) (data + 6) as bs" and "mem m (data + 5) = 0x20"
  defines "k \<equiv> 6 + length (as @ [0x20] @ bs)"
  assumes "mem m (data + of_nat k) = 0x0A" and "load_bytes (mem m) (data + of_nat (k + 1)) (length pl) = pl"
    and "unat data + k + 1 + length pl < 2 ^ 32"
  defines "a \<equiv> hex_value 0 as" and "m0 \<equiv> m\<lparr>mem := mem_write (mem m) (hex_value 0 as) pl\<rparr>"
  assumes ready: "answer_ready h d eth src_ip 20 ret m0 m1"
  shows "\<exists>m2 c1 c2. udp_write h eth src_ip src_port dst_port data (of_nat (k + 1 + length pl)) m = drv_send_packet h d m2 \<and>
    load_bytes (mem m2) (ret - 14) 62 = udp_frame eth m (load_bytes (mem m1) src_ip 4) src_port dst_port
      (reply_ok @ hex_digits a 8 @ [0x20] @ hex_digits (hex_value 0 bs) 8) c1 c2 \<and>
    only_in (mem m1) (mem m2) ret 48"
  using udp_write_frame [OF assms(1,2) assms(4,5,6) [unfolded k_def] ready [unfolded m0_def]] unfolding k_def a_def by blast

text \<open>WRITE 100000 5 stores two bytes at 0x100000.\<close>

theorem udp_write_reply_witness:
  "\<exists>m2 c1 c2. udp_write rtl8101_idle_hw cmd_eth 0x17001A 5000 777 0x17002A 17
      (dbg_example (cmd_example (bytes_of ''WRITE 100000 5'' @ [0x0A, 0xAB, 0xCD]))) = drv_send_packet rtl8101_idle_hw Ne2000 m2 \<and>
    load_bytes (mem m2) 0x170800 62 = udp_frame cmd_eth (dbg_example (cmd_example (bytes_of ''WRITE 100000 5'' @ [0x0A, 0xAB, 0xCD])))
      [192, 168, 250, 1] 5000 777 (bytes_of ''OK 00100000 00000005'') c1 c2 \<and>
    load_bytes (mem m2) 0x100000 2 = [0xAB, 0xCD]"
proof -
  let ?mm = "cmd_example (bytes_of ''WRITE 100000 5'' @ [0x0A, 0xAB, 0xCD])"
  let ?mw = "mem_write ?mm 0x100000 [0xAB, 0xCD]"
  have n: "number_args ?mm (0x17002A + 6) (bytes_of ''100000'') (bytes_of ''5'')" by code_simp
  have v: "hex_value 0 (bytes_of ''100000'') = 0x100000" "hex_value 0 (bytes_of ''5'') = 5"
    "reply_ok @ hex_digits 0x100000 8 @ [0x20] @ hex_digits 5 8 = bytes_of ''OK 00100000 00000005''"
    subgoal by code_simp
    subgoal by code_simp
    subgoal by code_simp
    done
  have b: "?mm (0x17002A + 5) = 0x20" "?mm (0x17002A + of_nat (6 + length (bytes_of ''100000'' @ [0x20] @ bytes_of ''5''))) = 0x0A"
    "load_bytes ?mm (0x17002A + of_nat (6 + length (bytes_of ''100000'' @ [0x20] @ bytes_of ''5'') + 1)) (length [0xAB, 0xCD :: u8]) = [0xAB, 0xCD]"
    subgoal by code_simp
    subgoal by code_simp
    subgoal by code_simp
    done
  have len: "unat (0x17002A :: u32) + (6 + length (bytes_of ''100000'' @ [0x20] @ bytes_of ''5'')) + 1 + length [0xAB, 0xCD :: u8] < 2 ^ 32"
    by (simp add: bytes_of_def)
  have k: "6 + length (bytes_of ''100000'' @ [0x20] @ bytes_of ''5'') = 14" by (simp add: bytes_of_def)
  have ex: "(dbg_example ?mm)\<lparr>mem := ?mw\<rparr> = dbg_example ?mw" by (simp add: dbg_example_def)
  have "20 \<le> (1491 :: nat)" by simp
  then obtain m1 where r: "answer_ready rtl8101_idle_hw Ne2000 cmd_eth 0x17001A 20 0x17080E (dbg_example ?mw) m1"
    and l: "\<forall>x k. apart x k 0x170800 14 \<longrightarrow> load_bytes (mem m1) x k = load_bytes ?mw x k"
    by (rule cmd_example_ready)
  have ip: "load_bytes ?mm 0x17001A 4 = [192, 168, 250, 1]" by code_simp
  have "load_bytes ?mw 0x17001A 4 = load_bytes ?mm 0x17001A 4" by (rule load_write_apart) (simp add: apart_def)
  then have lm: "load_bytes (mem m1) 0x17001A 4 = [192, 168, 250, 1]"
    using l [rule_format, of "0x17001A" 4] ip by (simp add: apart_def)
  have "load_bytes ?mw 0x100000 2 = [0xAB, 0xCD]" by (rule load_write_whole) simp_all
  then have lw: "load_bytes (mem m1) 0x100000 2 = [0xAB, 0xCD]"
    using l [rule_format, of "0x100000" 2] by (simp add: apart_def)
  have e: "0x17080E - 14 = (0x170800 :: u32)" "(of_nat (14 + 1 + length [0xAB, 0xCD :: u8]) :: u32) = 17" by simp_all
  note t = udp_write_reply [of "dbg_example ?mm" "0x17002A" "bytes_of ''100000''" "bytes_of ''5''" "[0xAB, 0xCD]"
      rtl8101_idle_hw Ne2000 cmd_eth "0x17001A" "0x17080E" m1 5000 777,
      unfolded dbg_example_fields(1), OF n b len, unfolded v(1,2) ex, OF r, unfolded lm k e v(3)]
  obtain m2 c1 c2 where u: "udp_write rtl8101_idle_hw cmd_eth 0x17001A 5000 777 0x17002A 17 (dbg_example ?mm) =
      drv_send_packet rtl8101_idle_hw Ne2000 m2"
    "load_bytes (mem m2) 0x170800 62 = udp_frame cmd_eth (dbg_example ?mm) [192, 168, 250, 1] 5000 777
      (bytes_of ''OK 00100000 00000005'') c1 c2"
    "only_in (mem m1) (mem m2) 0x17080E 48" using t by blast
  have "load_bytes (mem m2) 0x100000 2 = load_bytes (mem m1) 0x100000 2"
    using u(3) by (rule only_in_load) (simp add: apart_def)
  then show ?thesis using u lw by auto
qed

lemma udp_exec_frame:
  fixes m m1 :: "'a dbg_scheme"
  assumes "number_args (mem m) (data + 5) as bs"
  defines "seq \<equiv> hex_value 0 bs"
  assumes call: "seq = exec_last_seq m \<or>
      hw_call h (hex_value 0 as) (mem m) (CallAddr (hex_value 0 as) # hist m) = Some (mm, hs)"
  defines "m0 \<equiv> (if seq = exec_last_seq m then m else m\<lparr>mem := mm, hist := hs, exec_last_seq := seq\<rparr>)"
  assumes ready: "answer_ready h d eth src_ip 20 ret m0 m1"
  shows "\<exists>m2 c1 c2. udp_exec h eth src_ip src_port dst_port data m = drv_send_packet h d m2 \<and>
    load_bytes (mem m2) (ret - 14) 62 = udp_frame eth m (load_bytes (mem m1) src_ip 4) src_port dst_port
      (bytes_of ''OK Complete '' @ hex_digits seq 8) c1 c2 \<and>
    (\<forall>m3. drv_send_packet h d m2 = Some m3 \<longrightarrow> exec_last_seq m3 = seq)"
proof -
  let ?t = "bytes_of ''OK Complete '' @ hex_digits seq 8"
  have e: "12 + 8 = int 20" by simp
  have m0: "exec_last_seq m0 = seq" "my_eth_mac m0 = my_eth_mac m" "my_ipv4_address m0 = my_ipv4_address m"
    by (simp_all add: m0_def)
  have "udp_exec h eth src_ip src_port dst_port data m = udp_answer h eth src_ip src_port dst_port (int 20)
      (\<lambda>data m. mem_write (mem m) data ?t) m0"
    unfolding udp_exec_def Let_def number_args_parse [OF assms(1)] exec_fill_text e seq_def [symmetric]
    using call by (auto simp: m0_def)
  moreover obtain m2 c1 c2 where "udp_answer h eth src_ip src_port dst_port (int 20)
      (\<lambda>data m. mem_write (mem m) data ?t) m0 = drv_send_packet h d m2"
    "load_bytes (mem m2) (ret - 14) (42 + 20) = udp_frame eth m0 (load_bytes (mem m1) src_ip 4) src_port dst_port ?t c1 c2"
    "exec_last_seq m2 = exec_last_seq m0"
    by (rule udp_answer_text [OF ready, of "\<lambda>data m. mem_write (mem m) data ?t" "\<lambda>_. ?t" src_port dst_port])
      (auto simp: bytes_of_def)
  moreover have "exec_last_seq m3 = exec_last_seq m2" if "drv_send_packet h d m2 = Some m3" for m3
    using drv_frame(2) [OF that] more_exec_last_seq by (auto simp: net_frame_def)
  ultimately show ?thesis using m0 by (auto simp: udp_frame_def)
qed

text \<open>
  C8. EXEC runs an upload once per sequence number. If the number differs from the last one, the address is
  called, with memory and ports as they are, and the number is recorded; if it is the same, nothing
  is called. Either way one frame confirms the number, and once it is sent the recorded number is
  that of the request, so a repeated request is confirmed without another call. The hypothesis
  on the callee is that it returns.
\<close>

theorem udp_exec_once:
  fixes m m1 :: "'a dbg_scheme"
  assumes "number_args (mem m) (data + 5) as bs"
  defines "seq \<equiv> hex_value 0 bs"
  assumes call: "seq = exec_last_seq m \<or>
      hw_call h (hex_value 0 as) (mem m) (CallAddr (hex_value 0 as) # hist m) = Some (mm, hs)"
  defines "m0 \<equiv> (if seq = exec_last_seq m then m else m\<lparr>mem := mm, hist := hs, exec_last_seq := seq\<rparr>)"
  assumes ready: "answer_ready h d eth src_ip 20 ret m0 m1"
  shows "\<exists>m2 c1 c2. udp_exec h eth src_ip src_port dst_port data m = drv_send_packet h d m2 \<and>
    load_bytes (mem m2) (ret - 14) 62 = udp_frame eth m (load_bytes (mem m1) src_ip 4) src_port dst_port
      (bytes_of ''OK Complete '' @ hex_digits seq 8) c1 c2 \<and>
    (\<forall>m3. drv_send_packet h d m2 = Some m3 \<longrightarrow> exec_last_seq m3 = seq)"
  using udp_exec_frame [OF assms(1) call [unfolded seq_def] ready [unfolded m0_def seq_def]] unfolding seq_def by blast

text \<open>EXEC 100000 7 calls an upload that returns at once.\<close>

theorem udp_exec_once_witness:
  "\<exists>m2 c1 c2. udp_exec rtl8101_idle_hw cmd_eth 0x17001A 5000 777 0x17002A
      (dbg_example (cmd_example (bytes_of ''EXEC 100000 7''))) = drv_send_packet rtl8101_idle_hw Ne2000 m2 \<and>
    load_bytes (mem m2) 0x170800 62 = udp_frame cmd_eth (dbg_example (cmd_example (bytes_of ''EXEC 100000 7'')))
      [192, 168, 250, 1] 5000 777 (bytes_of ''OK Complete 00000007'') c1 c2"
proof -
  let ?mm = "cmd_example (bytes_of ''EXEC 100000 7'')"
  let ?m = "dbg_example ?mm" and ?hs = "CallAddr 0x100000 # hist (dbg_example ?mm)"
  let ?done = "?m\<lparr>mem := ?mm, hist := ?hs, exec_last_seq := 7\<rparr>"
  have n: "number_args ?mm (0x17002A + 5) (bytes_of ''100000'') (bytes_of ''7'')" by code_simp
  have v: "hex_value 0 (bytes_of ''100000'') = 0x100000" "hex_value 0 (bytes_of ''7'') = 7"
    "bytes_of ''OK Complete '' @ hex_digits 7 8 = bytes_of ''OK Complete 00000007''"
    subgoal by code_simp
    subgoal by code_simp
    subgoal by code_simp
    done
  have call: "7 = exec_last_seq ?m \<or> hw_call rtl8101_idle_hw 0x100000 ?mm ?hs = Some (?mm, ?hs)"
    by (simp add: rtl8101_idle_hw_def pcnet32_idle_hw_def quiet_hw_def hw.defs pcnet32_hw.defs rtl8101_hw.defs)
  have m0: "(if 7 = exec_last_seq ?m then ?m else ?done) = ?done" by simp
  obtain m1 where r: "answer_ready rtl8101_idle_hw Ne2000 cmd_eth 0x17001A 20 0x17080E ?done m1"
    and l: "mem m1 = eth_store (mem ?done) 0x170800 (reply_eth 0x800 cmd_eth ?done)"
    by (rule idle_ready [of ?done 20 cmd_eth "0x17001A"]) (simp_all add: apart_def)
  have ip: "load_bytes ?mm 0x17001A 4 = [192, 168, 250, 1]" by code_simp
  have "load_bytes (mem m1) 0x17001A 4 = load_bytes (mem ?done) 0x17001A 4"
    unfolding l by (rule eth_store_apart) (simp_all add: apart_def reply_eth_bytes)
  then have lm: "load_bytes (mem m1) 0x17001A 4 = [192, 168, 250, 1]" using ip by simp
  have e: "0x17080E - 14 = (0x170800 :: u32)" by simp
  note t = udp_exec_once [of ?m "0x17002A" "bytes_of ''100000''" "bytes_of ''7''" rtl8101_idle_hw ?mm ?hs
      Ne2000 cmd_eth "0x17001A" "0x17080E" m1 5000 777,
      unfolded v(1,2) dbg_example_fields(1), OF n call, unfolded m0, OF r, unfolded lm e v(3)]
  then show ?thesis by blast
qed

section \<open>The IPv4 filter\<close>

text \<open>
  Which packets are meant to get through, on the header's bytes: version 4, a header of at least five
  words inside the packet, a header sum of all ones (not written as minus zero), this machine's
  address, no fragment, and a total length between header and packet.
\<close>

definition ipv4_accept :: "u32 \<Rightarrow> int \<Rightarrow> 'a net_scheme \<Rightarrow> bool" where
  "ipv4_accept pkt sz m \<longleftrightarrow>
    (let b = (\<lambda>i. unat (mem m (pkt + of_nat i))); ihl = b 0 mod 16; total = 256 * b 2 + b 3
     in 20 \<le> sz \<and> b 0 div 16 = 4 \<and> 5 \<le> ihl \<and> 4 * int ihl \<le> sz \<and>
        chksum_loop (mem m) pkt (2 * ihl) (2 * ihl) 0 = 0xFFFF \<and> (b 10, b 11) \<noteq> (255, 255) \<and>
        load_bytes (mem m) (pkt + 16) 4 = my_ipv4_address m \<and> b 6 mod 64 = 0 \<and> b 7 = 0 \<and>
        4 * ihl \<le> total \<and> int total \<le> sz)"

lemma ipv4_version:
  fixes v :: u8
  shows "drop_bit 4 v = 4 \<longleftrightarrow> unat v div 16 = 4" and "uint (v AND 0xF) = int (unat v mod 16)"
proof -
  have "unat (drop_bit 4 v) = unat v div 16" by (simp only: unat_drop_bit_eq) (simp add: drop_bit_eq_div)
  then show "drop_bit 4 v = 4 \<longleftrightarrow> unat v div 16 = 4" by (auto simp: word_unat_eq_iff)
  have "v AND 0xF = take_bit 4 v" by (simp add: take_bit_eq_mask mask_eq_exp_minus_1)
  then have "unat (v AND 0xF) = unat v mod 16" by (simp only: unsigned_take_bit_eq) (simp add: take_bit_eq_mod)
  then show "uint (v AND 0xF) = int (unat v mod 16)" by (metis uint_nat)
qed

lemma take_bit_zero_iff: "take_bit n (w :: 'w::len word) = 0 \<longleftrightarrow> (\<forall>i < n. \<not> bit w i)"
  by (auto simp: bit_eq_iff bit_simps dest: bit_imp_le_length)

text \<open>
  The code puts the fragment offset together in the wrong order (it says so), but its only use is the
  test for zero, which is right: the six low bits of the first byte and the second byte are zero.
\<close>

lemma ipv4_fragment:
  fixes a b :: u8
  shows "drop_bit 5 a AND 1 = 0 \<and> (ucast a AND 0x1F) OR push_bit 5 (ucast b) = (0 :: u16) \<longleftrightarrow> unat a mod 64 = 0 \<and> unat b = 0"
proof -
  have "drop_bit 5 a AND 1 = 0 \<longleftrightarrow> \<not> bit a 5"
    by (auto simp: and_one_eq odd_iff_mod_2_eq_one bit_iff_odd_drop_bit even_iff_mod_2_eq_zero)
  moreover have "(ucast a AND 0x1F :: u16) = take_bit 5 (ucast a)" by (simp add: take_bit_eq_mask mask_eq_exp_minus_1)
  then have "(ucast a AND 0x1F :: u16) = 0 \<longleftrightarrow> (\<forall>i < 5. \<not> bit a i)" by (simp only: take_bit_zero_iff) (auto simp: bit_simps)
  moreover have "push_bit 5 (ucast b :: u16) = 0 \<longleftrightarrow> b = 0"
  proof
    assume z: "push_bit 5 (ucast b :: u16) = 0"
    show "b = 0"
    proof (rule bit_word_eqI)
      fix i assume i: "i < LENGTH(8)"
      then have "bit (push_bit 5 (ucast b :: u16)) (i + 5) = bit b i" by (simp add: bit_simps)
      then show "bit b i = bit 0 i" using z by simp
    qed
  qed simp
  moreover have u: "unat (take_bit 6 a) = unat a mod 64" by (simp only: unsigned_take_bit_eq) (simp add: take_bit_eq_mod)
  have "unat a mod 64 = 0 \<longleftrightarrow> take_bit 6 a = 0" unfolding u [symmetric] by (rule unat_eq_0)
  then have "unat a mod 64 = 0 \<longleftrightarrow> (\<forall>i < 6. \<not> bit a i)" by (simp only: take_bit_zero_iff)
  moreover have "i < 6 \<longleftrightarrow> i < 5 \<or> i = 5" for i :: nat by arith
  then have "(\<forall>i < 6. \<not> bit a i) \<longleftrightarrow> (\<forall>i < 5. \<not> bit a i) \<and> \<not> bit a 5" by (simp only:) blast
  moreover have "(x :: u16) OR y = 0 \<longleftrightarrow> x = 0 \<and> y = 0" for x y by (rule or_eq_0_iff)
  ultimately show ?thesis by (simp only: unat_eq_0) blast
qed

lemma ipv4_chksum_test:
  assumes "unat (mm pkt) div 16 = 4" and "5 < n"
  shows "(NOT (chksum_loop mm pkt 5 n 0)) AND 0xFFFF = (ucast (ntoh16 (load16 mm (pkt + 10))) :: u32) \<longleftrightarrow>
    chksum_loop mm pkt n n 0 = 0xFFFF \<and> (unat (mm (pkt + 10)), unat (mm (pkt + 11))) \<noteq> (255, 255)"
proof -
  have "unat (mm pkt) \<noteq> 0" using assms(1) by (intro notI) simp
  then have "word_be mm pkt 0 \<noteq> 0" by (simp add: word_be_def)
  then have nz: "chksum_loop mm pkt 5 n 0 \<noteq> 0"
    using chksum_loop_mod [of 0 mm pkt 5 n] assms(2) by (auto simp: unat_eq_0)
  have "word_be mm pkt 5 = 256 * unat (mm (pkt + 10)) + unat (mm (pkt + 11))"
    using word_be_offset [of mm pkt 5] by simp
  moreover have "256 * unat (mm (pkt + 10)) + unat (mm (pkt + 11)) = 256 * 255 + 255 \<longleftrightarrow>
      unat (mm (pkt + 10)) = 255 \<and> unat (mm (pkt + 11)) = 255"
    using unat_bounds(1) [of "mm (pkt + 11)"] by (intro be_inj) simp_all
  ultimately have "word_be mm pkt 5 = 65535 \<longleftrightarrow> unat (mm (pkt + 10)) = 255 \<and> unat (mm (pkt + 11)) = 255" by simp
  then show ?thesis using chksum_test_iff [OF assms(2), of mm pkt] nz by simp
qed

text \<open>The specification in terms of the tests the code makes.\<close>

lemma ipv4_accept_tests:
  fixes m :: "'a dbg_scheme" and pkt :: u32
  assumes me: "length (my_ipv4_address m) = 4"
  defines "ihl \<equiv> unat (mem m pkt) mod 16" and "tot \<equiv> 256 * unat (mem m (pkt + 2)) + unat (mem m (pkt + 3))"
  shows "ipv4_accept pkt sz m \<longleftrightarrow> 20 \<le> sz \<and> unat (mem m pkt) div 16 = 4 \<and> 5 \<le> ihl \<and> 4 * int ihl \<le> sz \<and>
      (NOT (chksum_loop (mem m) pkt 5 (2 * ihl) 0)) AND 0xFFFF = (ucast (ntoh16 (load16 (mem m) (pkt + 10))) :: u32) \<and>
      memcmp (load_bytes (mem m) (pkt + 16) 4) (my_ipv4_address m) = 0 \<and>
      drop_bit 5 (mem m (pkt + 6)) AND 1 = 0 \<and>
      (ucast (mem m (pkt + 6)) AND 0x1F) OR push_bit 5 (ucast (mem m (pkt + 7))) = (0 :: u16) \<and>
      4 * int ihl \<le> int tot \<and> int tot \<le> sz"
proof -
  have ck: "(NOT (chksum_loop (mem m) pkt 5 (2 * ihl) 0)) AND 0xFFFF =
        (ucast (ntoh16 (load16 (mem m) (pkt + 10))) :: u32) \<longleftrightarrow>
      chksum_loop (mem m) pkt (2 * ihl) (2 * ihl) 0 = 0xFFFF \<and>
      (unat (mem m (pkt + 10)), unat (mem m (pkt + 11))) \<noteq> (255, 255)"
    if "unat (mem m pkt) div 16 = 4" "5 \<le> ihl"
    using ipv4_chksum_test [of "mem m" pkt "2 * ihl"] that by simp
  have fr: "drop_bit 5 (mem m (pkt + 6)) AND 1 = 0 \<and>
      (ucast (mem m (pkt + 6)) AND 0x1F) OR push_bit 5 (ucast (mem m (pkt + 7))) = (0 :: u16) \<and> R \<longleftrightarrow>
      unat (mem m (pkt + 6)) mod 64 = 0 \<and> unat (mem m (pkt + 7)) = 0 \<and> R" for R
    using ipv4_fragment [of "mem m (pkt + 6)" "mem m (pkt + 7)"] by (simp only: flip: conj_assoc)
  have cmp: "memcmp (load_bytes (mem m) (pkt + 16) 4) (my_ipv4_address m) = 0 \<longleftrightarrow>
      load_bytes (mem m) (pkt + 16) 4 = my_ipv4_address m" using me by (simp add: memcmp_eq_0_iff)
  have "4 * ihl \<le> tot \<longleftrightarrow> 4 * int ihl \<le> int tot" by linarith
  then have acc0: "ipv4_accept pkt sz m \<longleftrightarrow> 20 \<le> sz \<and> unat (mem m pkt) div 16 = 4 \<and> 5 \<le> ihl \<and> 4 * int ihl \<le> sz \<and>
      chksum_loop (mem m) pkt (2 * ihl) (2 * ihl) 0 = 0xFFFF \<and>
      (unat (mem m (pkt + 10)), unat (mem m (pkt + 11))) \<noteq> (255, 255) \<and>
      load_bytes (mem m) (pkt + 16) 4 = my_ipv4_address m \<and> unat (mem m (pkt + 6)) mod 64 = 0 \<and>
      unat (mem m (pkt + 7)) = 0 \<and> 4 * int ihl \<le> int tot \<and> int tot \<le> sz"
    unfolding ipv4_accept_def Let_def ihl_def tot_def by simp
  show ?thesis
    unfolding acc0 cmp by (simp only: ck fr conj_assoc cong: conj_cong)
qed

lemma net_on_ipv4_spec:
  fixes m :: "'a dbg_scheme" and pkt :: u32
  assumes me: "length (my_ipv4_address m) = 4"
  defines "ihl \<equiv> unat (mem m pkt) mod 16" and "tot \<equiv> 256 * unat (mem m (pkt + 2)) + unat (mem m (pkt + 3))"
  shows "net_on_ipv4 h eth pkt sz m =
    (if \<not> ipv4_accept pkt sz m then Some m
     else if mem m (pkt + 9) = 1
       then net_on_ipv4_icmp h eth (pkt + 12) (pkt + of_nat (4 * ihl)) (int tot - 4 * int ihl) m
     else if mem m (pkt + 9) = 0x11
       then net_on_ipv4_udp h eth (pkt + 12) (pkt + of_nat (4 * ihl)) (int tot - 4 * int ihl) m
     else Some m) \<and>
    (ipv4_accept pkt sz m \<longrightarrow> 0 \<le> int tot - 4 * int ihl \<and> 4 * int ihl + (int tot - 4 * int ihl) \<le> sz)"
proof -
  have h1: "uint (mem m pkt AND 0xF) * 4 = 4 * int ihl" using ipv4_version(2) [of "mem m pkt"] by (simp add: ihl_def)
  have h2: "nat (4 * int ihl div 2) = 2 * ihl" by simp
  have "pkt + 2 + 1 = pkt + 3" by simp
  then have "unat (ntoh16 (load16 (mem m) (pkt + 2))) = tot" by (simp only: ntoh16_load16 tot_def)
  then have h3: "uint (ntoh16 (load16 (mem m) (pkt + 2))) = int tot" by (simp only: uint_nat)
  have h4: "of_int (4 * int ihl) = (of_nat (4 * ihl) :: u32)" by simp
  note acc = ipv4_accept_tests [OF me, of pkt sz, folded ihl_def tot_def]
  have le: "4 * int ihl < 20 \<longleftrightarrow> \<not> 5 \<le> ihl" "int tot - 4 * int ihl < 0 \<longleftrightarrow> \<not> 4 * int ihl \<le> int tot"
    "sz < x \<longleftrightarrow> \<not> x \<le> sz" "int tot < 4 * int ihl \<longleftrightarrow> \<not> 4 * int ihl \<le> int tot" for x
    by linarith+
  show ?thesis
  proof (cases "ipv4_accept pkt sz m")
    case True
    note ok = True [unfolded acc]
    have "0 \<le> int tot - 4 * int ihl \<and> 4 * int ihl + (int tot - 4 * int ihl) \<le> sz" using ok by linarith
    moreover have "net_on_ipv4 h eth pkt sz m =
        (if mem m (pkt + 9) = 1
           then net_on_ipv4_icmp h eth (pkt + 12) (pkt + of_nat (4 * ihl)) (int tot - 4 * int ihl) m
         else if mem m (pkt + 9) = 0x11
           then net_on_ipv4_udp h eth (pkt + 12) (pkt + of_nat (4 * ihl)) (int tot - 4 * int ihl) m
         else Some m)"
      unfolding net_on_ipv4_def Let_def h1 h2 h3 h4 ipv4_version(1) le using ok by (simp only: simp_thms if_True if_False)
    ultimately show ?thesis using True by (simp only: simp_thms if_False)
  next
    case False
    then have "net_on_ipv4 h eth pkt sz m = Some m"
      unfolding net_on_ipv4_def Let_def h1 h2 h3 h4 ipv4_version(1) le acc by (simp only: split: if_split) blast
    then show ?thesis using False by (simp only: simp_thms if_True)
  qed
qed


text \<open>
  C7. The IPv4 filter lets through exactly the packets it is meant to: those of the specification
  above go to the ICMP or UDP handler by their protocol number, with the bytes behind the header up
  to the total length, which lie inside the received packet; every other packet changes nothing.
\<close>

theorem net_on_ipv4_filter:
  fixes m :: "'a dbg_scheme" and pkt :: u32
  assumes me: "length (my_ipv4_address m) = 4"
  defines "ihl \<equiv> unat (mem m pkt) mod 16" and "tot \<equiv> 256 * unat (mem m (pkt + 2)) + unat (mem m (pkt + 3))"
  shows "net_on_ipv4 h eth pkt sz m =
    (if \<not> ipv4_accept pkt sz m then Some m
     else if mem m (pkt + 9) = 1
       then net_on_ipv4_icmp h eth (pkt + 12) (pkt + of_nat (4 * ihl)) (int tot - 4 * int ihl) m
     else if mem m (pkt + 9) = 0x11
       then net_on_ipv4_udp h eth (pkt + 12) (pkt + of_nat (4 * ihl)) (int tot - 4 * int ihl) m
     else Some m) \<and>
    (ipv4_accept pkt sz m \<longrightarrow> 0 \<le> int tot - 4 * int ihl \<and> 4 * int ihl + (int tot - 4 * int ihl) \<le> sz)"
  unfolding ihl_def tot_def by (rule net_on_ipv4_spec [OF me])

text \<open>An ICMP packet of 28 bytes for this machine.\<close>

theorem net_on_ipv4_filter_witness:
  "net_on_ipv4 rtl8101_idle_hw cmd_eth 0x17000E 40 (dbg_example (mem_write (\<lambda>_. 0) 0x17000E
      [0x45, 0, 0, 28, 0, 0, 0, 0, 64, 1, 0x04, 0x90, 192, 168, 250, 1, 192, 168, 250, 254])) =
    net_on_ipv4_icmp rtl8101_idle_hw cmd_eth 0x17001A 0x170022 8 (dbg_example (mem_write (\<lambda>_. 0) 0x17000E
      [0x45, 0, 0, 28, 0, 0, 0, 0, 64, 1, 0x04, 0x90, 192, 168, 250, 1, 192, 168, 250, 254]))"
proof -
  let ?mm = "mem_write (\<lambda>_. 0) (0x17000E :: u32)
    [0x45, 0, 0, 28, 0, 0, 0, 0, 64, 1, 0x04, 0x90, 192, 168, 250, 1, 192, 168, 250, 254 :: u8]"
  have b: "?mm 0x17000E = 0x45" "?mm (0x17000E + 2) = 0" "?mm (0x17000E + 3) = 28" "?mm (0x17000E + 9) = 1"
    subgoal by code_simp
    subgoal by code_simp
    subgoal by code_simp
    subgoal by code_simp
    done
  have "ipv4_accept 0x17000E 40 (dbg_example ?mm)"
    unfolding ipv4_accept_def dbg_example_fields by code_simp
  then have a: "\<not> ipv4_accept 0x17000E 40 (dbg_example ?mm) \<longleftrightarrow> False" by simp
  have me: "length (my_ipv4_address (dbg_example ?mm)) = 4" by simp
  have e: "unat (0x45 :: u8) mod 16 = 5" "unat (28 :: u8) = 28" "(0x17000E :: u32) + of_nat (4 * 5) = 0x170022"
    "(0x17000E :: u32) + 12 = 0x17001A" "int (256 * unat (0 :: u8) + 28) - 4 * int 5 = 8" by simp_all
  show ?thesis
    using conjunct1 [OF net_on_ipv4_filter [OF me, of rtl8101_idle_hw cmd_eth "0x17000E" 40, unfolded dbg_example_fields(1) b a e]]
    by (simp only: if_False if_True simp_thms)
qed

end
