(* ===== verification/Service.thy ===== *)
theory Service
  imports Debugger
begin

text \<open>
  The debugger as a service: what \<^verbatim>\<open>net_idle\<close> keeps from one packet to the next, that it never
  runs into a call through a missing driver or a missing return value while a driver is open, and when
  it returns.
\<close>

section \<open>What every packet keeps\<close>

text \<open>
  The state the service runs in: a driver that can send is chosen and consistent, no fault is recorded
  and the two addresses have their sizes.
\<close>

definition dbg_ok :: "'a dbg_scheme \<Rightarrow> bool" where
  "dbg_ok m \<longleftrightarrow> (case chosen_net_drv m of None \<Rightarrow> False | Some d \<Rightarrow> d \<noteq> Rtl8139 \<and> drv_ok d m) \<and> fault m = None \<and>
     length (my_ipv4_address m) = 4 \<and> length (my_eth_mac m) = 6"

definition dbg_step :: "'a dbg_scheme \<Rightarrow> 'a dbg_scheme \<Rightarrow> bool" where
  "dbg_step m m' \<longleftrightarrow> (dbg_ok m \<longrightarrow> dbg_ok m' \<and> my_ipv4_address m' = my_ipv4_address m \<and> my_eth_mac m' = my_eth_mac m \<and>
     chosen_net_drv m' = chosen_net_drv m \<and> chosen_net_drv_open m' = chosen_net_drv_open m \<and>
     pci_devices m' = pci_devices m \<and> alloc m' = alloc m \<and> ne2000_xmit_packet m' = ne2000_xmit_packet m)"

lemma dbg_step_refl [simp]: "dbg_step m m"
  by (simp add: dbg_step_def)

lemma dbg_step_trans [trans]: "dbg_step m m' \<Longrightarrow> dbg_step m' m'' \<Longrightarrow> dbg_step m m''"
  by (auto simp: dbg_step_def)

lemma dbg_step_okD: "dbg_step m m' \<Longrightarrow> dbg_ok m \<Longrightarrow> dbg_ok m'"
  by (simp add: dbg_step_def)

lemma drv_ok_updates [simp]:
  fixes m :: "'a dbg_scheme"
  shows "drv_ok d (m\<lparr>mem := mm\<rparr>) = drv_ok d m" "drv_ok d (m\<lparr>hist := hs\<rparr>) = drv_ok d m"
    "drv_ok d (m\<lparr>udp_resp_hdr := a\<rparr>) = drv_ok d m" "drv_ok d (m\<lparr>udp_resp_data := b\<rparr>) = drv_ok d m"
    "drv_ok d (m\<lparr>udp_resp_len := c\<rparr>) = drv_ok d m" "drv_ok d (m\<lparr>exec_last_seq := e\<rparr>) = drv_ok d m"
  by (simp_all add: drv_ok_def pcnet32_ok_def rtl8101_ok_def split: network_driver.split)

lemma dbg_step_updates [simp]:
  fixes u :: "'a dbg_scheme"
  shows "dbg_step m (u\<lparr>mem := mm\<rparr>) = dbg_step m u" "dbg_step m (u\<lparr>hist := hs\<rparr>) = dbg_step m u"
    "dbg_step m (u\<lparr>udp_resp_hdr := a\<rparr>) = dbg_step m u" "dbg_step m (u\<lparr>udp_resp_data := b\<rparr>) = dbg_step m u"
    "dbg_step m (u\<lparr>udp_resp_len := c\<rparr>) = dbg_step m u" "dbg_step m (u\<lparr>exec_last_seq := e\<rparr>) = dbg_step m u"
    "dbg_step (u\<lparr>mem := mm\<rparr>) m = dbg_step u m" "dbg_step (u\<lparr>hist := hs\<rparr>) m = dbg_step u m"
    "dbg_step (u\<lparr>exec_last_seq := e\<rparr>) m = dbg_step u m"
  by (simp_all add: dbg_step_def dbg_ok_def cong: option.case_cong)

lemma console_dbg_step: "console_step m m' \<Longrightarrow> dbg_step m m'"
  by (erule console_stepE)
    (simp add: dbg_step_def dbg_ok_def drv_ok_def pcnet32_ok_def rtl8101_ok_def cong: option.case_cong network_driver.case_cong)

lemma vga_write_dbg_step: "dbg_step m u \<Longrightarrow> dbg_step m (vga_write s u)" "dbg_step (vga_write s m) u \<Longrightarrow> dbg_step m u"
  using console_dbg_step [OF vga_write_step] dbg_step_trans by blast+

text \<open>A driver operation that frames the debugger's fields and keeps the driver's invariant is a step.\<close>

lemma frame_dbg_step:
  fixes m m' :: "'a dbg_scheme"
  assumes "net_frame m m'" and "chosen_net_drv m = Some d" and "drv_ok d m \<Longrightarrow> drv_ok d m'"
  shows "dbg_step m m'"
  using assms by (auto simp: dbg_step_def dbg_ok_def net_frame_def)

lemma fault_dbg_step: "chosen_net_drv m = None \<Longrightarrow> dbg_step m m'"
  by (simp add: dbg_step_def dbg_ok_def)

lemma net_calls_step:
  fixes m m' :: "'a dbg_scheme"
  shows net_prepare_step: "net_prepare_send_packet h sz hdr m = Some (r, m') \<Longrightarrow> dbg_step m m'"
    and net_send_step: "net_send_packet h m = Some m' \<Longrightarrow> dbg_step m m'"
    and net_get_step: "net_get_packet h m = Some (pkt, m') \<Longrightarrow> dbg_step m m'"
    and net_put_step: "dbg_step m (net_put_packet h p m)"
proof -
  note defs = net_prepare_send_packet_def net_send_packet_def net_get_packet_def net_put_packet_def
  consider (none) "chosen_net_drv m = None" | (some) d where "chosen_net_drv m = Some d" by (cases "chosen_net_drv m") auto
  note driver = this
  show "dbg_step m m'" if c: "net_prepare_send_packet h sz hdr m = Some (r, m')"
  proof (cases rule: driver)
    case (some d)
    then have e: "drv_prepare_send_packet h d sz hdr m = Some (r, m')" using c by (simp add: defs)
    then show ?thesis using frame_dbg_step [OF drv_frame(1) [OF e] some drv.prepare_inv [OF _ e]] by blast
  qed (rule fault_dbg_step)
  show "dbg_step m m'" if c: "net_send_packet h m = Some m'"
  proof (cases rule: driver)
    case (some d)
    then have e: "drv_send_packet h d m = Some m'" using c by (simp add: defs)
    then show ?thesis using frame_dbg_step [OF drv_frame(2) [OF e] some drv.send_inv [OF _ e]] by blast
  qed (rule fault_dbg_step)
  show "dbg_step m m'" if c: "net_get_packet h m = Some (pkt, m')"
  proof (cases rule: driver)
    case (some d)
    then have e: "drv_get_packet h d m = Some (pkt, m')" using c by (simp add: defs)
    then show ?thesis using frame_dbg_step [OF drv_frame(3) [OF e] some drv.get_inv [OF _ e]] by blast
  qed (rule fault_dbg_step)
  show "dbg_step m (net_put_packet h p m)"
  proof (cases rule: driver)
    case (some d)
    then have "net_put_packet h p m = drv_put_packet h d p m" by (simp add: defs)
    then show ?thesis using frame_dbg_step [OF drv_frame(4) some drv.put_inv] by metis
  qed (rule fault_dbg_step)
qed

text \<open>Every driver that can be chosen has room for a frame of the debugger.\<close>

lemma net_prepare_room:
  assumes "net_prepare_send_packet h sz hdr m = Some (r, m')" and "dbg_ok m" and "0 \<le> sz" "sz \<le> 1519"
  obtains p where "r = Some p"
proof -
  obtain d where d: "chosen_net_drv m = Some d" "d \<noteq> Rtl8139" using assms(2) by (auto simp: dbg_ok_def split: option.splits)
  then have "sz \<le> drv_limit d" using assms(4) by (cases d) (simp_all add: drv_limit_def)
  then show ?thesis
    using drv.prepare_small [OF assms(3), of d h hdr m r m'] assms(1) d that by (auto simp: net_prepare_send_packet_def)
qed

section \<open>Every handler is a step\<close>

lemma arp_step: "net_on_arp h eth p sz m = Some m' \<Longrightarrow> dbg_step m m'"
  unfolding net_on_arp_def net_on_arp_IPv4_def Let_def
  by (auto simp: bind_eq_Some_conv simp del: append_Cons split: if_splits option.splits
      dest!: net_prepare_step net_send_step intro!: vga_write_dbg_step(1)) (blast intro: dbg_step_trans)

lemma icmp_step: "net_on_ipv4_icmp h eth src_ip p len m = Some m' \<Longrightarrow> dbg_step m m'"
  unfolding net_on_ipv4_icmp_def Let_def
  by (auto simp: bind_eq_Some_conv simp del: append_Cons split: if_splits option.splits
      dest!: net_prepare_step net_send_step vga_write_dbg_step(2) intro!: vga_write_dbg_step(1)) (blast intro: dbg_step_trans)

text \<open>A response of at most 1491 bytes of data always fits, so its maker never returns without a value.\<close>

lemma make_udp_response_step:
  assumes "make_udp_response h eth src_ip sp dp len m = Some (r, m')" and "len \<le> 1491"
  shows "dbg_step m m'"
proof (cases "len < 0 \<or> len > 1580")
  case True
  then show ?thesis using assms by (simp add: make_udp_response_def)
next
  case False
  then obtain p m1 where p: "net_prepare_send_packet h (28 + len) (reply_eth 0x800 eth m) m = Some (p, m1)"
    using assms by (auto simp: make_udp_response_def bind_eq_Some_conv)
  show ?thesis
  proof (cases "dbg_ok m")
    case True
    obtain q where q: "p = Some q" using net_prepare_room [OF p True] False assms(2) by auto
    show ?thesis
      using assms False p q net_prepare_step [OF p] by (auto simp: make_udp_response_def Let_def)
  qed (simp add: dbg_step_def)
qed

lemma udp_answer_step:
  assumes "udp_answer h eth src_ip sp dp len fill m = Some m'" and "len \<le> 1491"
  shows "dbg_step m m'"
proof -
  obtain r m1 where r: "make_udp_response h eth src_ip sp dp len m = Some (r, m1)"
    using assms by (auto simp: udp_answer_def bind_eq_Some_conv)
  have "dbg_step m1 m'"
  proof (cases r)
    case (Some data)
    then have "net_send_packet h (m1\<lparr>mem := fill data m1\<rparr>) = Some m'"
      using assms r by (simp add: udp_answer_def send_udp_response_def)
    then show ?thesis using net_send_step [of h "m1\<lparr>mem := fill data m1\<rparr>" m'] dbg_step_trans [of m1] by simp
  qed (use assms r in \<open>simp add: udp_answer_def\<close>)
  then show ?thesis using make_udp_response_step [OF r assms(2)] dbg_step_trans by blast
qed

lemma udp_answer_after:
  fixes u :: "'a dbg_scheme"
  assumes "udp_answer h eth src_ip sp dp len fill u = Some m'" and "len \<le> 1491" and "dbg_step m u"
  shows "dbg_step m m'"
  using udp_answer_step [OF assms(1,2)] assms(3) dbg_step_trans by blast

lemma udp_commands_step:
  "udp_test h eth src_ip sp dp m = Some m' \<Longrightarrow> dbg_step m m'"
  "udp_low h eth src_ip sp dp m = Some m' \<Longrightarrow> dbg_step m m'"
  "udp_unknown h eth src_ip sp dp m = Some m' \<Longrightarrow> dbg_step m m'"
  unfolding udp_test_def udp_low_def udp_unknown_def by (erule udp_answer_step, simp)+

lemma udp_read_step: "udp_read h eth src_ip sp dp data m = Some m' \<Longrightarrow> dbg_step m m'"
proof -
  have c: "12 + uint (if 1400 < rs then 1400 else rs :: u32) \<le> 1491" for rs
    by (auto simp: word_less_def)
  show "udp_read h eth src_ip sp dp data m = Some m' \<Longrightarrow> dbg_step m m'"
    unfolding udp_read_def Let_def
    by (auto simp: bind_eq_Some_conv split: prod.splits simp del: if_split elim!: udp_answer_step intro: c)
qed

lemma udp_write_step: "udp_write h eth src_ip sp dp data n m = Some m' \<Longrightarrow> dbg_step m m'"
  unfolding udp_write_def Let_def
  by (auto simp: bind_eq_Some_conv split: prod.splits if_splits elim!: udp_answer_after)

lemma udp_exec_step: "udp_exec h eth src_ip sp dp data m = Some m' \<Longrightarrow> dbg_step m m'"
  unfolding udp_exec_def Let_def
  by (auto simp: bind_eq_Some_conv split: prod.splits if_splits elim!: udp_answer_after)

lemma console_after:
  "console_step m u \<Longrightarrow> console_step m (vga_write s u)" "console_step m u \<Longrightarrow> console_step m (vga_writehex v d u)"
  "console_step m u \<Longrightarrow> console_step m (vga_writechar c u)"
  "console_step m u \<Longrightarrow> (\<And>x m. console_step m (f x m)) \<Longrightarrow> console_step m (fold f xs u)"
  by (erule console_step_trans, rule vga_write_step vga_writehex_step vga_writechar_step fold_step; assumption?)+

lemma udp_show_step: "dbg_step m (udp_show sp dp data n m)"
  unfolding udp_show_def Let_def
  by (intro console_dbg_step console_after console_step_refl)

lemmas command_steps = udp_commands_step udp_read_step udp_write_step udp_exec_step udp_show_step

lemma udp_step: "net_on_ipv4_udp h eth src_ip p len m = Some m' \<Longrightarrow> dbg_step m m'"
  unfolding net_on_ipv4_udp_def Let_def by (auto split: if_splits intro: command_steps)

lemma ipv4_step: "net_on_ipv4 h eth p sz m = Some m' \<Longrightarrow> dbg_step m m'"
  unfolding net_on_ipv4_def Let_def by (auto split: if_splits intro: icmp_step udp_step)

lemma net_show_step: "dbg_step m (net_show eth p sz m)"
  unfolding net_show_def Let_def
  by (intro console_dbg_step console_after console_step_refl)

lemma dispatch_step: "net_dispatch h eth p sz m = Some m' \<Longrightarrow> dbg_step m m'"
  unfolding net_dispatch_def by (auto split: if_splits intro: arp_step ipv4_step net_show_step)

lemma net_idle_step: "net_idle h m = Some m' \<Longrightarrow> dbg_step m m'"
  unfolding net_idle_def
  by (auto simp: bind_eq_Some_conv split: if_splits option.splits
      dest!: net_get_step dispatch_step intro!: dbg_step_trans [OF _ net_put_step] elim: dbg_step_trans [rotated])

text \<open>
  C3. The service is safe. While a driver that can send is chosen, whatever packet arrives and whatever
  the card and an uploaded program answer, one round of \<^verbatim>\<open>net_idle\<close> ends in the same kind of state: no call
  through a missing driver and no missing return value, the driver's rings consistent, the addresses,
  the driver and the heap pointer unchanged.
\<close>

theorem net_idle_safe:
  assumes "dbg_ok m" and "net_idle h m = Some m'"
  shows "dbg_ok m' \<and> fault m' = None \<and> my_ipv4_address m' = my_ipv4_address m \<and> my_eth_mac m' = my_eth_mac m \<and>
    chosen_net_drv m' = chosen_net_drv m \<and> chosen_net_drv_open m' = chosen_net_drv_open m \<and> alloc m' = alloc m"
  using net_idle_step [OF assms(2)] assms(1) by (auto simp: dbg_step_def dbg_ok_def)

lemma dbg_example_ok: "dbg_ok (dbg_example mm)"
  by (simp add: dbg_ok_def drv_ok_def)

section \<open>When a round returns\<close>

lemma while_scan: "\<not> b ((f ^^ k) s) \<Longrightarrow> \<exists>t. while_option b f s = Some t"
  by (auto simp: while_option_def)

text \<open>A byte that is neither a space nor a digit, anywhere in memory, ends both scanning loops.\<close>

lemma scan_reaches:
  fixes p x :: u32
  shows "((\<lambda>p. p + 1) ^^ unat (x - p)) p = x"
proof -
  have "((\<lambda>p. p + 1) ^^ n) p = p + of_nat n" for n by (induction n) (simp_all add: ac_simps)
  then show ?thesis by simp
qed

lemma skip_whitespace_returns: "mm x \<noteq> 0x20 \<Longrightarrow> \<exists>q. skip_whitespace mm p = Some q"
  unfolding skip_whitespace_def by (rule while_scan [where k = "unat (x - p)"]) (simp add: scan_reaches)

lemma strtoul_returns:
  assumes "chartohex (uint (mm x)) < 0"
  shows "\<exists>r. s_strtoul_hex mm p = Some r"
proof -
  have "\<exists>r. while_option (\<lambda>(val :: u32, p). chartohex (uint (mm p)) \<ge> 0)
      (\<lambda>(val, p). (push_bit 4 val OR of_int (chartohex (uint (mm p))), p + 1)) (0, q) = Some r" for q
  proof (rule while_scan [where k = "unat (x - q)"])
    let ?f = "\<lambda>(val :: u32, p). (push_bit 4 val OR of_int (chartohex (uint (mm p))), p + 1)"
    have "snd ((?f ^^ n) (v, q)) = ((\<lambda>p. p + 1) ^^ n) q" for n v
      by (induction n) (simp_all add: split_beta)
    then show "\<not> (\<lambda>(val, p). chartohex (uint (mm p)) \<ge> 0) ((?f ^^ unat (x - q)) (0, q))"
      using assms by (simp add: split_beta scan_reaches)
  qed
  then show ?thesis by (auto simp: s_strtoul_hex_def Let_def)
qed

text \<open>What returning takes of the card and of an uploaded program.\<close>

definition card_answers :: "'h rtl8101_hw_scheme \<Rightarrow> network_driver \<Rightarrow> bool" where
  "card_answers h d \<longleftrightarrow> (\<forall>sz hdr (m :: dbg). drv_prepare_send_packet h d sz hdr m \<noteq> None) \<and>
     (\<forall>m :: dbg. drv_send_packet h d m \<noteq> None)"

text \<open>The RealTek driver bounds its waiting, so it always answers.\<close>

lemma rtl8101_answers: "card_answers h Rtl8101"
  by (simp add: card_answers_def drv_prepare_send_packet_def drv_send_packet_def)

lemma net_calls_return:
  fixes m :: dbg
  assumes "card_answers h d" and "chosen_net_drv m = Some d"
  shows "\<exists>r m'. net_prepare_send_packet h sz hdr m = Some (r, m') \<and> chosen_net_drv m' = Some d"
    and "\<exists>m'. net_send_packet h m = Some m'"
proof -
  obtain r m' where e: "drv_prepare_send_packet h d sz hdr m = Some (r, m')"
    using assms(1) by (fastforce simp: card_answers_def)
  then show "\<exists>r m'. net_prepare_send_packet h sz hdr m = Some (r, m') \<and> chosen_net_drv m' = Some d"
    using prepare_same(3) [OF e] assms(2) by (auto simp: net_prepare_send_packet_def)
  show "\<exists>m'. net_send_packet h m = Some m'"
    using assms by (simp add: card_answers_def net_send_packet_def)
qed

lemma make_udp_response_returns:
  fixes m :: dbg
  assumes "card_answers h d" and "chosen_net_drv m = Some d"
  shows "\<exists>r m'. make_udp_response h eth src_ip sp dp len m = Some (r, m') \<and> (r \<noteq> None \<longrightarrow> chosen_net_drv m' = Some d)"
  using net_calls_return(1) [OF assms, of "28 + len" "reply_eth 0x800 eth m"]
  by (auto simp: make_udp_response_def Let_def split: option.split)

lemma udp_answer_returns:
  fixes m :: dbg
  assumes "card_answers h d" and "chosen_net_drv m = Some d"
  shows "\<exists>m'. udp_answer h eth src_ip sp dp len fill m = Some m'"
proof -
  obtain r m1 where r: "make_udp_response h eth src_ip sp dp len m = Some (r, m1)"
    "r \<noteq> None \<longrightarrow> chosen_net_drv m1 = Some d" using make_udp_response_returns [OF assms] by blast
  show ?thesis
  proof (cases r)
    case (Some data)
    then have "chosen_net_drv (m1\<lparr>mem := fill data m1\<rparr>) = Some d" using r by simp
    then show ?thesis using net_calls_return(2) [OF assms(1)] Some r by (simp add: udp_answer_def send_udp_response_def)
  qed (use r in \<open>simp add: udp_answer_def\<close>)
qed

text \<open>The argument parsing of READ, WRITE and EXEC returns when a byte ends it.\<close>

lemma parse_returns:
  assumes "chartohex (uint (mm x)) < 0" and "mm x \<noteq> 0x20" and "\<And>a b q. \<exists>m'. f a b q = Some m'"
  shows "\<exists>m'. do { p \<leftarrow> skip_whitespace mm p; (a, p) \<leftarrow> s_strtoul_hex mm p;
      p \<leftarrow> skip_whitespace mm p; (b, p) \<leftarrow> s_strtoul_hex mm p; f a b p } = Some m'"
proof -
  obtain p1 where "skip_whitespace mm p = Some p1" using skip_whitespace_returns [of mm x, OF assms(2)] by blast
  moreover obtain a p2 where "s_strtoul_hex mm p1 = Some (a, p2)" using strtoul_returns [of mm x, OF assms(1)] by fastforce
  moreover obtain p3 where "skip_whitespace mm p2 = Some p3" using skip_whitespace_returns [of mm x, OF assms(2)] by blast
  moreover obtain b p4 where "s_strtoul_hex mm p3 = Some (b, p4)" using strtoul_returns [of mm x, OF assms(1)] by fastforce
  ultimately show ?thesis using assms(3) by simp
qed

lemma udp_returns:
  fixes m :: dbg
  assumes a: "card_answers h d" and c: "chosen_net_drv m = Some d"
    and x: "chartohex (uint (mem m x)) < 0" "mem m x \<noteq> 0x20"
    and call: "\<And>a mm hs. hw_call h a mm hs \<noteq> None"
  shows "\<exists>m'. net_on_ipv4_udp h eth src_ip p len m = Some m'"
proof -
  note ans = udp_answer_returns [OF a c]
  have r: "\<exists>m'. udp_read h eth src_ip sp dp data m = Some m'" for sp dp data
    unfolding udp_read_def Let_def by (rule parse_returns [of "mem m" x, OF x]) (rule ans)
  have w: "\<exists>m'. udp_write h eth src_ip sp dp data n m = Some m'" for sp dp data n
    unfolding udp_write_def Let_def by (rule parse_returns [of "mem m" x, OF x]) (rule udp_answer_returns [OF a], simp add: c)
  have e: "\<exists>m'. udp_exec h eth src_ip sp dp data m = Some m'" for sp dp data
    unfolding udp_exec_def Let_def
  proof (rule parse_returns [of "mem m" x, OF x])
    fix ad seq :: u32 and q :: u32
    obtain mm hs where "hw_call h ad (mem m) (CallAddr ad # hist m) = Some (mm, hs)" using call by fastforce
    then obtain u where u: "(if seq \<noteq> exec_last_seq m
        then map_option (\<lambda>(mm, hs). m\<lparr>mem := mm, hist := hs, exec_last_seq := seq\<rparr>)
          (hw_call h ad (mem m) (CallAddr ad # hist m)) else Some m) = Some u" "chosen_net_drv u = Some d"
      using c by (cases "seq = exec_last_seq m") auto
    show "\<exists>m'. ((if seq \<noteq> exec_last_seq m
        then map_option (\<lambda>(mm, hs). m\<lparr>mem := mm, hist := hs, exec_last_seq := seq\<rparr>)
          (hw_call h ad (mem m) (CallAddr ad # hist m)) else Some m) \<bind>
        udp_answer h eth src_ip sp dp (12 + 8) (\<lambda>data m. fst (hex_to_str
          (mem_write (mem m) data (bytes_of ''OK Complete '')) (data + 12) seq 8))) = Some m'"
      unfolding u(1) by (simp add: udp_answer_returns [OF a u(2)])
  qed
  show ?thesis
    using r w e ans by (simp add: net_on_ipv4_udp_def Let_def udp_test_def udp_low_def udp_unknown_def)
qed

lemma dispatch_returns:
  fixes m :: dbg
  assumes a: "card_answers h d" and c: "chosen_net_drv m = Some d"
    and x: "chartohex (uint (mem m x)) < 0" "mem m x \<noteq> 0x20"
    and call: "\<And>a mm hs. hw_call h a mm hs \<noteq> None"
  shows "\<exists>m'. net_dispatch h eth p sz m = Some m'"
proof -
  have vg: "chosen_net_drv (vga_write s m) = Some d" for s
    using console_net_frame [OF vga_write_step [of m s]] c by (simp add: net_frame_def)
  have "\<exists>m'. net_on_ipv4_icmp h eth (p + 12) q n m = Some m'" for q n
  proof -
    let ?u = "vga_write (''ICMP echo request, sending reply'' @ crlf) m"
    obtain r m1 where "net_prepare_send_packet h (0x14 + n) (reply_eth ETH_TYPE_IPv4 eth ?u) ?u = Some (r, m1)"
      "chosen_net_drv m1 = Some d" using net_calls_return(1) [OF a vg] by blast
    then show ?thesis
      using net_calls_return(2) [OF a]
      by (auto simp: net_on_ipv4_icmp_def Let_def simp del: append_Cons split: option.split)
  qed
  moreover have "\<exists>m'. net_on_arp h eth p sz m = Some m'"
  proof -
    obtain r m1 where "net_prepare_send_packet h 28 (reply_eth ETH_TYPE_ARP eth m) m = Some (r, m1)"
      "chosen_net_drv m1 = Some d" using net_calls_return(1) [OF a c] by blast
    then show ?thesis
      using net_calls_return(2) [OF a, of "m1\<lparr>mem := arp_reply_fill (the r) p m1\<rparr>"]
      by (auto simp: net_on_arp_def net_on_arp_IPv4_def Let_def simp del: append_Cons split: option.split)
  qed
  ultimately show ?thesis
    using udp_returns [of h d m x, OF assms] by (simp add: net_dispatch_def net_on_ipv4_def Let_def)
qed

text \<open>
  C18. A round returns. If the card answers when it is asked to send, an uploaded program returns, and
  somewhere in memory, once the packet is received, a byte is neither a space nor a hexadecimal digit,
  then \<^verbatim>\<open>net_idle\<close> returns, whatever the packet holds. (The last hypothesis is what ends the number
  parsing, which is not bounded by the packet's length.)
\<close>

theorem net_idle_returns:
  fixes m :: dbg
  assumes "chosen_net_drv m = Some d" and "card_answers h d" and "\<forall>a mm hs. hw_call h a mm hs \<noteq> None"
    and "drv_get_packet h d m = Some (r, m1)" and "chartohex (uint (mem m1 x)) < 0" "mem m1 x \<noteq> 0x20"
  shows "\<exists>m'. net_idle h m = Some m'"
proof -
  have c: "chosen_net_drv m1 = Some d" using drv_frame(3) [OF assms(4)] assms(1) by (simp add: net_frame_def)
  show ?thesis
  proof (cases r)
    case (Some q)
    then obtain sz eth p where q: "r = Some (sz, eth, p)" by (cases q) auto
    obtain m' where "net_dispatch h eth p sz m1 = Some m'"
      using dispatch_returns [of h d m1 x, OF assms(2) c assms(5,6)] assms(3) by blast
    then show ?thesis using assms q by (simp add: net_idle_def net_get_packet_def)
  qed (use assms in \<open>simp add: net_idle_def net_get_packet_def\<close>)
qed

section \<open>From request to reply\<close>

text \<open>How a round handles a UDP packet for port 777 that asks for no checksum.\<close>

lemma net_idle_udp:
  fixes m m0 :: "'a dbg_scheme" and p :: u32
  assumes drv: "chosen_net_drv_open m" "chosen_net_drv m = Some d" "drv_get_packet h d m = Some (Some (sz, eth, p), m0)"
    and me: "length (my_ipv4_address m) = 4"
    and eth: "dst_mac eth = my_eth_mac m" "eth_type eth = 8"
    and ip: "ipv4_accept p sz m0" "mem m0 (p + 9) = 0x11"
  defines "ihl \<equiv> unat (mem m0 p) mod 16" and "tot \<equiv> 256 * unat (mem m0 (p + 2)) + unat (mem m0 (p + 3))"
  shows "net_idle h m = do {
      m' \<leftarrow> net_on_ipv4_udp h eth (p + 12) (p + of_nat (4 * ihl)) (int tot - 4 * int ihl) m0; Some (net_put_packet h p m') }"
proof -
  have fr: "my_ipv4_address m0 = my_ipv4_address m" "my_eth_mac m0 = my_eth_mac m"
    using drv_frame(3) [OF drv(3)] by (simp_all add: net_frame_def)
  have "memcmp (dst_mac eth) (my_eth_mac m0) = 0" using eth fr by (simp add: memcmp_eq_0_iff)
  moreover have "ntoh16 (eth_type eth) = 0x800" using eth(2) by (simp add: ntoh16_def)
  moreover have "net_on_ipv4 h eth p sz m0 =
      net_on_ipv4_udp h eth (p + 12) (p + of_nat (4 * ihl)) (int tot - 4 * int ihl) m0"
    using net_on_ipv4_spec [of m0 h eth p sz] me fr ip unfolding ihl_def tot_def by simp
  ultimately have "net_dispatch h eth p sz m0 =
      net_on_ipv4_udp h eth (p + 12) (p + of_nat (4 * ihl)) (int tot - 4 * int ihl) m0"
    by (simp add: net_dispatch_def)
  then show ?thesis using drv by (simp add: net_idle_def net_get_packet_def)
qed

lemma put_after_udp:
  assumes "dbg_ok m0" "chosen_net_drv m0 = Some d"
  shows "do { m' \<leftarrow> net_on_ipv4_udp h eth src_ip q n m0; Some (net_put_packet h p m') } =
    map_option (drv_put_packet h d p) (net_on_ipv4_udp h eth src_ip q n m0)"
proof (cases "net_on_ipv4_udp h eth src_ip q n m0")
  case (Some m')
  then show ?thesis using udp_step [OF Some] assms by (simp add: dbg_step_def net_put_packet_def)
qed simp

text \<open>
  A command in a received frame: a UDP header at \<open>q\<close> for port 777 without a checksum, with \<open>len\<close> bytes from the
  header to the end of the packet, and the text of the command behind it.
\<close>

definition udp_command :: "memory \<Rightarrow> u32 \<Rightarrow> int \<Rightarrow> u8 list \<Rightarrow> bool" where
  "udp_command mm q len text \<longleftrightarrow> load_bytes mm (q + 2) 2 = [3, 9] \<and> load_bytes mm (q + 6) 2 = [0, 0] \<and>
     int (length text) \<le> uint (ntoh16 (load16 mm (q + 4))) \<and> int (length text) + 8 \<le> len \<and>
     load_bytes mm (q + 8) (length text) = text"

lemma load_bytes_pair: "load_bytes mm p 2 = [a, b] \<longleftrightarrow> mm p = a \<and> mm (p + 1) = b"
  by (simp add: load_bytes_def upt_rec)

lemma udp_command_head:
  assumes "udp_command mm q len (bytes_of text)"
  defines "n \<equiv> uint (ntoh16 (load16 mm (q + 4)))"
  shows "ntoh16 (load16 mm (q + 2)) = 777" "ntoh16 (load16 mm (q + 6)) = 0" "\<not> len < 8"
    "int (length text) \<le> (if n > len - 8 then len - 8 else n)" "load_bytes mm (q + 8) (length text) = bytes_of text"
    "starts_with mm (q + 8) text"
proof -
  have c: "mm (q + 2) = 3" "mm (q + 3) = 9" "mm (q + 6) = 0" "mm (q + 7) = 0" "int (length text) \<le> n" "int (length text) + 8 \<le> len"
    "load_bytes mm (q + 8) (length text) = bytes_of text"
    using assms(1) [unfolded udp_command_def load_bytes_pair] by (simp_all add: add.assoc bytes_of_def n_def)
  show "ntoh16 (load16 mm (q + 2)) = 777" "ntoh16 (load16 mm (q + 6)) = 0" using c by (simp_all add: ntoh16_load_iff add.assoc)
  show "\<not> len < 8" "int (length text) \<le> (if n > len - 8 then len - 8 else n)" "load_bytes mm (q + 8) (length text) = bytes_of text"
    using c by auto
  show "starts_with mm (q + 8) text" unfolding starts_with_def c(7) by (simp add: memcmp_eq_0_iff)
qed

lemma other_command:
  assumes "load_bytes mm p (length text) = bytes_of text"
    and "take 3 (bytes_of text) \<noteq> take 3 (bytes_of word)" "3 \<le> length text" "3 \<le> length word"
  shows "\<not> starts_with mm p word"
proof
  assume "starts_with mm p word"
  then have "load_bytes mm p (length word) = bytes_of word" by (simp add: starts_with_def memcmp_eq_0_iff bytes_of_def)
  then have "take 3 (bytes_of word) = load_bytes mm p 3" "take 3 (bytes_of text) = load_bytes mm p 3"
    using load_bytes_sub [of 0 3 "length word" mm p] load_bytes_sub [of 0 3 "length text" mm p] assms by simp_all
  then show False using assms(2) by simp
qed

lemma net_on_ipv4_udp_read:
  assumes "udp_command (mem m) q len (bytes_of ''READ '')"
  shows "net_on_ipv4_udp h eth src_ip q len m = udp_read h eth src_ip (ntoh16 (load16 (mem m) q)) 777 (q + 8) m"
proof -
  note c = udp_command_head [OF assms]
  have "\<not> starts_with (mem m) (q + 8) ''TEST''" by (rule other_command [OF c(5)]) (simp_all add: bytes_of_def)
  then show ?thesis using c by (simp add: net_on_ipv4_udp_def Let_def)
qed

lemma net_on_ipv4_udp_write:
  assumes "udp_command (mem m) q len (bytes_of ''WRITE '')"
  defines "n \<equiv> uint (ntoh16 (load16 (mem m) (q + 4)))"
  shows "net_on_ipv4_udp h eth src_ip q len m = udp_write h eth src_ip (ntoh16 (load16 (mem m) q)) 777 (q + 8)
    (of_int (if n > len - 8 then len - 8 else n)) m"
proof -
  note c = udp_command_head [OF assms(1)]
  have "\<not> starts_with (mem m) (q + 8) ''TEST''" "\<not> starts_with (mem m) (q + 8) ''READ ''"
    by (rule other_command [OF c(5)]; simp add: bytes_of_def)+
  then show ?thesis using c by (simp add: net_on_ipv4_udp_def Let_def n_def)
qed

lemma net_on_ipv4_udp_exec:
  assumes "udp_command (mem m) q len (bytes_of ''EXEC '')"
  shows "net_on_ipv4_udp h eth src_ip q len m = udp_exec h eth src_ip (ntoh16 (load16 (mem m) q)) 777 (q + 8) m"
proof -
  note c = udp_command_head [OF assms]
  have "\<not> starts_with (mem m) (q + 8) ''TEST''" "\<not> starts_with (mem m) (q + 8) ''READ ''" "\<not> starts_with (mem m) (q + 8) ''LOW''"
    "\<not> starts_with (mem m) (q + 8) ''WRITE ''"
    by (rule other_command [OF c(5)]; simp add: bytes_of_def)+
  then show ?thesis using c by (simp add: net_on_ipv4_udp_def Let_def)
qed


text \<open>A machine whose PCnet card has delivered a frame into the current receive buffer.\<close>

definition rx_example :: "u8 list \<Rightarrow> dbg" where
  "rx_example frame = (dbg_example (mem_write (\<lambda>_. 0) 0x115DC0 frame))\<lparr>chosen_net_drv := Some Pcnet32,
     pcnet32_rx := (replicate 16 rx_zero)[15 := rx_zero\<lparr>rx_status := 0x300, rx_msg_length := of_nat (length frame)\<rparr>]\<rparr>"

lemma pcnet32_idle_sync: "pcnet32_sync rtl8101_idle_hw m = m"
  by (simp add: pcnet32_sync_def rtl8101_idle_hw_def pcnet32_idle_hw_def hw.defs pcnet32_hw.defs rtl8101_hw.defs map_nth)

lemma rx_example_fields [simp]:
  "mem (rx_example frame) = mem_write (\<lambda>_. 0) 0x115DC0 frame" "chosen_net_drv (rx_example frame) = Some Pcnet32"
  "chosen_net_drv_open (rx_example frame)" "my_eth_mac (rx_example frame) = [0, 1, 2, 3, 4, 5]"
  "my_ipv4_address (rx_example frame) = [192, 168, 250, 254]" "fault (rx_example frame) = None"
  "pcnet32_rx_offset (rx_example frame) = 15" "pcnet32_rx_packets (rx_example frame) ! 15 = 0x115DC0"
  "pcnet32_rx (rx_example frame) ! 15 = rx_zero\<lparr>rx_status := 0x300, rx_msg_length := of_nat (length frame)\<rparr>"
  by (simp_all add: rx_example_def dbg_example_defs)

lemma rx_example_ok: "dbg_ok (rx_example frame)"
  by (simp add: dbg_ok_def drv_ok_def pcnet32_ok_def) (simp add: rx_example_def dbg_example_defs)

lemma rx_example_status: "pcnet32_rx_status_read rtl8101_idle_hw ((rx_example frame)\<lparr>hist := hs\<rparr>) =
    (0x300, (rx_example frame)\<lparr>hist := VolatileRead (pcnet32_rx_ptr (rx_example frame) + 0xF6) # hs\<rparr>)"
  by (simp add: pcnet32_rx_status_read_def pcnet32_idle_sync Let_def)

lemma rx_example_get:
  assumes "14 \<le> length frame" "length frame \<le> 1518"
  obtains hs where "drv_get_packet rtl8101_idle_hw Pcnet32 (rx_example frame) = Some
    (Some (int (length frame) - 14, eth_load (mem_write (\<lambda>_. 0) 0x115DC0 frame) 0x115DC0, 0x115DCE), (rx_example frame)\<lparr>hist := hs\<rparr>)"
proof -
  have un: "unat (of_nat (length frame) :: u32) = length frame" using assms by (intro unat_of_nat_small) simp
  have ge: "(14 :: u32) \<le> of_nat (length frame)" using assms by (simp add: word_le_nat_alt unat_of_nat_small)
  have s: "sint ((of_nat (length frame) :: u32) - 14) = int (length frame) - 14"
    using frame_size_sint [of "of_nat (length frame)"] un ge assms by simp
  have "rx_example frame = (rx_example frame)\<lparr>hist := hist (rx_example frame)\<rparr>" by simp
  note st = rx_example_status [of "hist (rx_example frame)" frame, folded this] rx_example_status
  show ?thesis
    by (rule that, simp add: drv_get_packet_def pcnet32_get_packet_def st ge s)
qed

lemma rx_example_prepare:
  assumes "sz \<le> 1586"
  obtains m1 where "drv_prepare_send_packet rtl8101_idle_hw Pcnet32 sz hdr ((rx_example frame)\<lparr>hist := hs\<rparr>) =
      Some (Some 0x12000E, m1)" and "mem m1 = eth_store (mem_write (\<lambda>_. 0) 0x115DC0 frame) 0x120000 hdr"
proof -
  have tx: "pcnet32_tx (rx_example frame) ! 0 = tx_zero" "pcnet32_tx_offset (rx_example frame) = 0"
    "pcnet32_tx_packets (rx_example frame) ! 0 = 0x120000" by (simp_all add: rx_example_def dbg_example_defs)
  then have "\<exists>m1. drv_prepare_send_packet rtl8101_idle_hw Pcnet32 sz hdr ((rx_example frame)\<lparr>hist := hs\<rparr>) =
      Some (Some 0x12000E, m1) \<and> mem m1 = eth_store (mem_write (\<lambda>_. 0) 0x115DC0 frame) 0x120000 hdr"
    using assms by (simp add: drv_prepare_send_packet_def pcnet32_prepare_send_packet_def pcnet32_tx_status_read_def
        pcnet32_idle_sync Let_def while_option_unfold tx_zero_def)
  then show ?thesis using that by blast
qed

text \<open>The frame of the request READ 115DC0 4 for the first bytes of the receive buffer.\<close>

definition read_frame :: "u8 list" where
  "read_frame = [0, 1, 2, 3, 4, 5, 9, 9, 9, 9, 9, 9, 8, 0] @
     [0x45, 0, 0, 41, 0, 0, 0, 0, 64, 0x11, 0x04, 0x73, 192, 168, 250, 1, 192, 168, 250, 254] @
     [0x13, 0x88, 3, 9, 0, 21, 0, 0] @ bytes_of ''READ 115DC0 4''"


text \<open>A frame for another machine leaves the service as it is.\<close>

theorem net_idle_safe_witness:
  "\<exists>m'. net_idle rtl8101_idle_hw (rx_example (replicate 60 7)) = Some m' \<and> dbg_ok m' \<and> chosen_net_drv m' = Some Pcnet32"
proof -
  let ?mm = "mem_write (\<lambda>_. 0) 0x115DC0 (replicate 60 7)"
  have "14 \<le> length (replicate 60 (7 :: u8))" "length (replicate 60 (7 :: u8)) \<le> 1518" by simp_all
  then obtain hs where get: "drv_get_packet rtl8101_idle_hw Pcnet32 (rx_example (replicate 60 7)) = Some
    (Some (int (length (replicate 60 (7 :: u8))) - 14, eth_load ?mm 0x115DC0, 0x115DCE), (rx_example (replicate 60 7))\<lparr>hist := hs\<rparr>)"
    by (rule rx_example_get)
  have "dst_mac (eth_load ?mm 0x115DC0) = [7, 7, 7, 7, 7, 7]" by code_simp
  moreover have "[7, 7, 7, 7, 7, 7 :: u8] \<noteq> replicate 6 0xFF" by code_simp
  ultimately have "net_dispatch rtl8101_idle_hw (eth_load ?mm 0x115DC0) p sz ((rx_example (replicate 60 7))\<lparr>hist := hs\<rparr>) =
      Some ((rx_example (replicate 60 7))\<lparr>hist := hs\<rparr>)" for p sz
    by (simp add: net_dispatch_def memcmp_eq_0_iff)
  then have idle: "\<exists>m'. net_idle rtl8101_idle_hw (rx_example (replicate 60 7)) = Some m'"
    using get by (simp add: net_idle_def net_get_packet_def)
  then obtain m' where "net_idle rtl8101_idle_hw (rx_example (replicate 60 7)) = Some m'" by blast
  with net_idle_safe [OF rx_example_ok this] show ?thesis by auto
qed

lemma rtl8101_idle_sync: "rtl8101_sync rtl8101_idle_hw m = m"
  by (simp add: rtl8101_sync_def rtl8101_idle_hw_def pcnet32_idle_hw_def hw.defs pcnet32_hw.defs rtl8101_hw.defs map_nth)

lemma rtl8101_idle_read: "rtl8101_rx_read rtl8101_idle_hw i m = (x, m') \<Longrightarrow> mem m' = mem m"
  by (auto simp: rtl8101_rx_read_def rtl8101_idle_sync Let_def)

lemma rtl8101_idle_discard: "mem (rtl8101_discard rtl8101_idle_hw m) = mem m"
  by (simp add: rtl8101_discard_def rtl8101_rx_reinit_def rtl8101_rx_write_def rtl8101_adv_packet_def
      rtl8101_rx_read_def rtl8101_idle_sync Let_def)

lemma rtl8101_idle_mem: "rtl8101_get_packet rtl8101_idle_hw m = (r, m') \<Longrightarrow> mem m' = mem m"
  by (auto simp: rtl8101_get_packet_def rtl8101_idle_discard Let_def split: prod.splits if_splits dest!: rtl8101_idle_read)

theorem net_idle_returns_witness:
  "\<exists>m'. net_idle rtl8101_idle_hw ((dbg_example (\<lambda>_. 0))\<lparr>chosen_net_drv := Some Rtl8101\<rparr>) = Some m'"
proof -
  let ?m = "(dbg_example (\<lambda>_. 0))\<lparr>chosen_net_drv := Some Rtl8101\<rparr>"
  obtain r m1 where g: "rtl8101_get_packet rtl8101_idle_hw ?m = (r, m1)" by fastforce
  then have get: "drv_get_packet rtl8101_idle_hw Rtl8101 ?m = Some (r, m1)" by (simp add: drv_get_packet_def)
  have "mem m1 = (\<lambda>_. 0)" using rtl8101_idle_mem [OF g] by simp
  then have x: "chartohex (uint (mem m1 0)) < 0" "mem m1 0 \<noteq> 0x20" by (simp_all add: chartohex_def)
  have "\<forall>a mm hs. hw_call rtl8101_idle_hw a mm hs \<noteq> None"
    by (simp add: rtl8101_idle_hw_def pcnet32_idle_hw_def quiet_hw_def hw.defs pcnet32_hw.defs rtl8101_hw.defs)
  from net_idle_returns [OF _ rtl8101_answers this get x] show ?thesis by simp
qed

end
