(* ===== verification/Dialog.thy ===== *)
theory Dialog
  imports Service
begin

text \<open>
  The two dialogs of \<^verbatim>\<open>src/eth/c-main.c\<close>: entering an IPv4 address and browsing the PCI table. Both are
  loops around the blocking keyboard read; a dialog that is never left is \<open>None\<close>.
\<close>

section \<open>Entering an address\<close>

text \<open>
  One key of \<^verbatim>\<open>change_ip_addr_ui\<close>: the buffer \<^verbatim>\<open>input\<close> up to \<^verbatim>\<open>inputi\<close> is a list. Digits and dots are
  echoed at the column that \<^verbatim>\<open>inputi\<close> gives while there is room, the backspace key removes one.
\<close>

definition is_ip_char :: "int \<Rightarrow> bool" where
  "is_ip_char a \<longleftrightarrow> (a \<ge> of_char CHR ''0'' \<and> a \<le> of_char CHR ''9'') \<or> a = of_char CHR ''.''"

definition change_ip_key :: "int \<Rightarrow> u8 list \<Rightarrow> 'a vga_scheme \<Rightarrow> u8 list \<times> 'a vga_scheme" where
  "change_ip_key a input m =
    (if is_ip_char a then
       (if length input < 63
        then (input @ [of_int a], vga_writechar (of_int a) (m\<lparr>VGA_alpha_x := of_nat (length input)\<rparr>))
        else (input, m))
     else if a = 8 then
       (if length input > 0
        then (let m = m\<lparr>VGA_alpha_x := VGA_alpha_x m - 1\<rparr>;
                  m = vga_writechar (of_char CHR '' '') m;
                  m = m\<lparr>VGA_alpha_x := VGA_alpha_x m - 1\<rparr>
              in (butlast input, vga_update_cursor m))
        else (input, m))
     else (input, m))"

partial_function (option) change_ip_input ::
  "'h hw_scheme \<Rightarrow> u8 list \<Rightarrow> 'a vga_scheme \<Rightarrow> (u8 list \<times> 'a vga_scheme) option" where
  "change_ip_input h input m = do {
     (a, m) \<leftarrow> keyb8042_read_ascii h m;
     if a = 13 then Some (input, m)
     else change_ip_input h (fst (change_ip_key a input m)) (snd (change_ip_key a input m)) }"

text \<open>
  The parser behind the loop (lines 820 to 837), on the bytes of the buffer. The outer option is a number
  that never ends, the inner one an address that is not accepted.
\<close>

definition change_ip_parse :: "memory \<Rightarrow> u32 \<Rightarrow> u8 list option option" where
  "change_ip_parse mm p = do {
     (a, p) \<leftarrow> s_strtoul_dec mm p;
     if mm p \<noteq> of_char CHR ''.'' then Some None else do {
     (b, p) \<leftarrow> s_strtoul_dec mm (p + 1);
     if mm p \<noteq> of_char CHR ''.'' then Some None else do {
     (c, p) \<leftarrow> s_strtoul_dec mm (p + 1);
     if mm p \<noteq> of_char CHR ''.'' then Some None else do {
     (d, p) \<leftarrow> s_strtoul_dec mm (p + 1);
     Some (Some [ucast a, ucast b, ucast c, ucast d]) }}}}"

text \<open>The buffer is a local array; its bytes behind the terminator are never looked at.\<close>

definition ip_buffer :: "u8 list \<Rightarrow> memory" where
  "ip_buffer input = mem_write (\<lambda>_. 0) 0 (input @ [0])"

definition change_ip_addr_ui :: "'h hw_scheme \<Rightarrow> 'a net_scheme \<Rightarrow> 'a net_scheme option" where
  "change_ip_addr_ui h m = do {
     let m = vga_write crlf m;
     let m = vga_write (''Enter new IP address, or hit ENTER to cancel.'' @ crlf) m;
     let m = vga_write (''IP address must follow the standard dotted notation 123.123.123.123'' @ crlf) m;
     (input, m) \<leftarrow> change_ip_input h [] m;
     r \<leftarrow> change_ip_parse (ip_buffer input) 0;
     Some (case r of None \<Rightarrow> m | Some ip \<Rightarrow> m\<lparr>my_ipv4_address := ip\<rparr>) }"

section \<open>Browsing the PCI table\<close>

text \<open>The record that line \<open>idx\<close> shows, if there is one.\<close>

definition pci_menu_dev :: "u32 \<Rightarrow> 'a pci_scheme \<Rightarrow> pci_device option" where
  "pci_menu_dev idx m =
    (if idx \<ge> of_nat MAX_PCI_DEVICE then None
     else if device_id (pci_devices m ! unat idx) = 0 then None else Some (pci_devices m ! unat idx))"

definition pci_menu_blank :: "'a vga_scheme \<Rightarrow> 'a vga_scheme" where
  "pci_menu_blank m = fold (\<lambda>_. vga_writechar (of_char CHR '' '')) [0..<64] m"

definition pci_menu_row :: "u32 \<Rightarrow> u32 \<Rightarrow> 'a pci_scheme \<Rightarrow> 'a pci_scheme" where
  "pci_menu_row idx select m =
    (let m = (if idx = select then vga_color 0x70 m else vga_normal m)
     in case pci_menu_dev idx m of
          None \<Rightarrow> pci_menu_blank m
        | Some dev \<Rightarrow>
            let m = vga_writechar (of_char CHR '':'') (vga_writehex (ucast (bus_no dev)) 2 m);
                m = vga_writechar (of_char CHR ''.'') (vga_writehex (ucast (device_no dev)) 2 m);
                m = vga_write ''  '' (vga_writehex (ucast (function_no dev)) 2 m);
                m = vga_write '','' (vga_writehex (ucast (device_id dev)) 4 m);
                m = vga_write '','' (vga_writehex (ucast (vendor_id dev)) 4 m);
                m = vga_writehex (ucast (ucast (drop_bit 16 (class_code dev)) :: u8)) 2 m
            in vga_write '' '' (vga_writehex (ucast (ucast (class_code dev) :: u16)) 4 m))"

definition pci_menu_draw :: "u32 \<Rightarrow> u32 \<Rightarrow> u32 \<Rightarrow> 'a pci_scheme \<Rightarrow> 'a pci_scheme" where
  "pci_menu_draw lines select scroll m =
    fold (\<lambda>y m. pci_menu_row (of_nat y + scroll) select (m\<lparr>VGA_alpha_x := 0, VGA_alpha_y := of_nat y + 1\<rparr>))
      [0..<unat lines] m"

definition pci_menu_bar :: "nat \<Rightarrow> pci_bar \<Rightarrow> 'a vga_scheme \<Rightarrow> 'a vga_scheme" where
  "pci_menu_bar y bar m =
    (if \<not> bar_present bar then m
     else
       let m = vga_write '': '' (vga_writehex (of_nat y) 2 m);
           m = vga_write (if bar_io bar then ''I/O '' else ''MEM '') m;
           m = vga_writehex (ucast (drop_bit 32 (bar_start bar))) 8 m;
           m = vga_writehex (ucast (bar_start bar)) 8 m;
           m = vga_writechar (of_char CHR ''-'') m;
           m = vga_writehex (ucast (drop_bit 32 (bar_end bar))) 8 m;
           m = vga_writehex (ucast (bar_end bar)) 8 m
       in vga_write crlf m)"

definition pci_menu_details :: "u32 \<Rightarrow> 'a pci_scheme \<Rightarrow> 'a pci_scheme" where
  "pci_menu_details select m =
    (let m = vga_normal (vga_home (vga_clear m))
     in case pci_menu_dev select m of
          None \<Rightarrow> pci_menu_blank m
        | Some dev \<Rightarrow>
            let m = vga_write (''BARs'' @ crlf) m;
                m = (if expansion_rom dev \<noteq> 0
                     then vga_write crlf (vga_writehex (expansion_rom dev) 8 (vga_write ''Expansion ROM: '' m)) else m)
            in fold (\<lambda>y. pci_menu_bar y (BAR dev ! y)) [0..<6] m)"

text \<open>What one key does: the new \<^verbatim>\<open>redraw\<close>, \<^verbatim>\<open>select\<close> and \<^verbatim>\<open>scroll\<close>.\<close>

definition pci_menu_key ::
  "'h hw_scheme \<Rightarrow> u32 \<Rightarrow> int \<Rightarrow> u32 \<Rightarrow> u32 \<Rightarrow> 'a pci_scheme \<Rightarrow> (bool \<times> u32 \<times> u32 \<times> 'a pci_scheme) option" where
  "pci_menu_key h lines r select scroll m =
    (if r = 0x48 then
       Some (if select > 0
             then (let select = select - 1 in (True, select, if select < scroll then select else scroll, m))
             else (False, select, scroll, m))
     else if r = 0x50 then
       Some (let select = select + 1 in (True, select, if select > scroll + lines - 1 then scroll + 1 else scroll, m))
     else if keyb8042_to_ascii r = 13 then do {
       let m = pci_menu_details select m;
       (c, m) \<leftarrow> poll_until (\<lambda>c. c = 1 \<or> c = 0x1C) (keyb8042_read_buffer h) m;
       Some (True, select, scroll, vga_clear m) }
     else Some (False, select, scroll, m))"

partial_function (option) pci_menu_loop ::
  "'h hw_scheme \<Rightarrow> u32 \<Rightarrow> bool \<Rightarrow> u32 \<Rightarrow> u32 \<Rightarrow> 'a pci_scheme \<Rightarrow> 'a pci_scheme option" where
  "pci_menu_loop h lines redraw select scroll m = do {
     (r, m) \<leftarrow> keyb8042_read_buffer h (if redraw then pci_menu_draw lines select scroll m else m);
     (redraw, select, scroll, m) \<leftarrow> pci_menu_key h lines r select scroll m;
     if r = 1 then Some m else pci_menu_loop h lines redraw select scroll m }"

definition pci_bus_menu :: "'h hw_scheme \<Rightarrow> 'a pci_scheme \<Rightarrow> 'a pci_scheme option" where
  "pci_bus_menu h m =
    (let lines = VGA_alpha_rows m - 8;
         m = vga_color 0x0E (vga_home (vga_clear m));
         m = vga_normal (vga_write (''PCI devices present'' @ crlf) m)
     in pci_menu_loop h lines True 0 0 m)"

section \<open>Decimal numbers\<close>

definition dec_digit :: "u8 \<Rightarrow> bool" where
  "dec_digit c \<longleftrightarrow> 0x30 \<le> uint c \<and> uint c \<le> 0x39"

definition dec_value :: "u32 \<Rightarrow> u8 list \<Rightarrow> u32" where
  "dec_value v ds = foldl (\<lambda>v d. v * 10 + of_int (uint d - 0x30)) v ds"

lemma chartohex_digit: "dec_digit c \<Longrightarrow> chartohex (uint c) = uint c - 0x30"
  by (simp add: dec_digit_def chartohex_def)

lemma dec_digit_iff: "chartohex (uint c) \<ge> 0 \<and> \<not> chartohex (uint c) \<ge> 10 \<longleftrightarrow> dec_digit c"
  by (auto simp: dec_digit_def chartohex_def)

lemma load_bytes_Suc: "load_bytes mm p (Suc n) = mm p # load_bytes mm (p + 1) n"
  unfolding load_bytes_def upt_conv_Cons [OF zero_less_Suc] map_Suc_upt [symmetric]
  by (simp add: comp_def algebra_simps)

lemma strtoul_dec_digits:
  assumes "\<forall>d \<in> set ds. dec_digit d" and "load_bytes mm p (length ds) = ds" and "\<not> dec_digit (mm (p + of_nat (length ds)))"
  shows "s_strtoul_dec mm p = Some (dec_value 0 ds, p + of_nat (length ds))"
proof -
  have "while_option (\<lambda>(val, p). dec_digit (mm p))
      (\<lambda>(val, p). (val * 10 + of_int (chartohex (uint (mm p))), p + 1)) (v, p) =
    Some (dec_value v ds, p + of_nat (length ds))" for v
    using assms
  proof (induction ds arbitrary: v p)
    case Nil
    then show ?case by (subst while_option_unfold) (simp add: dec_value_def)
  next
    case (Cons d ds)
    have "mm p = d" "load_bytes mm (p + 1) (length ds) = ds"
      using Cons.prems(2) by (simp_all add: load_bytes_Suc)
    then show ?case
      using Cons.prems Cons.IH [of "p + 1"]
      by (subst while_option_unfold) (simp add: dec_value_def chartohex_digit algebra_simps)
  qed
  then show ?thesis by (simp only: s_strtoul_dec_def dec_digit_iff)
qed

section \<open>The address parser against its specification\<close>

text \<open>The fields of a text, cut at its dots.\<close>

function split_dots :: "u8 list \<Rightarrow> u8 list list" where
  "split_dots t = (let w = takeWhile (\<lambda>c. c \<noteq> 0x2E) t; r = dropWhile (\<lambda>c. c \<noteq> 0x2E) t
     in if r = [] then [w] else w # split_dots (tl r))"
  by pat_completeness auto
termination
proof (relation "measure length")
  fix t w r :: "u8 list"
  assume "r = dropWhile (\<lambda>c. c \<noteq> 0x2E) t" and "r \<noteq> []"
  then have "length r \<le> length t" "0 < length r" by (simp_all add: length_dropWhile_le)
  then have "length r - 1 < length t" by linarith
  then show "(tl r, t) \<in> measure length" by simp
qed simp

declare split_dots.simps [simp del]

definition ip_text :: "u8 list \<Rightarrow> bool" where
  "ip_text t \<longleftrightarrow> (\<forall>c \<in> set t. dec_digit c \<or> c = 0x2E)"

definition text_at :: "memory \<Rightarrow> u32 \<Rightarrow> u8 list \<Rightarrow> bool" where
  "text_at mm p t \<longleftrightarrow> load_bytes mm p (length t + 1) = t @ [0]"

lemma text_at_split:
  assumes "text_at mm p (w @ r)"
  shows "load_bytes mm p (length w) = w" and "text_at mm (p + of_nat (length w)) r"
proof -
  have e: "length (w @ r) + 1 = length w + (length r + 1)" by simp
  have "load_bytes mm p (length w) @ load_bytes mm (p + of_nat (length w)) (length r + 1) = w @ (r @ [0])"
    using assms unfolding text_at_def e load_bytes_add by simp
  then show "load_bytes mm p (length w) = w" and "text_at mm (p + of_nat (length w)) r"
    unfolding text_at_def by simp_all
qed

lemma text_at_first: "text_at mm p t \<Longrightarrow> mm p = hd (t @ [0])"
  by (cases t) (simp_all add: text_at_def load_bytes_Suc)

lemma text_at_tl: "text_at mm p (c # r) \<Longrightarrow> text_at mm (p + 1) r"
  by (simp add: text_at_def load_bytes_Suc)

text \<open>Reading one field: its value, whether a dot follows, and the text behind the dot.\<close>

lemma parse_field:
  fixes t :: "u8 list" and p :: u32
  defines "w \<equiv> takeWhile (\<lambda>c. c \<noteq> 0x2E) t" and "r \<equiv> dropWhile (\<lambda>c. c \<noteq> 0x2E) t"
  assumes "text_at mm p t" and "ip_text t"
  shows "s_strtoul_dec mm p = Some (dec_value 0 w, p + of_nat (length w))"
    and "mm (p + of_nat (length w)) = 0x2E \<longleftrightarrow> r \<noteq> []"
    and "r \<noteq> [] \<Longrightarrow> text_at mm (p + of_nat (length w) + 1) (tl r) \<and> ip_text (tl r)"
proof -
  have t: "t = w @ r" by (simp add: w_def r_def)
  have "r \<noteq> [] \<Longrightarrow> hd r = 0x2E" using hd_dropWhile [of "\<lambda>c. c \<noteq> 0x2E" t] by (simp add: r_def)
  then have r: "r = [] \<or> (\<exists>r'. r = 0x2E # r')" by (cases r) auto
  have at: "load_bytes mm p (length w) = w" "text_at mm (p + of_nat (length w)) r"
    using text_at_split [of mm p w r] assms(3) t by simp_all
  have w: "\<forall>d \<in> set w. dec_digit d"
    using assms(4) set_takeWhileD [of _ "\<lambda>c. c \<noteq> 0x2E" t] unfolding ip_text_def w_def by blast
  have nd: "\<not> dec_digit 0x2E" "\<not> dec_digit 0" by (simp_all add: dec_digit_def)
  show "mm (p + of_nat (length w)) = 0x2E \<longleftrightarrow> r \<noteq> []" using text_at_first [OF at(2)] r by auto
  show "s_strtoul_dec mm p = Some (dec_value 0 w, p + of_nat (length w))"
    using strtoul_dec_digits [OF w at(1)] text_at_first [OF at(2)] r nd by auto
  show "text_at mm (p + of_nat (length w) + 1) (tl r) \<and> ip_text (tl r)" if "r \<noteq> []"
    using r that at(2) assms(4) t by (auto dest: text_at_tl simp: ip_text_def)
qed

lemma parse_next:
  assumes "text_at mm p t" and "ip_text t"
  obtains (last) w where "split_dots t = [w]"
      and "\<And>f :: u32 \<Rightarrow> u32 \<Rightarrow> u8 list option option. do { (a, q) \<leftarrow> s_strtoul_dec mm p; if mm q \<noteq> 0x2E then Some None else f a q } = Some None"
    | (more) w q t' where "split_dots t = w # split_dots t'" "text_at mm (q + 1) t'" "ip_text t'"
      and "\<And>f :: u32 \<Rightarrow> u32 \<Rightarrow> u8 list option option. do { (a, q) \<leftarrow> s_strtoul_dec mm p; if mm q \<noteq> 0x2E then Some None else f a q } = f (dec_value 0 w) q"
proof -
  let ?w = "takeWhile (\<lambda>c. c \<noteq> 0x2E) t" and ?r = "dropWhile (\<lambda>c. c \<noteq> 0x2E) t"
  note f = parse_field [OF assms]
  show ?thesis
  proof (cases "?r = []")
    case True
    show ?thesis by (rule last [of ?w]) (use True f in \<open>simp_all add: split_dots.simps [of t]\<close>)
  next
    case False
    show ?thesis
      by (rule more [of ?w "tl ?r" "p + of_nat (length ?w)"]) (use False f in \<open>auto simp: split_dots.simps [of t] Let_def\<close>)
  qed
qed

lemma split_dots_first: "hd (split_dots t) = takeWhile (\<lambda>c. c \<noteq> 0x2E) t" "split_dots t \<noteq> []"
  by (simp_all add: split_dots.simps [of t] Let_def)

definition ip_meant :: "u8 list \<Rightarrow> u8 list option" where
  "ip_meant t = (let ps = split_dots t
     in if length ps < 4 then None else Some (map (\<lambda>w. ucast (dec_value 0 w)) (take 4 ps)))"

lemma change_ip_parse_text:
  assumes "text_at mm p t" and "ip_text t"
  shows "change_ip_parse mm p = Some (ip_meant t)"
proof -
  have dot: "of_char CHR ''.'' = (0x2E :: u8)" by code_simp
  note unf = change_ip_parse_def [of mm p, unfolded dot]
  from assms show ?thesis
  proof (cases rule: parse_next)
    case (last w)
    then show ?thesis by (simp add: unf ip_meant_def)
  next
    case (more a q t1)
    note first = more
    from first(2,3) show ?thesis
    proof (cases rule: parse_next)
      case (last w)
      then show ?thesis using first by (simp add: unf ip_meant_def)
    next
      case (more b q2 t2)
      note second = more
      from second(2,3) show ?thesis
      proof (cases rule: parse_next)
        case (last w)
        then show ?thesis using first second by (simp add: unf ip_meant_def)
      next
        case (more c q3 t3)
        obtain d ds where "split_dots t3 = d # ds" "d = takeWhile (\<lambda>c. c \<noteq> 0x2E) t3"
          using split_dots_first [of t3] by (cases "split_dots t3") auto
        then show ?thesis
          using first second more parse_field(1) [OF more(2,3)] by (simp add: unf ip_meant_def)
      qed
    qed
  qed
qed

lemma ip_buffer_text: "length t < 2 ^ 31 \<Longrightarrow> text_at (ip_buffer t) 0 t"
  unfolding text_at_def ip_buffer_def by (rule load_write_whole) simp_all

section \<open>Printing an address and reading it back\<close>

definition dec_text :: "u32 \<Rightarrow> u8 list" where
  "dec_text x = map (\<lambda>d. d + 0x30) (dec_stack 11 (x div 10) [ucast (x mod 10)])"

definition ipv4_text :: "u8 list \<Rightarrow> u8 list" where
  "ipv4_text p = dec_text (ucast (p ! 0)) @ 0x2E # dec_text (ucast (p ! 1)) @ 0x2E #
     dec_text (ucast (p ! 2)) @ 0x2E # dec_text (ucast (p ! 3))"

lemma vga_write_ipv4_text: "vga_write_ipv4 p m = fold vga_writechar (ipv4_text p) m"
  by (simp add: vga_write_ipv4_def vga_write_dec_def ipv4_text_def dec_text_def fold_map comp_def)

definition stack_value :: "u8 list \<Rightarrow> nat" where
  "stack_value ds = foldl (\<lambda>v d. v * 10 + unat d) 0 ds"

lemma stack_value_Cons: "stack_value (d # ds) = unat d * 10 ^ length ds + stack_value ds"
proof -
  have "foldl (\<lambda>v d. v * 10 + unat d) v ds = v * 10 ^ length ds + stack_value ds" for v :: nat
  proof (induction ds arbitrary: v)
    case (Cons d ds)
    show ?case using Cons.IH [of "v * 10 + unat d"] Cons.IH [of "unat d"] by (simp add: stack_value_def algebra_simps)
  qed (simp add: stack_value_def)
  from this [of "unat d"] show ?thesis by (simp add: stack_value_def)
qed

lemma dec_digit_of: "unat (ucast (x mod 10 :: u32) :: u8) = unat x mod 10"
proof -
  have "unat (x mod 10) = unat x mod 10" by (simp add: unat_mod)
  moreover have "unat x mod 10 < 256" using mod_less_divisor [of 10 "unat x"] by linarith
  ultimately show ?thesis by (simp add: unsigned_ucast_eq take_bit_nat_def)
qed

lemma dec_stack_value:
  assumes "unat x < 10 ^ n" and "\<forall>d \<in> set stk. unat d < 10"
  shows "stack_value (dec_stack n x stk) = unat x * 10 ^ length stk + stack_value stk \<and>
    (\<forall>d \<in> set (dec_stack n x stk). unat d < 10) \<and> length (dec_stack n x stk) \<le> n + length stk"
  using assms
proof (induction n arbitrary: x stk)
  case (Suc n)
  show ?case
  proof (cases "x = 0")
    case False
    have d: "unat (x div 10) = unat x div 10" by (simp add: unat_div)
    then have "unat (x div 10) < 10 ^ n" using Suc.prems(1) by (simp add: less_mult_imp_div_less mult.commute)
    moreover have "\<forall>d \<in> set ((ucast (x mod 10) :: u8) # stk). unat d < 10" using Suc.prems(2) by (simp add: dec_digit_of)
    ultimately have ih: "stack_value (dec_stack n (x div 10) (ucast (x mod 10) # stk)) =
        unat (x div 10) * 10 ^ length ((ucast (x mod 10) :: u8) # stk) + stack_value (ucast (x mod 10) # stk) \<and>
      (\<forall>d \<in> set (dec_stack n (x div 10) (ucast (x mod 10) # stk)). unat d < 10) \<and>
      length (dec_stack n (x div 10) (ucast (x mod 10) # stk)) \<le> n + length ((ucast (x mod 10) :: u8) # stk)"
      by (rule Suc.IH)
    have "unat x div 10 * 10 ^ Suc (length stk) + unat x mod 10 * 10 ^ length stk = unat x * 10 ^ length stk"
      using div_mult_mod_eq [of "unat x" 10] by (metis distrib_right mult.assoc power_Suc)
    then show ?thesis using False ih d by (simp add: stack_value_Cons dec_digit_of)
  qed (use Suc.prems in simp)
qed simp

lemma dec_value_stack:
  assumes "\<forall>d \<in> set ds. unat d < 10"
  shows "dec_value 0 (map (\<lambda>d. d + 0x30) ds) = of_nat (stack_value ds) \<and> (\<forall>c \<in> set (map (\<lambda>d. d + 0x30) ds). dec_digit c)"
proof -
  have u: "uint (d + 0x30) = int (unat d) + 0x30" if "unat d < 10" for d :: u8
  proof -
    have "unat (d + 0x30) = unat d + 0x30" using that by (simp add: unat_word_ariths(1))
    then show ?thesis by (metis int_ops(5) uint_nat of_nat_numeral)
  qed
  have val: "dec_value (of_nat v) (map (\<lambda>d. d + 0x30) ds) = of_nat (foldl (\<lambda>v d. v * 10 + unat d) v ds)" for v
    using assms
  proof (induction ds arbitrary: v)
    case (Cons d ds)
    have "uint (d + 0x30) = int (unat d) + 0x30" using Cons.prems by (intro u) simp
    then have "of_int (uint (d + 0x30) - 0x30) = (of_nat (unat d) :: u32)" by (simp only: add_diff_cancel_right' of_int_of_nat_eq)
    then have "dec_value (of_nat v) (map (\<lambda>d. d + 0x30) (d # ds)) =
        dec_value (of_nat (v * 10 + unat d)) (map (\<lambda>d. d + 0x30) ds)"
      by (simp only: dec_value_def list.map foldl.simps of_nat_add of_nat_mult of_nat_numeral)
    then show ?case using Cons.IH [of "v * 10 + unat d"] Cons.prems by simp
  qed (simp add: dec_value_def)
  have dig: "dec_digit (d + 0x30)" if "unat d < 10" for d :: u8
    using u [OF that] that unfolding dec_digit_def by linarith
  show ?thesis
  proof
    show "dec_value 0 (map (\<lambda>d. d + 0x30) ds) = of_nat (stack_value ds)" using val [of 0] by (simp add: stack_value_def)
    show "\<forall>c \<in> set (map (\<lambda>d. d + 0x30) ds). dec_digit c" using dig assms by simp
  qed
qed

lemma dec_text_value:
  fixes b :: u8
  shows "ucast (dec_value 0 (dec_text (ucast b))) = b \<and> (\<forall>c \<in> set (dec_text (ucast b)). dec_digit c) \<and>
    length (dec_text (ucast b)) \<le> 12"
proof -
  let ?x = "ucast b :: u32"
  let ?s = "dec_stack 11 (?x div 10) [ucast (?x mod 10)]"
  have "unat b div 10 < 256" using unat_bounds(1) [of b] by linarith
  then have "unat (?x div 10) < 10 ^ 11" by (simp add: unat_div)
  then have s: "stack_value ?s = unat (?x div 10) * 10 ^ length [ucast (?x mod 10) :: u8] + stack_value [ucast (?x mod 10)] \<and>
      (\<forall>d \<in> set ?s. unat d < 10) \<and> length ?s \<le> 11 + length [ucast (?x mod 10) :: u8]"
    by (rule dec_stack_value) (simp add: dec_digit_of)
  have "stack_value [ucast (?x mod 10) :: u8] = unat ?x mod 10" unfolding stack_value_def by (simp only: foldl.simps dec_digit_of)
  then have "stack_value ?s = unat ?x div 10 * 10 + unat ?x mod 10" using s by (simp add: unat_div)
  then have "stack_value ?s = unat b" by simp
  moreover have "ucast (?x) = b" by (rule bit_word_eqI) (simp add: bit_simps)
  ultimately show ?thesis
    using dec_value_stack [of ?s] s by (simp add: dec_text_def)
qed

lemma split_dots_join:
  assumes w: "0x2E \<notin> set w"
  shows "split_dots w = [w]" "split_dots (w @ 0x2E # t) = w # split_dots t"
proof -
  have "takeWhile (\<lambda>c. c \<noteq> 0x2E) w = w" "dropWhile (\<lambda>c. c \<noteq> 0x2E) w = []" using w by (auto simp: takeWhile_eq_all_conv)
  then show "split_dots w = [w]" by (simp add: split_dots.simps [of w] Let_def)
  have "takeWhile (\<lambda>c. c \<noteq> 0x2E) (w @ 0x2E # t) = w" "dropWhile (\<lambda>c. c \<noteq> 0x2E) (w @ 0x2E # t) = 0x2E # t"
    using w by (auto simp: takeWhile_append dropWhile_append)
  then show "split_dots (w @ 0x2E # t) = w # split_dots t" by (simp only: split_dots.simps [of "w @ 0x2E # t"] Let_def) simp
qed

text \<open>
  C28. An address survives printing and typing: \<^verbatim>\<open>vga_write_ipv4\<close> writes exactly the characters of the dotted
  notation, and the parser of the address dialog reads these characters back as the same four bytes.
\<close>

theorem ipv4_round_trip:
  assumes "length p = 4"
  shows "vga_write_ipv4 p m = fold vga_writechar (ipv4_text p) m \<and> ip_text (ipv4_text p) \<and>
    length (ipv4_text p) \<le> 63 \<and> change_ip_parse (ip_buffer (ipv4_text p)) 0 = Some (Some p)"
proof -
  have nd: "0x2E \<notin> set (dec_text (ucast (b :: u8)))" for b
    using dec_text_value [of b] by (auto simp: dec_digit_def)
  have v: "ucast (dec_value 0 (dec_text (ucast b))) = b" "length (dec_text (ucast b)) \<le> 12"
    "\<forall>c \<in> set (dec_text (ucast b)). dec_digit c" for b :: u8
    using dec_text_value [of b] by simp_all
  have sp: "split_dots (ipv4_text p) = [dec_text (ucast (p ! 0)), dec_text (ucast (p ! 1)), dec_text (ucast (p ! 2)),
      dec_text (ucast (p ! 3))]"
    by (simp add: ipv4_text_def split_dots_join nd)
  have "[p ! 0, p ! 1, p ! 2, p ! 3] = p" using assms by (simp add: list_eq_iff_nth_eq less_Suc_eq numeral_eq_Suc)
  then have "ip_meant (ipv4_text p) = Some p" by (simp add: ip_meant_def sp v)
  moreover have len: "length (ipv4_text p) \<le> 63"
    using v(2) [of "p ! 0"] v(2) [of "p ! 1"] v(2) [of "p ! 2"] v(2) [of "p ! 3"] by (simp add: ipv4_text_def)
  moreover have ip: "ip_text (ipv4_text p)" using v(3) by (auto simp: ip_text_def ipv4_text_def)
  moreover have "text_at (ip_buffer (ipv4_text p)) 0 (ipv4_text p)" using len by (intro ip_buffer_text) simp
  ultimately show ?thesis using change_ip_parse_text vga_write_ipv4_text by metis
qed

theorem ipv4_round_trip_witness:
  "change_ip_parse (ip_buffer (ipv4_text [192, 168, 250, 254])) 0 = Some (Some [192, 168, 250, 254])"
  using ipv4_round_trip [of "[192, 168, 250, 254]" vga_example] by simp

section \<open>What the dialogs leave alone\<close>

text \<open>
  A step of a dialog: console output, cursor movement and colour. If the cursor was consistent and the
  step keeps it so, memory outside the display is untouched.
\<close>

definition ui_only :: "'a vga_scheme \<Rightarrow> 'a vga_scheme \<Rightarrow> bool" where
  "ui_only m m' \<longleftrightarrow> (m' = m\<lparr>mem := mem m', hist := hist m', VGA_alpha_x := VGA_alpha_x m',
     VGA_alpha_y := VGA_alpha_y m', VGA_color := VGA_color m'\<rparr>)"

definition ui_step :: "'a vga_scheme \<Rightarrow> 'a vga_scheme \<Rightarrow> bool" where
  "ui_step m m' \<longleftrightarrow> ui_only m m' \<and>
    (vga_ok m \<longrightarrow> vga_ok m' \<and> (\<forall>x. outside_display m x \<longrightarrow> mem m' x = mem m x))"

lemma ui_onlyE:
  assumes "ui_only m m'"
  obtains mm hs x y c where "m' = m\<lparr>mem := mm, hist := hs, VGA_alpha_x := x, VGA_alpha_y := y, VGA_color := c\<rparr>"
  using assms unfolding ui_only_def by blast

lemma ui_only_refl [simp]: "ui_only m m"
  by (simp add: ui_only_def)

lemma ui_only_trans [trans]: "ui_only m m' \<Longrightarrow> ui_only m' m'' \<Longrightarrow> ui_only m m''"
  by (cases m; cases m'; cases m'') (simp add: ui_only_def)

lemma ui_only_updates [simp]:
  "ui_only m (u\<lparr>VGA_alpha_x := x\<rparr>) = ui_only m u" "ui_only m (u\<lparr>VGA_alpha_y := y\<rparr>) = ui_only m u"
  "ui_only m (u\<lparr>VGA_color := c\<rparr>) = ui_only m u" "ui_only m (u\<lparr>mem := mm\<rparr>) = ui_only m u"
  by (cases m; cases u; simp add: ui_only_def)+

lemma console_ui_only: "console_step m m' \<Longrightarrow> ui_only m m'"
  by (cases m; cases m') (simp add: ui_only_def console_step_def console_only_def)

lemma ui_only_display: "ui_only m m' \<Longrightarrow> outside_display m' = outside_display m"
  by (erule ui_onlyE) (simp add: fun_eq_iff outside_display_def vga_size_def)

lemma ui_step_refl [simp]: "ui_step m m"
  by (simp add: ui_step_def)

lemma ui_step_trans [trans]: "ui_step m m' \<Longrightarrow> ui_step m' m'' \<Longrightarrow> ui_step m m''"
  unfolding ui_step_def using ui_only_trans [of m m' m''] ui_only_display [of m m'] by simp

lemma console_ui_step: "console_step m m' \<Longrightarrow> ui_step m m'"
  using console_ui_only [of m m'] by (simp add: ui_step_def console_step_def)

lemmas console_ui_steps = vga_write_step [THEN console_ui_step] vga_writehex_step [THEN console_ui_step]
  vga_writechar_step [THEN console_ui_step]

lemma ui_after:
  "ui_step m u \<Longrightarrow> ui_step m (vga_write s u)" "ui_step m u \<Longrightarrow> ui_step m (vga_writehex v d u)"
  "ui_step m u \<Longrightarrow> ui_step m (vga_writechar ch u)" "ui_step m u \<Longrightarrow> ui_step m (vga_color c u)"
  "ui_step m u \<Longrightarrow> ui_step m (vga_normal u)" "ui_step m u \<Longrightarrow> ui_step m (vga_home u)"
proof -
  assume u: "ui_step m u"
  show "ui_step m (vga_write s u)" "ui_step m (vga_writehex v d u)" "ui_step m (vga_writechar ch u)"
    by (rule ui_step_trans [OF u], rule console_ui_steps)+
  have "ui_step u (vga_color c u)" "ui_step u (vga_normal u)" "ui_step u (vga_home u)"
    by (auto simp: ui_step_def vga_color_def vga_normal_def vga_home_def vga_ok_def)
  then show "ui_step m (vga_color c u)" "ui_step m (vga_normal u)" "ui_step m (vga_home u)"
    using ui_step_trans [OF u] by blast+
qed

lemma ui_ports: "ui_step m u \<Longrightarrow> ports_only u u' \<Longrightarrow> ui_step m u'"
  using ui_step_trans console_ui_step ports_only_step by blast

lemma vga_clear_outside:
  assumes "vga_ok m" and "outside_display m x"
  shows "mem (vga_clear m) x = mem m x"
proof -
  let ?n = "unat (VGA_alpha_rows m * VGA_alpha_columns m)"
  have "unat (VGA_alpha_rows m) * unat (VGA_alpha_columns m) \<le> 255 * 255"
    using assms(1) by (intro mult_le_mono) (simp_all add: vga_ok_def)
  then have n: "2 * ?n = vga_size m" by (simp add: unat_word_ariths(2) vga_size_def)
  have "fold (\<lambda>i mm. store16 mm (VGA_alpha m + 2 * of_nat i) 0x0720) [0..<k] mm x = mm x" if "k \<le> ?n" for k mm
    using that
  proof (induction k)
    case (Suc k)
    then have "2 * k + length (le16 0x0720) \<le> vga_size m" using n by simp
    then show ?case
      using Suc assms(2) mem_write_outside [of "2 * k" "le16 0x0720" "vga_size m" x "VGA_alpha m"]
      by (simp add: store16_def outside_display_def)
  qed simp
  then show ?thesis by (simp add: vga_clear_def Let_def)
qed

lemma ui_clear: "ui_step m u \<Longrightarrow> ui_step m (vga_clear u)"
proof (erule ui_step_trans)
  have "vga_ok (vga_clear u) = vga_ok u" "ui_only u (vga_clear u)" by (simp_all add: vga_clear_def vga_ok_def Let_def)
  then show "ui_step u (vga_clear u)" using vga_clear_outside by (auto simp: ui_step_def)
qed

lemma ui_move:
  assumes "ui_step m u" and "unat y < unat (VGA_alpha_rows m)"
  shows "ui_step m (u\<lparr>VGA_alpha_x := 0, VGA_alpha_y := y\<rparr>)"
proof -
  have "VGA_alpha_rows u = VGA_alpha_rows m" using assms(1) by (auto simp: ui_step_def elim: ui_onlyE)
  then have "vga_ok u \<Longrightarrow> vga_ok (u\<lparr>VGA_alpha_x := 0, VGA_alpha_y := y\<rparr>)" using assms(2) by (auto simp: vga_ok_def)
  then show ?thesis using assms(1) by (simp add: ui_step_def)
qed

subsection \<open>The PCI browser\<close>

text \<open>
  What the browser needs of a predicate on states to keep it: that console output, cursor movement to an
  admissible row, colour changes and keyboard reads do.
\<close>

locale ui_dialog =
  fixes R :: "'a pci_scheme \<Rightarrow> bool" and row :: "u32 \<Rightarrow> bool"
  assumes wrote: "R u \<Longrightarrow> R (vga_write s u)" and writehex: "R u \<Longrightarrow> R (vga_writehex v d u)"
    and writechar: "R u \<Longrightarrow> R (vga_writechar ch u)" and color: "R u \<Longrightarrow> R (vga_color c u)"
    and normal: "R u \<Longrightarrow> R (vga_normal u)" and home: "R u \<Longrightarrow> R (vga_home u)" and clear: "R u \<Longrightarrow> R (vga_clear u)"
    and move: "R u \<Longrightarrow> row y \<Longrightarrow> R (u\<lparr>VGA_alpha_x := 0, VGA_alpha_y := y\<rparr>)"
    and ports: "R u \<Longrightarrow> ports_only u u' \<Longrightarrow> R u'"
begin

lemmas after = wrote writehex writechar color normal home clear

lemma fold_keeps: "R u \<Longrightarrow> (\<And>x v. x \<in> set xs \<Longrightarrow> R v \<Longrightarrow> R (f x v)) \<Longrightarrow> R (fold f xs u)"
  by (induction xs arbitrary: u) auto

lemma blank_keeps: "R u \<Longrightarrow> R (pci_menu_blank u)"
  unfolding pci_menu_blank_def by (rule fold_keeps) (auto intro: after)

lemma row_keeps: "R u \<Longrightarrow> R (pci_menu_row idx select u)"
  unfolding pci_menu_row_def Let_def by (auto intro!: after blank_keeps split: option.split)

lemma draw_keeps:
  assumes "R u" and "\<And>y. y < unat lines \<Longrightarrow> row (of_nat y + 1)"
  shows "R (pci_menu_draw lines select scroll u)"
  unfolding pci_menu_draw_def
  by (rule fold_keeps [OF assms(1)]) (auto intro!: row_keeps move assms(2))

lemma bar_keeps: "R u \<Longrightarrow> R (pci_menu_bar y bar u)"
  unfolding pci_menu_bar_def Let_def by (auto intro!: after)

lemma details_keeps: "R u \<Longrightarrow> R (pci_menu_details select u)"
  unfolding pci_menu_details_def Let_def
  by (auto intro!: after fold_keeps bar_keeps blank_keeps split: option.split)

lemma key_keeps:
  assumes "pci_menu_key h lines r select scroll u = Some (redraw, select', scroll', u')" and "R u"
  shows "R u'"
proof (cases "r = 0x48 \<or> r = 0x50 \<or> keyb8042_to_ascii r \<noteq> 13")
  case True
  then have "u' = u" using assms(1) by (auto simp: pci_menu_key_def Let_def split: if_splits)
  then show ?thesis using assms(2) by simp
next
  case False
  then obtain c v where v: "poll_until (\<lambda>c. c = 1 \<or> c = 0x1C) (keyb8042_read_buffer h) (pci_menu_details select u) = Some (c, v)"
    "u' = vga_clear v" using assms(1) by (auto simp: pci_menu_key_def Let_def bind_eq_Some_conv)
  have "ports_only (pci_menu_details select u) v" using v(1) by (rule poll_until_ports) (rule read_ports)
  then show ?thesis using v(2) ports clear details_keeps [OF assms(2)] by blast
qed

lemma loop_keeps:
  assumes "pci_menu_loop h lines redraw select scroll u = Some u'" and "R u" and "\<And>y. y < unat lines \<Longrightarrow> row (of_nat y + 1)"
  shows "R u'"
proof -
  let ?P = "\<lambda>h lines redraw select scroll u u'. R u \<longrightarrow> (\<forall>y < unat lines. row (of_nat y + 1)) \<longrightarrow> R u'"
  have "?P h lines redraw select scroll u u'"
  proof (rule pci_menu_loop.raw_induct [of ?P, OF _ assms(1)], intro impI)
    fix loop h lines redraw select scroll u u'
    assume ih: "\<And>h lines redraw select scroll u u'. loop h lines redraw select scroll u = Some u' \<Longrightarrow> ?P h lines redraw select scroll u u'"
      and body: "do { (r, m) \<leftarrow> keyb8042_read_buffer h (if redraw then pci_menu_draw lines select scroll u else u);
        (redraw, select, scroll, m) \<leftarrow> pci_menu_key h lines r select scroll m;
        if r = 1 then Some m else loop h lines redraw select scroll m } = Some u'"
      and u: "R u" "\<forall>y < unat lines. row (of_nat y + 1)"
    let ?v = "if redraw then pci_menu_draw lines select scroll u else u"
    obtain r v redraw' select' scroll' w where r: "keyb8042_read_buffer h ?v = Some (r, v)"
      and k: "pci_menu_key h lines r select scroll v = Some (redraw', select', scroll', w)"
      and rest: "(if r = 1 then Some w else loop h lines redraw' select' scroll' w) = Some u'"
      using body by (auto simp: bind_eq_Some_conv split: prod.splits)
    have "R ?v" using u draw_keeps by auto
    then have "R w" using key_keeps [OF k] ports read_ports [OF r] by blast
    then show "R u'" using rest ih u(2) by (auto split: if_splits)
  qed
  then show ?thesis using assms by simp
qed

lemma menu_keeps:
  assumes "pci_bus_menu h m = Some m'" and "R m" and "\<And>y. y < unat (VGA_alpha_rows m - 8) \<Longrightarrow> row (of_nat y + 1)"
  shows "R m'"
proof -
  have "R (vga_normal (vga_write (''PCI devices present'' @ crlf) (vga_color 0x0E (vga_home (vga_clear m)))))"
    by (intro after assms(2))
  then show ?thesis using assms(1,3) by (auto simp: pci_bus_menu_def Let_def intro: loop_keeps)
qed

end

lemma ui_only_home [simp]: "ui_only m (vga_home u) = ui_only m u" "ui_only m (vga_color c u) = ui_only m u"
  "ui_only m (vga_normal u) = ui_only m u" "ui_only m (vga_clear u) = ui_only m u"
  by (simp_all add: vga_home_def vga_color_def vga_normal_def vga_clear_def Let_def)

interpretation only: ui_dialog "ui_only m" "\<lambda>_. True" for m
proof
  show "ui_only m u \<Longrightarrow> ports_only u u' \<Longrightarrow> ui_only m u'" for u u' :: "'a pci_scheme"
    using ui_only_trans console_ui_only ports_only_step by blast
qed (simp_all add: ui_only_trans [OF _ console_ui_only [OF vga_write_step]]
    ui_only_trans [OF _ console_ui_only [OF vga_writehex_step]] ui_only_trans [OF _ console_ui_only [OF vga_writechar_step]])

interpretation inside: ui_dialog "ui_step m" "\<lambda>y. unat y < unat (VGA_alpha_rows m)" for m
  by unfold_locales (blast intro: ui_after ui_clear ui_move ui_ports)+

lemma menu_rows:
  assumes "8 \<le> unat (VGA_alpha_rows m)" and "y < unat (VGA_alpha_rows m - 8)"
  shows "unat (of_nat y + 1 :: u32) < unat (VGA_alpha_rows m)"
proof -
  have "unat (VGA_alpha_rows m - 8) = unat (VGA_alpha_rows m) - 8" using assms(1) by (simp add: word_le_nat_alt unat_sub)
  then have "Suc y < unat (VGA_alpha_rows m)" using assms by simp
  moreover have "unat (of_nat (Suc y) :: u32) \<le> Suc y" by (simp only: unat_of_nat mod_less_eq_dividend)
  ultimately show ?thesis by (simp add: add.commute)
qed

text \<open>
  C30. The PCI browser touches nothing but the screen. Whatever keys are pressed, once it is left, no byte of memory
  outside the display has changed, the cursor is inside the display, and no component of the state but cursor,
  colour and port history differs; in particular the network service is as it was. The hypothesis on the
  display is what \<^verbatim>\<open>vga_init\<close> establishes (at least ten rows).
\<close>

theorem pci_bus_menu_frame:
  assumes "pci_bus_menu h m = Some m'" and "vga_ok m" and "8 \<le> unat (VGA_alpha_rows m)"
  shows "vga_ok m' \<and> (\<forall>x. outside_display m x \<longrightarrow> mem m' x = mem m x) \<and>
    m' = m\<lparr>mem := mem m', hist := hist m', VGA_alpha_x := VGA_alpha_x m', VGA_alpha_y := VGA_alpha_y m',
      VGA_color := VGA_color m'\<rparr>"
proof -
  have "ui_step m m'" using inside.menu_keeps [OF assms(1)] menu_rows [OF assms(3)] by simp
  then show ?thesis using assms(2) by (simp add: ui_step_def ui_only_def)
qed

text \<open>
  The selected line of the PCI browser stays on the screen: a key keeps the selection between the first and the
  last of the lines shown (short of an overflow of the selection itself).
\<close>

theorem pci_menu_selection_visible:
  assumes "pci_menu_key h lines r select scroll m = Some (redraw, select', scroll', m')"
    and "unat scroll \<le> unat select" "unat select < unat scroll + unat lines" "unat scroll + unat lines + 1 < 2 ^ 32"
  shows "unat scroll' \<le> unat select' \<and> unat select' < unat scroll' + unat lines"
proof -
  have lines: "1 \<le> unat lines" using assms(2,3) by linarith
  have plus: "unat (select + 1) = unat select + 1" "unat (scroll + 1) = unat scroll + 1"
    "unat (scroll + lines - 1) = unat scroll + unat lines - 1"
  proof -
    show "unat (select + 1) = unat select + 1" "unat (scroll + 1) = unat scroll + 1"
      using assms(3,4) by (simp_all add: unat_word_ariths(1))
    have sum: "unat (scroll + lines) = unat scroll + unat lines" using assms(4) by (simp add: unat_word_ariths(1))
    then have "1 \<le> scroll + lines" using lines by (simp add: word_le_nat_alt)
    then show "unat (scroll + lines - 1) = unat scroll + unat lines - 1" using sum by (simp add: unat_sub)
  qed
  have minus: "unat (select - 1) = unat select - 1" "1 \<le> unat select" if "select > 0"
    using that by (simp_all add: unat_sub word_less_nat_alt word_le_nat_alt)
  consider (up) "r = 0x48" | (down) "r = 0x50" | (other) "r \<noteq> 0x48" "r \<noteq> 0x50" by blast
  then show ?thesis
  proof cases
    case up
    then show ?thesis
      using assms minus lines
      by (cases "select > 0") (auto simp: pci_menu_key_def Let_def word_less_nat_alt split: if_splits)
  next
    case down
    then show ?thesis
      using assms lines plus by (auto simp: pci_menu_key_def Let_def word_less_nat_alt split: if_splits)
  next
    case other
    then have "scroll' = scroll" "select' = select"
      using assms(1) by (auto simp: pci_menu_key_def Let_def bind_eq_Some_conv split: if_splits)
    then show ?thesis using assms(2,3) by simp
  qed
qed

theorem pci_menu_selection_visible_witness:
  "\<exists>m'. pci_menu_key quiet_hw 17 0x50 16 0 pci_example = Some (True, 17, 1, m') \<and> unat (17 :: u32) < unat (1 :: u32) + unat (17 :: u32)"
proof -
  have k: "pci_menu_key quiet_hw 17 0x50 16 0 pci_example = Some (True, 17, 1, pci_example)"
    by (simp add: pci_menu_key_def Let_def)
  show ?thesis using pci_menu_selection_visible [OF k] k by simp
qed

lemma keyb_hw_read:
  "\<exists>m'. keyb8042_read_buffer (keyb_hw b) m = Some (uint b, m')"
proof -
  obtain r m' where r: "keyb8042_read_buffer_imm (keyb_hw b) m = (r, m')" by fastforce
  then have "r = uint b" using keyb_hw_read_imm [of b m] by simp
  then show ?thesis using r by (simp add: keyb8042_read_buffer_def while_option_unfold)
qed

text \<open>The escape key leaves the browser at once.\<close>

theorem pci_bus_menu_frame_witness:
  "\<exists>m'. pci_bus_menu (keyb_hw 1) pci_example = Some m' \<and> vga_ok m' \<and> mem m' 0x1000 = mem pci_example 0x1000"
proof -
  have e: "vga_ok pci_example" "8 \<le> unat (VGA_alpha_rows pci_example)" "outside_display pci_example 0x1000"
    by (simp_all add: pci_example_def irq_example_def irq.defs pci.defs vga_ok_def outside_display_def vga_size_def)
  have loop: "\<exists>m'. pci_menu_loop (keyb_hw 1) lines redraw select scroll m = Some m'" for lines redraw select scroll and m :: pci
  proof -
    obtain u where "keyb8042_read_buffer (keyb_hw 1) (if redraw then pci_menu_draw lines select scroll m else m) = Some (1, u)"
      using keyb_hw_read [of 1] by fastforce
    then show ?thesis
      by (simp add: pci_menu_loop.simps [of "keyb_hw 1"] pci_menu_key_def keyb8042_to_ascii_def keyb8042_map_def)
  qed
  then obtain m' where m': "pci_bus_menu (keyb_hw 1) pci_example = Some m'"
    unfolding pci_bus_menu_def Let_def by blast
  from pci_bus_menu_frame [OF m' e(1,2)] show ?thesis using m' e(3) by blast
qed

subsection \<open>The address dialog\<close>

lemma vga_update_cursor_only: "ui_only m u \<Longrightarrow> ui_only m (vga_update_cursor u)"
  by (cases m; cases u) (simp add: ui_only_def vga_update_cursor_def vga_crtc_write_def io_outb_def Let_def)

lemma vga_writechar_only: "ui_only m u \<Longrightarrow> ui_only m (vga_writechar c u)"
  using ui_only_trans console_ui_only [OF vga_writechar_step] by blast

lemma change_ip_key_only: "ui_only m u \<Longrightarrow> ui_only m (snd (change_ip_key a input u))"
  by (auto simp: change_ip_key_def Let_def intro!: vga_update_cursor_only vga_writechar_only)

lemma ip_char_text: "is_ip_char a \<Longrightarrow> dec_digit (of_int a) \<or> of_int a = (0x2E :: u8)"
proof -
  assume "is_ip_char a"
  then have "(0x30 \<le> a \<and> a \<le> 0x39) \<or> a = 0x2E" by (simp add: is_ip_char_def)
  moreover have "uint (of_int a :: u8) = a" if "0 \<le> a" "a < 256" using that by (simp add: word_of_int_eq_iff unsigned_of_int take_bit_int_eq_self)
  ultimately show ?thesis by (auto simp: dec_digit_def)
qed

lemma change_ip_key_text:
  assumes "ip_text input" and "length input \<le> 63"
  shows "ip_text (fst (change_ip_key a input m)) \<and> length (fst (change_ip_key a input m)) \<le> 63"
  using assms ip_char_text [of a] by (auto simp: change_ip_key_def ip_text_def Let_def dest: in_set_butlastD)

lemma change_ip_input_result:
  assumes "change_ip_input h input u = Some (input', u')" and "ip_text input" "length input \<le> 63" "ui_only m u"
  shows "ip_text input' \<and> length input' \<le> 63 \<and> ui_only m u'"
proof -
  let ?P = "\<lambda>h input u r. ip_text input \<longrightarrow> length input \<le> 63 \<longrightarrow> ui_only m u \<longrightarrow>
    ip_text (fst r) \<and> length (fst r) \<le> 63 \<and> ui_only m (snd r)"
  have "?P h input u (input', u')"
  proof (rule change_ip_input.raw_induct [of ?P, OF _ assms(1)], intro impI)
    fix loop h input u r
    assume ih: "\<And>h input u r. loop h input u = Some r \<Longrightarrow> ?P h input u r"
      and body: "do { (a, m) \<leftarrow> keyb8042_read_ascii h u; if a = 13 then Some (input, m)
        else loop h (fst (change_ip_key a input m)) (snd (change_ip_key a input m)) } = Some r"
      and pre: "ip_text input" "length input \<le> 63" "ui_only m u"
    obtain a v where a: "keyb8042_read_ascii h u = Some (a, v)"
      and rest: "(if a = 13 then Some (input, v)
        else loop h (fst (change_ip_key a input v)) (snd (change_ip_key a input v))) = Some r"
      using body by (auto simp: bind_eq_Some_conv)
    have "ports_only u v" using a by (auto simp: keyb8042_read_ascii_def dest: read_ports)
    then have v: "ui_only m v" using pre(3) ui_only_trans console_ui_only ports_only_step by blast
    show "ip_text (fst r) \<and> length (fst r) \<le> 63 \<and> ui_only m (snd r)"
    proof (cases "a = 13")
      case True
      then show ?thesis using rest pre v by auto
    next
      case False
      then have "loop h (fst (change_ip_key a input v)) (snd (change_ip_key a input v)) = Some r" using rest by simp
      from ih [OF this] show ?thesis using change_ip_key_text [OF pre(1,2)] change_ip_key_only [OF v] by blast
    qed
  qed
  then show ?thesis using assms by simp
qed

lemma change_ip_outcome:
  assumes "change_ip_addr_ui h m = Some m'"
  shows "\<exists>input. length input \<le> 63 \<and> ip_text input \<and>
    my_ipv4_address m' = (case ip_meant input of None \<Rightarrow> my_ipv4_address m | Some ip \<Rightarrow> ip) \<and>
    ui_only m (m'\<lparr>my_ipv4_address := my_ipv4_address m\<rparr>)"
proof -
  let ?w = "vga_write (''IP address must follow the standard dotted notation 123.123.123.123'' @ crlf)
    (vga_write (''Enter new IP address, or hit ENTER to cancel.'' @ crlf) (vga_write crlf m))"
  have w: "ui_only m ?w" by (rule console_ui_only) (intro console_after console_step_refl)
  obtain input u r where i: "change_ip_input h [] ?w = Some (input, u)"
    and p: "change_ip_parse (ip_buffer input) 0 = Some r"
    and m': "m' = (case r of None \<Rightarrow> u | Some ip \<Rightarrow> u\<lparr>my_ipv4_address := ip\<rparr>)"
    using assms unfolding change_ip_addr_ui_def Let_def by (auto simp: bind_eq_Some_conv simp del: append_Cons)
  have res: "ip_text input \<and> length input \<le> 63 \<and> ui_only m u"
    using change_ip_input_result [OF i _ _ w] by (simp add: ip_text_def)
  then have "text_at (ip_buffer input) 0 input" by (intro ip_buffer_text) simp
  then have r: "r = ip_meant input" using change_ip_parse_text p res by fastforce
  have "my_ipv4_address u = my_ipv4_address m" using res by (auto elim!: ui_onlyE)
  then have "my_ipv4_address m' = (case ip_meant input of None \<Rightarrow> my_ipv4_address m | Some ip \<Rightarrow> ip)"
    "m'\<lparr>my_ipv4_address := my_ipv4_address m\<rparr> = u"
    using m' r by (simp_all split: option.splits)
  then show ?thesis using res by auto
qed



end
