(* ===== verification/MainMenu.thy ===== *)
theory MainMenu
  imports Dialog
begin

text \<open>
  The main loop of the debugger, \<^verbatim>\<open>main_menu\<close> of \<^verbatim>\<open>src/eth/c-main.c\<close>. The loop has no exit; its rounds are a step relation.
\<close>

section \<open>One round of the main menu\<close>

text \<open>The screen of the menu (lines 847 to 874).\<close>

definition main_menu_draw :: "'a net_scheme \<Rightarrow> 'a net_scheme" where
  "main_menu_draw m =
    (let m = (case pci_dev_at m (chosen_net_dev m) of None \<Rightarrow> m
              | Some dev \<Rightarrow>
                  let m = vga_writechar (of_char CHR '':'') (vga_writehex (ucast (bus_no dev)) 2 m);
                      m = vga_writechar (of_char CHR '':'') (vga_writehex (ucast (device_no dev)) 2 m);
                      m = vga_writehex (ucast (function_no dev)) 2 m
                  in vga_write crlf m);
         m = (case chosen_net_drv m of None \<Rightarrow> m
              | Some drv \<Rightarrow>
                  let m = vga_write (net_driver_name drv) m;
                      m = (if chosen_net_drv_open m then vga_write '' [ACTIVE]'' m else m)
                  in vga_write crlf m);
         m = vga_write crlf m;
         m = vga_write ''Main menu: '' m;
         m = vga_write_ipv4 (my_ipv4_address m) m;
         m = vga_writechar (of_char CHR '' '') m;
         m = fold (\<lambda>i m. vga_writehex (ucast (my_eth_mac m ! i)) 2 m) [0..<6] m;
         m = vga_write crlf m;
         m = vga_write ('' I. Change IPv4 address'' @ crlf) m;
         m = vga_write ('' P. Show PCI devices'' @ crlf) m;
         m = vga_write ('' x. Auto-probe network card'' @ crlf) m;
         m = vga_write ('' r. Reset computer'' @ crlf) m
     in if chosen_net_drv_open m then vga_write ('' c. Close driver'' @ crlf) m
        else vga_write ('' o. Open driver'' @ crlf) m)"

text \<open>Opening the chosen driver: the call through its pointer and the flag.\<close>

definition open_driver :: "'h rtl8101_hw_scheme \<Rightarrow> 'a ne2000_scheme \<Rightarrow> bool \<times> 'a ne2000_scheme" where
  "open_driver h m = (case chosen_net_drv m of
       None \<Rightarrow> (False, set_fault Null_Call m)
     | Some d \<Rightarrow> (let (ok, m) = drv_init h d (chosen_net_dev m) m
                  in (ok, if ok then m\<lparr>chosen_net_drv_open := True\<rparr> else m)))"

text \<open>
  What a key does (lines 881 to 924): \<open>r\<close> the scan code, the result the new \<^verbatim>\<open>redraw\<close>. The two keys
  whose code is empty or disabled do nothing.
\<close>

definition main_menu_key :: "'h rtl8101_hw_scheme \<Rightarrow> int \<Rightarrow> 'a dbg_scheme \<Rightarrow> (bool \<times> 'a dbg_scheme) option" where
  "main_menu_key h r m =
    (let a = keyb8042_to_ascii r
     in if a = of_char CHR ''r'' then Some (False, m)
        else if a = of_char CHR ''p'' then
          (if \<not> pci_bus_present m then Some (False, vga_write ('' ! PCI bus not present'' @ crlf) m)
           else do { m \<leftarrow> pci_bus_menu h m; Some (True, m) })
        else if a = of_char CHR ''i'' then do { m \<leftarrow> change_ip_addr_ui h m; Some (True, m) }
        else if a = of_char CHR ''o'' then
          (if \<not> chosen_net_drv_open m \<and> chosen_net_drv m \<noteq> None
           then (let (ok, m) = open_driver h m
                 in if ok then Some (True, m)
                    else do { (c, m) \<leftarrow> keyb8042_read_buffer h (vga_write (''Open failed'' @ crlf) m); Some (False, m) })
           else Some (False, m))
        else if a = of_char CHR ''c'' then Some (False, m)
        else if a = of_char CHR ''x'' then do { m \<leftarrow> autoprobe_network_card h m; Some (True, m) }
        else if a \<noteq> -1 then Some (False, vga_writechar (of_char CHR '' '') (vga_writehex (of_int r) 8 m))
        else Some (False, m))"

definition main_menu_round :: "'h rtl8101_hw_scheme \<Rightarrow> bool \<times> 'a dbg_scheme \<Rightarrow> (bool \<times> 'a dbg_scheme) option" where
  "main_menu_round h s = (case s of (redraw, m) \<Rightarrow> do {
     let m = (if redraw then main_menu_draw m else m);
     let (r, m) = keyb8042_read_buffer_imm h m;
     (redraw, m) \<leftarrow> main_menu_key h r m;
     m \<leftarrow> net_idle h m;
     Some (redraw, m) })"

text \<open>The states that \<^verbatim>\<open>main_menu\<close> goes through.\<close>

inductive main_menu :: "'h rtl8101_hw_scheme \<Rightarrow> bool \<times> 'a dbg_scheme \<Rightarrow> bool \<times> 'a dbg_scheme \<Rightarrow> bool" for h s where
  start: "main_menu h s s"
| round: "main_menu h s s' \<Longrightarrow> main_menu_round h s' = Some s'' \<Longrightarrow> main_menu h s s''"

section \<open>What opening a driver establishes\<close>

text \<open>The part of the state that no initialisation touches.\<close>

definition env_same :: "'a ne2000_scheme \<Rightarrow> 'a ne2000_scheme \<Rightarrow> bool" where
  "env_same m m' \<longleftrightarrow> fault m' = fault m \<and> my_ipv4_address m' = my_ipv4_address m \<and>
     chosen_net_drv m' = chosen_net_drv m \<and> chosen_net_drv_open m' = chosen_net_drv_open m \<and>
     pci_devices m' = pci_devices m"

lemma env_same_refl [simp]: "env_same m m"
  by (simp add: env_same_def)

lemma env_same_trans [trans]: "env_same m m' \<Longrightarrow> env_same m' m'' \<Longrightarrow> env_same m m''"
  by (simp add: env_same_def)

lemma env_same_updates [simp]:
  "env_same m (u\<lparr>pci_bus_present := x_pci_bus_present\<rparr>) = env_same m u"
  "env_same m (u\<lparr>IDTR := x_IDTR\<rparr>) = env_same m u"
  "env_same m (u\<lparr>cpu_idtr := x_cpu_idtr\<rparr>) = env_same m u"
  "env_same m (u\<lparr>irq_function := x_irq_function\<rparr>) = env_same m u"
  "env_same m (u\<lparr>VGA_alpha := x_VGA_alpha\<rparr>) = env_same m u"
  "env_same m (u\<lparr>VGA_alpha_rows := x_VGA_alpha_rows\<rparr>) = env_same m u"
  "env_same m (u\<lparr>VGA_alpha_columns := x_VGA_alpha_columns\<rparr>) = env_same m u"
  "env_same m (u\<lparr>VGA_alpha_x := x_VGA_alpha_x\<rparr>) = env_same m u"
  "env_same m (u\<lparr>VGA_alpha_y := x_VGA_alpha_y\<rparr>) = env_same m u"
  "env_same m (u\<lparr>VGA_color := x_VGA_color\<rparr>) = env_same m u"
  "env_same m (u\<lparr>VGA_iobase := x_VGA_iobase\<rparr>) = env_same m u"
  "env_same m (u\<lparr>mem := x_mem\<rparr>) = env_same m u" "env_same m (u\<lparr>hist := x_hist\<rparr>) = env_same m u"
  "env_same m (u\<lparr>alloc := x_alloc\<rparr>) = env_same m u"
  "env_same m (u\<lparr>my_eth_mac := x_my_eth_mac\<rparr>) = env_same m u"
  "env_same m (u\<lparr>chosen_net_dev := x_chosen_net_dev\<rparr>) = env_same m u"
  "env_same m (u\<lparr>pcnet32_iobase := x_pcnet32_iobase\<rparr>) = env_same m u"
  "env_same m (u\<lparr>pcnet32_mac_address := x_pcnet32_mac_address\<rparr>) = env_same m u"
  "env_same m (u\<lparr>pcnet32_rx_ptr := x_pcnet32_rx_ptr\<rparr>) = env_same m u"
  "env_same m (u\<lparr>pcnet32_tx_ptr := x_pcnet32_tx_ptr\<rparr>) = env_same m u"
  "env_same m (u\<lparr>pcnet32_rx_packets_ptr := x_pcnet32_rx_packets_ptr\<rparr>) = env_same m u"
  "env_same m (u\<lparr>pcnet32_tx_packets_ptr := x_pcnet32_tx_packets_ptr\<rparr>) = env_same m u"
  "env_same m (u\<lparr>pcnet32_rx := x_pcnet32_rx\<rparr>) = env_same m u"
  "env_same m (u\<lparr>pcnet32_tx := x_pcnet32_tx\<rparr>) = env_same m u"
  "env_same m (u\<lparr>pcnet32_rx_packets := x_pcnet32_rx_packets\<rparr>) = env_same m u"
  "env_same m (u\<lparr>pcnet32_tx_packets := x_pcnet32_tx_packets\<rparr>) = env_same m u"
  "env_same m (u\<lparr>pcnet32_ring_size := x_pcnet32_ring_size\<rparr>) = env_same m u"
  "env_same m (u\<lparr>pcnet32_rx_offset := x_pcnet32_rx_offset\<rparr>) = env_same m u"
  "env_same m (u\<lparr>pcnet32_tx_offset := x_pcnet32_tx_offset\<rparr>) = env_same m u"
  "env_same m (u\<lparr>rtl8101_iobase := x_rtl8101_iobase\<rparr>) = env_same m u"
  "env_same m (u\<lparr>rtl8101_mac_address := x_rtl8101_mac_address\<rparr>) = env_same m u"
  "env_same m (u\<lparr>rtl8101_rx_ptr := x_rtl8101_rx_ptr\<rparr>) = env_same m u"
  "env_same m (u\<lparr>rtl8101_tx_ptr := x_rtl8101_tx_ptr\<rparr>) = env_same m u"
  "env_same m (u\<lparr>rtl8101_rx_packets_ptr := x_rtl8101_rx_packets_ptr\<rparr>) = env_same m u"
  "env_same m (u\<lparr>rtl8101_tx_packets_ptr := x_rtl8101_tx_packets_ptr\<rparr>) = env_same m u"
  "env_same m (u\<lparr>rtl8101_rx := x_rtl8101_rx\<rparr>) = env_same m u"
  "env_same m (u\<lparr>rtl8101_tx := x_rtl8101_tx\<rparr>) = env_same m u"
  "env_same m (u\<lparr>rtl8101_rx_packets := x_rtl8101_rx_packets\<rparr>) = env_same m u"
  "env_same m (u\<lparr>rtl8101_tx_packets := x_rtl8101_tx_packets\<rparr>) = env_same m u"
  "env_same m (u\<lparr>rtl8101_ring_size := x_rtl8101_ring_size\<rparr>) = env_same m u"
  "env_same m (u\<lparr>rtl8101_rx_offset := x_rtl8101_rx_offset\<rparr>) = env_same m u"
  "env_same m (u\<lparr>rtl8101_tx_offset := x_rtl8101_tx_offset\<rparr>) = env_same m u"
  "env_same m (u\<lparr>rtl8101_send_sz := x_rtl8101_send_sz\<rparr>) = env_same m u"
  "env_same m (u\<lparr>ne2000_mac_address := x_ne2000_mac_address\<rparr>) = env_same m u"
  "env_same m (u\<lparr>ne2000_probe_base := x_ne2000_probe_base\<rparr>) = env_same m u"
  "env_same m (u\<lparr>ne2000_last_packet := x_ne2000_last_packet\<rparr>) = env_same m u"
  "env_same m (u\<lparr>ne2000_xmit_packet := x_ne2000_xmit_packet\<rparr>) = env_same m u"
  "env_same m (u\<lparr>ne2000_last_packet_size := x_ne2000_last_packet_size\<rparr>) = env_same m u"
  "env_same m (u\<lparr>ne2000_xmit_packet_size := x_ne2000_xmit_packet_size\<rparr>) = env_same m u"
  by (simp_all add: env_same_def)

lemma env_console: "env_same m u \<Longrightarrow> console_step u u' \<Longrightarrow> env_same m u'"
  by (erule console_stepE) simp

lemmas env_ports = env_console [OF _ ports_only_step]

lemma env_io [simp]:
  assumes "env_same m u"
  shows "env_same m (io_outl p w u)" "env_same m (io_outw p v u)" "env_same m (io_outb p b u)"
    "env_same m (snd (io_inb h p u))" "env_same m (snd (io_inb_seq h ps u))" "env_same m (snd (io_inl h p u))"
    "env_same m (vga_write t u)" "env_same m (pci_config_write_imm bs dv fn rg x u)"
  using env_ports [OF assms] env_console [OF assms vga_write_step] io_inb_seq_ports [of u] by auto

lemma env_alloc [simp]:
  assumes "env_same m u"
  shows "env_same m (align_alloc n u)" "env_same m (snd (do_alloc n u))" "env_same m (snd (alloc_if_null p n u))"
    "env_same m (snd (alloc_run ns u))"
proof -
  show "env_same m (align_alloc n u)" "env_same m (snd (do_alloc n u))" "env_same m (snd (alloc_if_null p n u))"
    using assms by (simp_all add: align_alloc_def alloc_if_null_def do_alloc_def Let_def)
  have "snd (alloc_run ns u) = u\<lparr>alloc := alloc u + sum_list ns\<rparr>"
    using alloc_run_frame [of ns u "fst (alloc_run ns u)" "snd (alloc_run ns u)"] by simp
  then show "env_same m (snd (alloc_run ns u))" using assms by simp
qed

lemma pcnet32_init_env: "env_same m (snd (pcnet32_init h pdev m))"
proof -
  have "env_same m u \<Longrightarrow> env_same m (pcnet32_alloc_rings u)" "env_same m u \<Longrightarrow> env_same m (pcnet32_init_block h u)"
    "env_same m u \<Longrightarrow> env_same m (pcnet32_setup_rings u)" for u
    by (simp_all add: pcnet32_alloc_rings_def pcnet32_init_block_def pcnet32_setup_rings_def Let_def split_beta)
  then show ?thesis
    by (simp add: pcnet32_init_def Let_def split_beta pcnet32_rap_def pcnet32_write_csr_def pcnet32_write_bcr_def split: option.split)
qed

lemma rtl8101_reset_env: "env_same m u \<Longrightarrow> env_same m (snd (rtl8101_reset_wait h n u))"
proof (induction h n u rule: rtl8101_reset_wait.induct)
  case (1 h n u)
  obtain c v where c: "io_inb h (rtl8101_iobase u + 0x37) u = (c, v)" by fastforce
  then have "env_same m v" using env_io(4) [OF 1(2), of h "rtl8101_iobase u + 0x37"] by simp
  then show ?case using 1(1) c by (subst rtl8101_reset_wait.simps) (auto simp: Let_def)
qed

lemma rtl8101_init_env: "env_same m (snd (rtl8101_init h pdev m))"
proof -
  have "env_same m u \<Longrightarrow> env_same m (rtl8101_alloc_rings u)" "env_same m u \<Longrightarrow> env_same m (rtl8101_configure h u)"
    "env_same m u \<Longrightarrow> env_same m (rtl8101_setup_rings u)" "env_same m u \<Longrightarrow> env_same m (rtl8101_start u)" for u
    by (simp_all add: rtl8101_alloc_rings_def rtl8101_configure_def rtl8101_setup_rings_def rtl8101_start_def Let_def split_beta)
  then show ?thesis
    by (simp add: rtl8101_init_def Let_def split_beta rtl8101_reset_env split: option.split)
qed

lemma ne2000_init_env: "env_same m (snd (ne2000_init h pdev m))"
proof -
  have "env_same m u \<Longrightarrow> env_same m (ne2000_regs ws u)" for ws u
    using env_ports ne2000_regs_ports by blast
  then show ?thesis by (simp add: ne2000_init_def Let_def split_beta)
qed

lemma drv_init_env: "env_same m (snd (drv_init h d pdev m))"
  using pcnet32_init_env rtl8101_init_env ne2000_init_env
  by (cases d) (simp_all add: drv_init_def rtl8139_init_def)

lemma length_alloc_run: "length (fst (alloc_run ns m)) = length ns"
  by (induction ns arbitrary: m) (simp_all add: Let_def split_beta)

lemma alloc_run_update: "snd (alloc_run ns u) = u\<lparr>alloc := alloc u + sum_list ns\<rparr>"
  using alloc_run_frame [of ns u "fst (alloc_run ns u)" "snd (alloc_run ns u)"] by simp

lemma pcnet32_setup_lengths:
  "length (pcnet32_rx (pcnet32_setup_rings m)) = 16" "length (pcnet32_tx (pcnet32_setup_rings m)) = 16"
  "length (pcnet32_rx_packets (pcnet32_setup_rings m)) = 16" "length (pcnet32_tx_packets (pcnet32_setup_rings m)) = 16"
  by (simp_all add: pcnet32_setup_rings_def Let_def split_beta length_alloc_run alloc_run_update align_alloc_def)

lemma pcnet32_init_ok:
  assumes "pcnet32_init h pdev m = (True, m')"
  shows "pcnet32_ok m' \<and> length (my_eth_mac m') = 6"
proof -
  obtain d b where d: "pci_dev_at m pdev = Some d" "find_io_bar 0x1F (BAR d) = Some b" "pcnet32_known_pci_id (Some d)"
    using assms by (auto simp: pcnet32_init_def split: option.splits if_splits)
  have "m' = snd (pcnet32_init h pdev m)" using assms by simp
  then show ?thesis
    by (simp add: pcnet32_init_def d pcnet32_ok_def Let_def split_beta pcnet32_regs pcnet32_setup_lengths pcnet32_init_block_def
        length_io_inb_seq)
qed

lemma rtl8101_setup_lengths:
  assumes "rtl8101_ring_size m = 4"
  shows "length (rtl8101_rx (rtl8101_setup_rings m)) = 4" "length (rtl8101_tx (rtl8101_setup_rings m)) = 4"
    "length (rtl8101_rx_packets (rtl8101_setup_rings m)) = 4" "length (rtl8101_tx_packets (rtl8101_setup_rings m)) = 4"
    "rtl8101_ring_size (rtl8101_setup_rings m) = 4" "rtl8101_mac_address (rtl8101_setup_rings m) = rtl8101_mac_address m"
  using assms by (simp_all add: rtl8101_setup_rings_def Let_def split_beta length_alloc_run alloc_run_update align_alloc_def
      rtl8101_fresh_def)

lemma rtl8101_init_ok:
  assumes "rtl8101_init h pdev m = (True, m')"
  shows "rtl8101_ok m' \<and> length (my_eth_mac m') = 6"
proof -
  obtain d b where d: "pci_dev_at m pdev = Some d" "find_io_bar 0xFF (BAR d) = Some b" "rtl8101_known_pci_id (Some d)"
    using assms by (auto simp: rtl8101_init_def split: option.splits if_splits)
  have m': "m' = snd (rtl8101_init h pdev m)" "fst (rtl8101_init h pdev m)" using assms by simp_all
  have size: "rtl8101_ring_size (rtl8101_alloc_rings u) = 4" "rtl8101_mac_address (rtl8101_alloc_rings u) = rtl8101_mac_address u" for u
    by (simp_all add: rtl8101_alloc_rings_def Let_def split_beta alloc_if_null_def do_alloc_def align_alloc_def)
  have mac: "length (rtl8101_mac_address (rtl8101_configure h u)) = 6" for u
    by (simp add: rtl8101_configure_def Let_def split_beta io_outw_def io_outl_def length_io_inb_seq)
  have start: "rtl8101_rx (rtl8101_start u) = rtl8101_rx u" "rtl8101_tx (rtl8101_start u) = rtl8101_tx u"
    "rtl8101_rx_packets (rtl8101_start u) = rtl8101_rx_packets u" "rtl8101_tx_packets (rtl8101_start u) = rtl8101_tx_packets u"
    "rtl8101_ring_size (rtl8101_start u) = rtl8101_ring_size u" "rtl8101_rx_offset (rtl8101_start u) = rtl8101_rx_offset u"
    "rtl8101_tx_offset (rtl8101_start u) = rtl8101_tx_offset u" "my_eth_mac (rtl8101_start u) = my_eth_mac u" for u
    by (simp_all add: rtl8101_start_def io_outl_def io_outb_def Let_def)
  show ?thesis
    using m'(2) unfolding m'(1)
    by (simp add: rtl8101_init_def d Let_def split_beta start rtl8101_ok_def rtl8101_setup_lengths size mac split: if_splits)
qed

lemma ne2000_init_ok:
  assumes "ne2000_init h pdev m = (True, m')"
  shows "length (my_eth_mac m') = 6"
proof -
  have regs: "my_eth_mac (ne2000_regs ws u) = my_eth_mac u" for ws u
    using ports_net_frame [OF ne2000_regs_ports [of u ws]] by (simp add: net_frame_def)
  have m': "m' = snd (ne2000_init h pdev m)" "fst (ne2000_init h pdev m)" using assms by simp_all
  show ?thesis
    using m'(2) unfolding m'(1) by (simp add: ne2000_init_def Let_def split_beta regs length_io_inb_seq split: if_splits)
qed

text \<open>A driver whose initialisation succeeds is one that can send, with consistent rings and a full address.\<close>

lemma drv_init_ok:
  assumes "drv_init h d pdev m = (True, m')"
  shows "d \<noteq> Rtl8139 \<and> drv_ok d m' \<and> length (my_eth_mac m') = 6"
  using assms
  by (cases d) (auto simp: drv_init_def drv_ok_def rtl8139_init_def dest: pcnet32_init_ok rtl8101_init_ok ne2000_init_ok)

section \<open>What the probe leaves alone\<close>

lemma probe_frames:
  assumes "net_frame m u"
  shows "net_frame m (snd (io_inb h p u))" "net_frame m (io_outb p b u)"
    "net_frame m (vga_write s u)" "net_frame m (vga_writehex x k u)"
    "net_frame m (ne2000_isr_wait h' base v n u)" "net_frame m (u\<lparr>ne2000_probe_base := base'\<rparr>)"
  using net_frame_trans [OF assms console_net_frame [OF ports_only_step [OF io_ports(8) [of u h p]]]]
    net_frame_trans [OF assms console_net_frame [OF ports_only_step [OF io_ports(1)]]]
    net_frame_trans [OF assms console_net_frame [OF vga_write_step]]
    net_frame_trans [OF assms console_net_frame [OF vga_writehex_step]]
    net_frame_trans [OF assms console_net_frame [OF ports_only_step [OF ne2000_isr_wait_ports [of u h' base v n]]]] assms
  by (auto simp: net_frame_def)

lemma probe_read: "io_inb h p u = (x, u') \<Longrightarrow> net_frame m u \<Longrightarrow> net_frame m u'"
  using probe_frames(1) [of m u h p] by simp

lemma isa_probe_frame: "ne2000_isa_probe h base m = (r, m') \<Longrightarrow> net_frame m m'"
  by (auto simp: ne2000_isa_probe_def Let_def split: prod.splits if_splits intro!: probe_frames elim!: probe_read)

lemma isa_frame:
  assumes "chosen_net_drv m = None"
  shows "net_frame (m\<lparr>chosen_net_drv := chosen_net_drv (autoprobe_network_card_isa h m)\<rparr>) (autoprobe_network_card_isa h m)"
proof -
  let ?m = "m\<lparr>chosen_net_drv := None, chosen_net_dev := None\<rparr>"
  have "net_frame ?m (snd (ne2000_probe h None ?m))"
    by (auto simp: ne2000_probe_def split: prod.splits if_splits dest!: isa_probe_frame intro: net_frame_trans)
  then show ?thesis
    using autoprobe_drivers_isa [of ?m h]
    by (auto simp: autoprobe_network_card_isa_def split_beta net_frame_def)
qed

lemma autoprobe_frame:
  assumes "autoprobe_network_card h m = Some m'"
  shows "net_frame (m\<lparr>chosen_net_drv := chosen_net_drv m'\<rparr>) m'"
proof (cases "find (\<lambda>i. card_driver (pci_devices m ! i) \<noteq> None) [0..<64]")
  case (Some i)
  then have "m' = m\<lparr>chosen_net_dev := Some i, chosen_net_drv := card_driver (pci_devices m ! i)\<rparr>"
    using autoprobe_outcome [OF assms] by simp
  then show ?thesis by (simp add: net_frame_def)
next
  case None
  let ?m = "m\<lparr>chosen_net_drv := None, chosen_net_dev := None\<rparr>"
  let ?n = "vga_write (''ISA network cards? '' @ crlf)
    (vga_write (''No PCI cards were automatically identified. Would you like me to probe for'' @ crlf) ?m)"
  have "autoprobe_pci h [0..<64] ?m = ?m" using autoprobe_pci_first [of ?m h "[0..<64]"] None by simp
  then obtain c m1 where k: "poll_until (\<lambda>c. c = of_char CHR ''y'' \<or> c > 0) (keyb8042_read_ascii h) ?n = Some (c, m1)"
    and m': "m' = (if c = of_char CHR ''y'' then autoprobe_network_card_isa h m1 else m1)"
    using assms by (auto simp: autoprobe_network_card_def Let_def bind_eq_Some_conv)
  have m1: "net_frame ?m m1"
    by (rule net_frame_trans [OF _ console_net_frame [OF ports_only_step [OF read_ascii_ports [OF k]]]])
      (intro probe_frames net_frame_refl)
  then have "chosen_net_drv m1 = None" by (simp add: net_frame_def)
  from isa_frame [OF this, of h] show ?thesis
    using m' m1 by (auto simp: net_frame_def)
qed

section \<open>The invariant of the menu\<close>

text \<open>The drivers that a probe can end with, given the PCI table.\<close>

definition probe_choices :: "pci_device list \<Rightarrow> network_driver option list" where
  "probe_choices devs = (case find (\<lambda>i. card_driver (devs ! i) \<noteq> None) [0..<64] of
     Some i \<Rightarrow> [card_driver (devs ! i)] | None \<Rightarrow> [None, Some Ne2000])"

lemma autoprobe_choices:
  "autoprobe_network_card h m = Some m' \<Longrightarrow> chosen_net_drv m' \<in> set (probe_choices (pci_devices m))"
  by (drule autoprobe_outcome) (auto simp: probe_choices_def split: option.splits)

lemma probe_choices_enabled: "Some Rtl8139 \<notin> set (probe_choices devs)"
  by (auto simp: probe_choices_def card_driver_def split: option.splits)

text \<open>
  The menu's state: no fault, an address of four bytes, a driver that the probe can choose, and a service
  that is in order while the network is open.
\<close>

definition menu_ok :: "'a dbg_scheme \<Rightarrow> bool" where
  "menu_ok m \<longleftrightarrow> fault m = None \<and> length (my_ipv4_address m) = 4 \<and> chosen_net_drv m \<in> set (probe_choices (pci_devices m)) \<and>
     (chosen_net_drv_open m \<longrightarrow> dbg_ok m)"

lemma ui_menu_ok:
  fixes m :: "'a dbg_scheme"
  assumes "ui_only m m'" and "menu_ok m"
  shows "menu_ok m'" and "chosen_net_drv_open m' = chosen_net_drv_open m"
proof -
  obtain mm hs x y c where m': "m' = m\<lparr>mem := mm, hist := hs, VGA_alpha_x := x, VGA_alpha_y := y, VGA_color := c\<rparr>"
    using ui_onlyE [OF assms(1)] by metis
  have "drv_ok d m' = drv_ok d m" for d
    by (simp add: m' drv_ok_def pcnet32_ok_def rtl8101_ok_def split: network_driver.split)
  then have "dbg_ok m' = dbg_ok m" unfolding dbg_ok_def by (simp add: m' split: option.split)
  then show "menu_ok m'" using assms(2) by (simp add: menu_ok_def) (simp add: m')
  show "chosen_net_drv_open m' = chosen_net_drv_open m" by (simp add: m')
qed

lemma console_menu_ok: "console_step m m' \<Longrightarrow> menu_ok m \<Longrightarrow> menu_ok m'"
  using ui_menu_ok(1) console_ui_only by blast

lemma ip_meant_length: "ip_meant t = Some ip \<Longrightarrow> length ip = 4"
  by (auto simp: ip_meant_def Let_def split: if_splits)

lemma change_ip_menu_ok:
  fixes m m' :: "'a dbg_scheme"
  assumes "change_ip_addr_ui h m = Some m'" and "menu_ok m"
  shows "menu_ok m'"
proof -
  let ?u = "m'\<lparr>my_ipv4_address := my_ipv4_address m\<rparr>"
  obtain input where i: "my_ipv4_address m' = (case ip_meant input of None \<Rightarrow> my_ipv4_address m | Some ip \<Rightarrow> ip)"
    and u: "ui_only m ?u"
    using change_ip_outcome [OF assms(1)] by blast
  then have "menu_ok ?u" using ui_menu_ok(1) [OF u assms(2)] by simp
  moreover have "length (my_ipv4_address m') = 4"
    using i assms(2) ip_meant_length [of input] by (auto simp: menu_ok_def split: option.splits)
  ultimately show ?thesis
    by (simp add: menu_ok_def dbg_ok_def drv_ok_def pcnet32_ok_def rtl8101_ok_def
        split: option.splits network_driver.splits)
qed

lemma open_menu_ok:
  assumes "open_driver h m = (ok, m')" and "menu_ok m" and "\<not> chosen_net_drv_open m" "chosen_net_drv m \<noteq> None"
  shows "menu_ok m'"
proof -
  obtain d where d: "chosen_net_drv m = Some d" using assms(4) by blast
  obtain ok' u where i: "drv_init h d (chosen_net_dev m) m = (ok', u)" by fastforce
  then have u: "env_same m u" using drv_init_env [of m h d "chosen_net_dev m"] by simp
  have "ok' = ok" "m' = (if ok then u\<lparr>chosen_net_drv_open := True\<rparr> else u)" using assms(1) d i by (auto simp: open_driver_def)
  moreover have "drv_ok d (u\<lparr>chosen_net_drv_open := True\<rparr>) = drv_ok d u"
    by (simp add: drv_ok_def pcnet32_ok_def rtl8101_ok_def split: network_driver.split)
  ultimately show ?thesis
    using drv_init_ok [of h d "chosen_net_dev m" m u] i u d assms(2,3)
    by (auto simp: menu_ok_def dbg_ok_def env_same_def)
qed

text \<open>A probe while the network is open is harmless as long as it finds a card.\<close>

lemma autoprobe_menu_ok:
  fixes m m' :: "'a dbg_scheme"
  assumes "autoprobe_network_card h m = Some m'" and "menu_ok m" and "chosen_net_drv_open m \<longrightarrow> chosen_net_drv m' \<noteq> None"
  shows "menu_ok m'"
proof -
  note fr = autoprobe_frame [OF assms(1)]
  have ch: "chosen_net_drv m' \<in> set (probe_choices (pci_devices m))" "pci_devices m' = pci_devices m"
    using autoprobe_choices [OF assms(1)] fr by (simp_all add: net_frame_def)
  have "dbg_ok m'" if "chosen_net_drv_open m"
  proof (cases "find (\<lambda>i. card_driver (pci_devices m ! i) \<noteq> None) [0..<64]")
    case (Some i)
    then have "m' = m\<lparr>chosen_net_dev := Some i, chosen_net_drv := card_driver (pci_devices m ! i)\<rparr>"
      using autoprobe_outcome [OF assms(1)] by simp
    moreover have "chosen_net_drv m = card_driver (pci_devices m ! i)"
      using assms(2) Some by (simp add: menu_ok_def probe_choices_def)
    ultimately show ?thesis
      using assms(2) that
      by (auto simp: menu_ok_def dbg_ok_def drv_ok_def pcnet32_ok_def rtl8101_ok_def split: option.splits network_driver.splits)
  next
    case None
    then have "chosen_net_drv m' = Some Ne2000" using ch assms(3) that by (simp add: probe_choices_def)
    then show ?thesis using fr assms(2) that by (simp add: menu_ok_def dbg_ok_def drv_ok_def net_frame_def)
  qed
  then show ?thesis using fr ch assms(2) by (simp add: menu_ok_def net_frame_def)
qed

lemma net_idle_menu_ok:
  assumes "net_idle h m = Some m'" and "menu_ok m"
  shows "menu_ok m'"
proof (cases "chosen_net_drv_open m")
  case True
  then have "dbg_ok m" using assms(2) by (simp add: menu_ok_def)
  then show ?thesis
    using net_idle_step [OF assms(1)] assms(2) by (auto simp: dbg_step_def menu_ok_def dbg_ok_def)
next
  case False
  then show ?thesis using assms by (simp add: net_idle_def)
qed

lemma console_branch:
  "console_step m u \<Longrightarrow> (\<And>x. console_step m (f x)) \<Longrightarrow> console_step m (case v of None \<Rightarrow> u | Some x \<Rightarrow> f x)"
  "console_step m u \<Longrightarrow> console_step m u' \<Longrightarrow> console_step m (if b then u else u')"
  by (simp_all split: option.split)

lemma main_menu_draw_step: "console_step m (main_menu_draw m)"
  unfolding main_menu_draw_def Let_def vga_write_ipv4_text
  by (intro console_after console_branch console_step_refl vga_writehex_step vga_writechar_step)

section \<open>A round of the menu\<close>

text \<open>The key that a round reads.\<close>

definition menu_key :: "'h rtl8101_hw_scheme \<Rightarrow> bool \<times> 'a dbg_scheme \<Rightarrow> int" where
  "menu_key h s = keyb8042_to_ascii (fst (keyb8042_read_buffer_imm h (if fst s then main_menu_draw (snd s) else snd s)))"

text \<open>The one round that ends in a fault: a probe on request, with the network open, that finds no card.\<close>

definition card_lost :: "'h rtl8101_hw_scheme \<Rightarrow> bool \<times> 'a dbg_scheme \<Rightarrow> bool \<times> 'a dbg_scheme \<Rightarrow> bool" where
  "card_lost h s s' \<longleftrightarrow> menu_key h s = of_char CHR ''x'' \<and> chosen_net_drv_open (snd s) \<and>
     probe_choices (pci_devices (snd s)) = [None, Some Ne2000] \<and> chosen_net_drv (snd s') = None \<and>
     fault (snd s') = Some Null_Call"

lemma net_idle_lost:
  assumes "chosen_net_drv_open m" and "chosen_net_drv m = None" and "fault m = None"
  shows "net_idle h m = Some (m\<lparr>fault := Some Null_Call\<rparr>)"
  using assms by (simp add: net_idle_def net_get_packet_def set_fault_def)

lemma lost_choices:
  assumes "None \<in> set (probe_choices devs)"
  shows "probe_choices devs = [None, Some Ne2000]"
proof (cases "find (\<lambda>i. card_driver (devs ! i) \<noteq> None) [0..<64]")
  case (Some i)
  then have "card_driver (devs ! i) \<noteq> None" by (auto simp: find_Some_iff)
  then show ?thesis using assms Some by (simp add: probe_choices_def)
qed (simp add: probe_choices_def)

lemma key_menu_ok:
  fixes m :: "'a dbg_scheme"
  assumes "main_menu_key h r m = Some (b, m')" and "menu_ok m"
  shows "menu_ok m' \<or> keyb8042_to_ascii r = of_char CHR ''x'' \<and> autoprobe_network_card h m = Some m' \<and>
    chosen_net_drv_open m \<and> chosen_net_drv m' = None"
proof -
  let ?a = "keyb8042_to_ascii r"
  consider (pci) "pci_bus_menu h m = Some m'" | (ip) "change_ip_addr_ui h m = Some m'"
    | (opened) ok m1 where "\<not> chosen_net_drv_open m" "chosen_net_drv m \<noteq> None" "open_driver h m = (ok, m1)"
        "m' = m1 \<or> (\<exists>c. keyb8042_read_buffer h (vga_write (''Open failed'' @ crlf) m1) = Some (c, m'))"
    | (probe) "?a = of_char CHR ''x''" "autoprobe_network_card h m = Some m'"
    | (shown) "console_step m m'"
    using assms(1) unfolding main_menu_key_def Let_def
    by (auto simp: bind_eq_Some_conv split: if_splits prod.splits
        intro: console_after console_step_refl)
  then show ?thesis
  proof cases
    case pci
    then have "ui_only m m'" by (rule only.menu_keeps) simp_all
    then show ?thesis using ui_menu_ok(1) assms(2) by blast
  next
    case opened
    have "menu_ok m1" using open_menu_ok opened(1-3) assms(2) by blast
    then show ?thesis
      using opened(4) console_menu_ok vga_write_step ports_only_step read_ports by blast
  next
    case probe
    then show ?thesis using autoprobe_menu_ok assms(2) by blast
  qed (use change_ip_menu_ok console_menu_ok assms(2) in blast)+
qed

lemma round_read:
  assumes "keyb8042_read_buffer_imm h (if fst s then main_menu_draw (snd s) else snd s) = (r, m)"
  shows "main_menu_round h s = do { (redraw, m) \<leftarrow> main_menu_key h r m; m \<leftarrow> net_idle h m; Some (redraw, m) }"
    and "console_step (snd s) m"
proof -
  let ?u = "if fst s then main_menu_draw (snd s) else snd s"
  show "main_menu_round h s = do { (redraw, m) \<leftarrow> main_menu_key h r m; m \<leftarrow> net_idle h m; Some (redraw, m) }"
    using assms by (cases s; cases "fst s") (simp_all add: main_menu_round_def Let_def)
  have "console_step (snd s) ?u" by (simp add: main_menu_draw_step)
  then show "console_step (snd s) m"
    using ports_only_step [OF read_imm_ports [of ?u h]] assms console_step_trans by simp blast
qed

lemma round_menu_ok:
  fixes s s' :: "bool \<times> 'a dbg_scheme"
  assumes "main_menu_round h s = Some s'" and "menu_ok (snd s)"
  shows "menu_ok (snd s') \<or> card_lost h s s'"
proof -
  let ?u = "if fst s then main_menu_draw (snd s) else snd s"
  obtain r m where r: "keyb8042_read_buffer_imm h ?u = (r, m)" by fastforce
  obtain b m1 where k: "main_menu_key h r m = Some (b, m1)" and n: "net_idle h m1 = Some (snd s')"
    using assms(1) by (auto simp: round_read(1) [OF r] bind_eq_Some_conv)
  note st = round_read(2) [OF r]
  then have m: "menu_ok m" using assms(2) console_menu_ok by blast
  from key_menu_ok [OF k m] show ?thesis
  proof (elim disjE conjE)
    assume "menu_ok m1" then show ?thesis using net_idle_menu_ok n by blast
  next
    assume x: "keyb8042_to_ascii r = of_char CHR ''x''" "autoprobe_network_card h m = Some m1"
      "chosen_net_drv_open m" "chosen_net_drv m1 = None"
    have fr: "chosen_net_drv_open m1" "fault m1 = None"
      using autoprobe_frame [OF x(2)] x(3) m by (simp_all add: net_frame_def menu_ok_def)
    have "probe_choices (pci_devices m) = [None, Some Ne2000]" using autoprobe_choices [OF x(2)] x(4) lost_choices by metis
    moreover have "pci_devices m = pci_devices (snd s)" "chosen_net_drv_open m = chosen_net_drv_open (snd s)"
      using st by (auto elim!: console_stepE)
    moreover have "snd s' = m1\<lparr>fault := Some Null_Call\<rparr>" using net_idle_lost [OF fr(1) x(4) fr(2), of h] n by simp
    ultimately show ?thesis using x r by (simp add: card_lost_def menu_key_def)
  qed
qed

section \<open>Everything the menu can reach\<close>

inductive_cases main_menu_cases: "main_menu h s s'"

lemma main_menu_trans [trans]: "main_menu h s' s'' \<Longrightarrow> main_menu h s s' \<Longrightarrow> main_menu h s s''"
  by (induction rule: main_menu.induct) (auto intro: main_menu.intros)

text \<open>
  C4. The main menu keeps its invariant, for as many rounds as it runs and whatever keys, packets and
  card answers there are: no fault, a full address, a driver that the PCI table allows and, while the network
  is open, a chosen driver with consistent rings and a full hardware address. The only way out is
  one round, reached with the invariant intact, in which the user asks for a probe while the network is open, the
  table has no known card and the probe of the ISA bus finds none: that round calls through the missing driver.
\<close>

theorem main_menu_invariant:
  assumes "main_menu h s s'" and "menu_ok (snd s)"
  shows "menu_ok (snd s') \<or>
    (\<exists>s1 s2. main_menu h s s1 \<and> menu_ok (snd s1) \<and> main_menu_round h s1 = Some s2 \<and> card_lost h s1 s2 \<and> main_menu h s2 s')"
  using assms
proof (induction rule: main_menu.induct)
  case (round s' s'')
  then consider "menu_ok (snd s')" | s1 s2 where "main_menu h s s1" "menu_ok (snd s1)" "main_menu_round h s1 = Some s2"
      "card_lost h s1 s2" "main_menu h s2 s'"
    by blast
  then show ?case
  proof cases
    case 1
    then show ?thesis using round_menu_ok [OF round.hyps(2)] round.hyps main_menu.start by blast
  next
    case 2
    then show ?thesis using main_menu.round [OF _ round.hyps(2)] by blast
  qed
qed simp

text \<open>A keyboard on which one key is always down, for the witnesses.\<close>

definition key_hw :: "u8 \<Rightarrow> rtl8101_hw" where
  "key_hw b = rtl8101_idle_hw\<lparr>hw_in := hw_in (keyb_hw b)\<rparr>"

lemma key_hw_read_imm:
  fixes m :: "'a vga_scheme"
  shows "fst (keyb8042_read_buffer_imm (key_hw b) m) = uint b"
proof -
  have "io_inbi_d (key_hw b) p m = io_inbi_d (keyb_hw b) p m" for p and m :: "'a vga_scheme"
    by (simp add: io_inbi_d_def io_inbi_def key_hw_def split_beta io_delay_def Let_def)
  then have "keyb8042_read_buffer_imm (key_hw b) m = keyb8042_read_buffer_imm (keyb_hw b) m"
    by (simp add: keyb8042_read_buffer_imm_def split_beta)
  then show ?thesis using keyb_hw_read_imm [of b m] by simp
qed

definition menu_example :: dbg where
  "menu_example = (dbg_example (\<lambda>_. 0))\<lparr>pci_devices := replicate 64 pci_device_zero\<rparr>"

lemma menu_example_choices: "probe_choices (pci_devices menu_example) = [None, Some Ne2000]"
proof -
  have "find (\<lambda>i. card_driver (replicate 64 pci_device_zero ! i) \<noteq> None) [0..<64] = None"
    unfolding find_None_iff by (simp add: card_driver_def pci_device_zero_def)
  then show ?thesis by (simp only: menu_example_def probe_choices_def option.case pci.select_convs pci.update_convs) simp
qed

lemma menu_example_ok: "menu_ok (menu_example\<lparr>chosen_net_drv_open := b\<rparr>)"
  using menu_example_choices
  by (simp add: menu_ok_def dbg_ok_def drv_ok_def menu_example_def)

lemma open_example: "menu_example\<lparr>chosen_net_drv_open := True\<rparr> = menu_example" "chosen_net_drv_open menu_example"
  by (simp_all add: menu_example_def dbg_example_def)

text \<open>A round on the key that does nothing, with the network closed.\<close>

theorem main_menu_invariant_witness:
  "\<exists>s'. main_menu_round (key_hw 0x13) (False, menu_example\<lparr>chosen_net_drv_open := False\<rparr>) = Some s' \<and> menu_ok (snd s')"
proof -
  let ?m = "menu_example\<lparr>chosen_net_drv_open := False\<rparr>"
  obtain r u where r: "keyb8042_read_buffer_imm (key_hw 0x13) ?m = (r, u)" by fastforce
  then have "r = 0x13" using key_hw_read_imm [of "0x13" ?m] by simp
  moreover have r_key: "keyb8042_to_ascii 0x13 = of_char CHR ''r''" by code_simp
  ultimately have k: "keyb8042_to_ascii r = of_char CHR ''r''" by simp
  have "ports_only ?m u" using read_imm_ports [of ?m "key_hw 0x13"] r by simp
  then have "\<not> chosen_net_drv_open u" by (auto dest!: ports_only_step elim!: console_stepE)
  then have "main_menu_round (key_hw 0x13) (False, ?m) = Some (False, u)"
    using r k by (simp add: main_menu_round_def main_menu_key_def net_idle_def)
  moreover from this have "main_menu (key_hw 0x13) (False, ?m) (False, u)" by (rule main_menu.round [OF main_menu.start])
  note main_menu_invariant [OF this]
  moreover have "\<not> card_lost (key_hw 0x13) s1 s2" for s1 s2 :: "bool \<times> dbg"
    by (simp add: card_lost_def menu_key_def key_hw_read_imm r_key)
  ultimately show ?thesis using menu_example_ok [of False] by auto
qed

text \<open>
  C36. A probe that comes back empty while the network is open is fatal: if key \<^verbatim>\<open>x\<close> is pressed with the network
  open and the probe ends without a card, the same round ends in a call through the missing driver.
\<close>

theorem main_menu_lost_card:
  assumes "menu_ok (snd s)" and "chosen_net_drv_open (snd s)" and "menu_key h s = of_char CHR ''x''"
    and "autoprobe_network_card h (snd (keyb8042_read_buffer_imm h (if fst s then main_menu_draw (snd s) else snd s))) = Some m"
    and "chosen_net_drv m = None"
  shows "\<exists>m'. main_menu_round h s = Some (True, m') \<and> fault m' = Some Null_Call"
proof -
  let ?u = "if fst s then main_menu_draw (snd s) else snd s"
  obtain r v where r: "keyb8042_read_buffer_imm h ?u = (r, v)" by fastforce
  note st = round_read(2) [OF r]
  then have "menu_ok v" "chosen_net_drv_open v" using assms(1,2) console_menu_ok by (blast, auto elim!: console_stepE)
  then have m: "fault m = None" "chosen_net_drv_open m"
    using autoprobe_frame [of h v m] assms(4) r by (simp_all add: net_frame_def menu_ok_def)
  have x: "keyb8042_to_ascii r = of_char CHR ''x''" using assms(3) r by (simp add: menu_key_def)
  have "main_menu_key h r v = Some (True, m)" using x assms(4) r by (simp add: main_menu_key_def)
  then show ?thesis
    using net_idle_lost [OF m(2) assms(5) m(1), of h] by (simp add: round_read(1) [OF r])
qed

lemma x_key: "keyb8042_to_ascii 0x2D = of_char CHR ''x''"
  by code_simp

lemma key_hw_read: "\<exists>m'. keyb8042_read_buffer (key_hw b) m = Some (uint b, m')"
proof -
  obtain r m' where r: "keyb8042_read_buffer_imm (key_hw b) m = (r, m')" by fastforce
  then have "r = uint b" using key_hw_read_imm [of b m] by simp
  then show ?thesis using r by (simp add: keyb8042_read_buffer_def while_option_unfold)
qed

lemma key_x_read: "\<exists>m'. keyb8042_read_ascii (key_hw 0x2D) m = Some (of_char CHR ''x'', m')"
  using key_hw_read [of "0x2D" m] by (auto simp: keyb8042_read_ascii_def x_key)

text \<open>The key \<^verbatim>\<open>x\<close> held down also answers the question about the ISA bus.\<close>

theorem main_menu_lost_card_witness:
  "\<exists>m'. main_menu_round (key_hw 0x2D) (False, menu_example) = Some (True, m') \<and> fault m' = Some Null_Call"
proof -
  let ?u = "snd (keyb8042_read_buffer_imm (key_hw 0x2D) menu_example)"
  have pci: "pci_devices ?u = pci_devices menu_example"
    using ports_only_step [OF read_imm_ports [of menu_example "key_hw 0x2D"]] by (auto elim!: console_stepE)
  have ok: "menu_ok menu_example" "chosen_net_drv_open menu_example"
    using menu_example_ok [of True] open_example by simp_all
  have "probe_choices (pci_devices ?u) = [None, Some Ne2000]" by (simp only: pci menu_example_choices)
  then have n: "find (\<lambda>i. card_driver (pci_devices ?u ! i) \<noteq> None) [0..<64] = None"
    by (auto simp: probe_choices_def split: option.splits)
  let ?m = "?u\<lparr>chosen_net_drv := None, chosen_net_dev := None\<rparr>"
  have scan: "autoprobe_pci (key_hw 0x2D) [0..<64] ?m = ?m"
    using autoprobe_pci_first [of ?m "key_hw 0x2D" "[0..<64]"] n by simp
  let ?v = "vga_write (''ISA network cards? '' @ crlf)
    (vga_write (''No PCI cards were automatically identified. Would you like me to probe for'' @ crlf) ?m)"
  obtain m where "keyb8042_read_ascii (key_hw 0x2D) ?v = Some (of_char CHR ''x'', m)" using key_x_read by blast
  then have p: "poll_until (\<lambda>c. c = of_char CHR ''y'' \<or> c > 0) (keyb8042_read_ascii (key_hw 0x2D)) ?v = Some (of_char CHR ''x'', m)"
    by (simp add: poll_until_def while_option_unfold)
  have "console_step ?m m"
    using console_step_trans [OF console_step_trans [OF vga_write_step vga_write_step] ports_only_step [OF read_ascii_ports [OF p]]] .
  then have m: "autoprobe_network_card (key_hw 0x2D) ?u = Some m" "chosen_net_drv m = None"
    using scan p by (auto simp: autoprobe_network_card_def Let_def elim!: console_stepE)
  show ?thesis
    using main_menu_lost_card [of "(False, menu_example)" "key_hw 0x2D" m] m ok x_key key_hw_read_imm [of "0x2D" menu_example]
    by (simp add: menu_key_def)
qed

end
