(* ===== verification/Startup.thy ===== *)
theory Startup
  imports MainMenu
begin

text \<open>
  The entry point: \<^verbatim>\<open>c_start\<close> of \<^verbatim>\<open>src/eth/c-main.c\<close>, which brings the machine up and enters the menu.
\<close>

section \<open>The entry point\<close>

text \<open>Everything that \<^verbatim>\<open>c_start\<close> does before it enters the menu.\<close>

definition c_start :: "'h rtl8101_hw_scheme \<Rightarrow> 'a dbg_scheme \<Rightarrow> 'a dbg_scheme option" where
  "c_start h m = do {
     let m = init_alloc h m;
     let m = vga_init m;
     let m = interrupt_init h (vga_write (''Setting up interrupts'' @ crlf) m);
     let m = timer_init (vga_write (''Setting up timer'' @ crlf) m);
     m \<leftarrow> keyboard_init h (vga_write (''Setting up keyboard'' @ crlf) m);
     let m = pci_init h m;
     let m = vga_write (''Remote-x86 (C) 2009-2010 Jonathan Campbell'' @ crlf) m;
     let m = vga_write (''THIS VERSION IS FOR DEBUGGING OVER ETHERNET. It is intended for use on machines'' @ crlf) m;
     let m = vga_write (''where there is ethernet but no working RS-232 serial port (like most laptops).'' @ crlf) m;
     let m = vga_write crlf m;
     m \<leftarrow> autoprobe_network_card h m;
     Some (if \<not> chosen_net_drv_open m \<and> chosen_net_drv m \<noteq> None then snd (open_driver h m) else m) }"

section \<open>What the start-up leaves alone\<close>

definition boot_same :: "'a net_scheme \<Rightarrow> 'a net_scheme \<Rightarrow> bool" where
  "boot_same m m' \<longleftrightarrow> fault m' = fault m \<and> my_ipv4_address m' = my_ipv4_address m \<and>
     chosen_net_drv_open m' = chosen_net_drv_open m"

lemma boot_same_refl [simp]: "boot_same m m"
  by (simp add: boot_same_def)

lemma boot_same_trans [trans]: "boot_same m m' \<Longrightarrow> boot_same m' m'' \<Longrightarrow> boot_same m m''"
  by (simp add: boot_same_def)

lemma boot_same_updates [simp]:
  "boot_same m (u\<lparr>mem := mm\<rparr>) = boot_same m u" "boot_same m (u\<lparr>alloc := a\<rparr>) = boot_same m u"
  "boot_same m (u\<lparr>pci_devices := ds\<rparr>) = boot_same m u" "boot_same m (u\<lparr>pci_bus_present := b\<rparr>) = boot_same m u"
  by (simp_all add: boot_same_def)

lemma boot_console: "boot_same m u \<Longrightarrow> console_step u u' \<Longrightarrow> boot_same m u'"
  by (erule console_stepE) (simp add: boot_same_def)

lemmas boot_ports = boot_console [OF _ ports_only_step]
lemmas boot_write = boot_console [OF _ vga_write_step]

lemma boot_fold: "(\<And>x v. boot_same m v \<Longrightarrow> boot_same m (f x v)) \<Longrightarrow> boot_same m u \<Longrightarrow> boot_same m (fold f xs u)"
  by (induction xs arbitrary: u) auto

lemma boot_memory: "boot_same m u \<Longrightarrow> boot_same m (init_alloc h u)" "boot_same m u \<Longrightarrow> boot_same m (vga_init u)"
  by (simp_all add: boot_same_def init_alloc_def vga_init_def vga_bios_geometry_def vga_bios_cursor_def Let_def)

lemma boot_interrupts: "boot_same m u \<Longrightarrow> boot_same m (interrupt_init h u)"
proof -
  assume u: "boot_same m u"
  have "boot_same m (idt_init h u)" using u by (simp add: boot_same_def idt_init_def Let_def)
  moreover have out: "boot_same m v \<Longrightarrow> boot_same m (io_outbi_d h p x v)" for p x v
    by (erule boot_ports) simp
  have inp: "boot_same m v \<Longrightarrow> boot_same m (snd (io_inbi_d h p v))" for p v
    by (erule boot_ports) simp
  have "boot_same m (pic_8259_init h v)" if v: "boot_same m v" for v
    unfolding pic_8259_init_def Let_def split_beta
    by (auto simp: set_idt_def Let_def intro!: boot_fold out inp v boot_write)
  ultimately show ?thesis unfolding interrupt_init_def by blast
qed

lemma boot_timer: "boot_same m u \<Longrightarrow> boot_same m (timer_init u)"
  by (erule boot_ports) (simp add: timer_init_def pit_8253_init_def pit_8253_start_countdown_def Let_def)

text \<open>The keyboard is only talked to through its ports, and complaints go to the console.\<close>

lemma write_command_byte_ports: "keyb8042_write_command_byte h c m = Some m' \<Longrightarrow> ports_only m m'"
  "keyb8042_write_leds h c m = Some m' \<Longrightarrow> ports_only m m'"
  unfolding keyb8042_write_command_byte_def keyb8042_write_leds_def
  by (auto simp: bind_eq_Some_conv dest!: write_ports wait_ports intro: ports_only_trans)

abbreviation boot_opt :: "'a net_scheme \<Rightarrow> 'a net_scheme option \<Rightarrow> bool" where
  "boot_opt m \<equiv> pred_option (boot_same m)"

abbreviation boot_read :: "'a net_scheme \<Rightarrow> ('r \<times> 'a net_scheme) option \<Rightarrow> bool" where
  "boot_read m \<equiv> pred_option (\<lambda>(r, v). boot_same m v)"

lemma boot_bind:
  "boot_opt m x \<Longrightarrow> (\<And>v. boot_same m v \<Longrightarrow> boot_opt m (f v)) \<Longrightarrow> boot_opt m (x \<bind> f)"
  "boot_read m y \<Longrightarrow> (\<And>r v. boot_same m v \<Longrightarrow> boot_opt m (g r v)) \<Longrightarrow> boot_opt m (y \<bind> (\<lambda>(r, v). g r v))"
  by (cases x, simp_all) (cases y, auto)

lemma boot_Some: "boot_same m u \<Longrightarrow> boot_opt m (Some u)"
  by simp

lemma boot_let:
  "boot_same m (snd r) \<Longrightarrow> (\<And>x v. boot_same m v \<Longrightarrow> boot_opt m (f x v)) \<Longrightarrow> boot_opt m (case r of (x, v) \<Rightarrow> f x v)"
  by (simp add: split_beta)

lemma boot_if:
  "boot_same m u \<Longrightarrow> boot_same m v \<Longrightarrow> boot_same m (if b then u else v)"
  "boot_same m (snd x) \<Longrightarrow> boot_same m (snd y) \<Longrightarrow> boot_same m (snd (if b then x else y))"
  "boot_opt m x' \<Longrightarrow> boot_opt m y' \<Longrightarrow> boot_opt m (if b then x' else y')"
  by simp_all

lemma keyb_steps:
  assumes "boot_same m u"
  shows "boot_opt m (keyb8042_write_buffer h c u)" "boot_opt m (keyb8042_write_command h c u)"
    "boot_opt m (keyb8042_write_command_byte h c u)" "boot_opt m (keyb8042_write_leds h c u)"
    "boot_read m (keyb8042_read_buffer h u)" "boot_same m (snd (keyb8042_read_buffer_imm h u))"
    "boot_same m (snd (io_inbi_d h p u))"
  using boot_ports [OF assms]
  by (auto simp: option.pred_set intro: read_imm_ports dest!: write_ports write_command_byte_ports read_ports)

lemmas keyb_rules = keyb_steps boot_bind boot_if boot_Some boot_write boot_let

lemma keyb_ack_step: "boot_same m u \<Longrightarrow> boot_opt m (keyb8042_expect_ack h msg u)"
  unfolding keyb8042_expect_ack_def by (intro keyb_rules)

lemma keyb_scan_step: "boot_same m u \<Longrightarrow> boot_opt m (keyb8042_scan_set_1 h u)"
  unfolding keyb8042_scan_set_1_def by (intro keyb_rules keyb_ack_step)

lemma keyb_reset_step: "boot_same m u \<Longrightarrow> boot_opt m (keyb8042_reset h u)"
  unfolding keyb8042_reset_def Let_def
  by (intro keyb_rules) (simp_all add: split_beta keyb_steps)

lemma boot_keyboard: "boot_same m u \<Longrightarrow> boot_opt m (keyboard_init h u)"
  unfolding keyboard_init_def keyb8042_init_def Let_def
  by (intro keyb_rules keyb_ack_step keyb_scan_step keyb_reset_step) (simp_all add: split_beta keyb_steps)

lemma pci_scan_same:
  "boot_same m u \<Longrightarrow> boot_same m (snd (pci_scan_functions h bus dev fs index u))"
  "boot_same m u \<Longrightarrow> boot_same m (snd (pci_scan_devices h bus ds index u))"
  "boot_same m u \<Longrightarrow> boot_same m (snd (pci_scan_buses h bs index u))"
proof -
  have rd: "boot_same m (snd (pci_config_read_imm h b d f r v))" "boot_same m (snd (pci_probe_function h b d f x v))"
    if "boot_same m v" for b d f r x and v :: "'a net_scheme"
    using boot_ports [OF that] pci_config_ports(2) [OF ports_only_refl] pci_probe_function_ports by blast+
  show f: "boot_same m u \<Longrightarrow> boot_same m (snd (pci_scan_functions h bus dev fs index u))" for bus dev fs index u
    by (induction fs arbitrary: index u) (simp_all add: split_beta rd)
  show d: "boot_same m u \<Longrightarrow> boot_same m (snd (pci_scan_devices h bus ds index u))" for bus ds index u
    by (induction ds arbitrary: index u) (simp_all add: split_beta f)
  show "boot_same m u \<Longrightarrow> boot_same m (snd (pci_scan_buses h bs index u))"
    by (induction bs arbitrary: index u) (simp_all add: split_beta d)
qed

lemma pci_max_bus_from_ports: "ports_only m (snd (pci_max_bus_from h x bs n m))"
  by (induction bs arbitrary: n m) (auto simp: split_beta intro: ports_only_trans [OF pci_config_ports(2) [OF ports_only_refl]])

lemma pci_max_bus_ports: "ports_only m (snd (pci_max_bus h m))"
  unfolding pci_max_bus_def Let_def split_beta
  by (rule ports_only_trans [OF pci_config_ports(2) [OF ports_only_refl] pci_max_bus_from_ports])

lemma boot_pci:
  assumes "boot_same m u"
  shows "boot_same m (pci_init h u)"
proof -
  have io: "boot_same m (io_outl p x v)" "boot_same m (snd (io_inl h p v))" "boot_same m (snd (pci_max_bus h v))"
    if "boot_same m v" for p x v
    using boot_ports [OF that] by (simp_all add: pci_max_bus_ports)
  show ?thesis
    unfolding pci_init_def Let_def split_beta by (auto intro!: io pci_scan_same boot_write assms)
qed

section \<open>The state the menu starts from\<close>

text \<open>
  C5. Starting up ends in a state the menu can run from. From the initial values of the globals, whatever the
  hardware answers and the user types, if \<^verbatim>\<open>c_start\<close> gets as far as the menu, no call has gone through a missing
  driver, the address has four bytes, the driver is one that the PCI table allows, and the network is
  open only with a driver whose initialisation succeeded, its rings consistent and the hardware address set.
\<close>

theorem c_start_ok:
  assumes "c_start h m = Some m'" and "fault m = None" and "length (my_ipv4_address m) = 4" and "\<not> chosen_net_drv_open m"
  shows "menu_ok m'"
proof -
  let ?a = "vga_init (init_alloc h m)"
  let ?b = "interrupt_init h (vga_write (''Setting up interrupts'' @ crlf) ?a)"
  let ?c = "timer_init (vga_write (''Setting up timer'' @ crlf) ?b)"
  let ?d = "vga_write (''Setting up keyboard'' @ crlf) ?c"
  let ?banner = "\<lambda>u. vga_write crlf (vga_write (''where there is ethernet but no working RS-232 serial port (like most laptops).'' @ crlf)
    (vga_write (''THIS VERSION IS FOR DEBUGGING OVER ETHERNET. It is intended for use on machines'' @ crlf)
      (vga_write (''Remote-x86 (C) 2009-2010 Jonathan Campbell'' @ crlf) (pci_init h u))))"
  obtain u v where u: "keyboard_init h ?d = Some u" and v: "autoprobe_network_card h (?banner u) = Some v"
    and m': "m' = (if \<not> chosen_net_drv_open v \<and> chosen_net_drv v \<noteq> None then snd (open_driver h v) else v)"
    using assms(1) unfolding c_start_def Let_def by (auto simp: bind_eq_Some_conv simp del: append_Cons)
  have "boot_same m ?d" by (intro boot_write boot_timer boot_interrupts boot_memory boot_same_refl)
  then have "boot_same m u" using boot_keyboard [of m ?d h] u by simp
  then have "boot_same m (?banner u)" by (intro boot_write boot_pci)
  then have "fault v = None" "length (my_ipv4_address v) = 4" "\<not> chosen_net_drv_open v"
    using autoprobe_frame [OF v] assms(2-4) by (simp_all add: boot_same_def net_frame_def)
  moreover have "chosen_net_drv v \<in> set (probe_choices (pci_devices v))"
    using autoprobe_choices [OF v] autoprobe_frame [OF v] by (simp add: net_frame_def)
  ultimately have "menu_ok v" by (simp add: menu_ok_def)
  then show ?thesis
    using m' open_menu_ok [of h v "fst (open_driver h v)" "snd (open_driver h v)"] by simp
qed

text \<open>A machine without a bus and with a keyboard that only ever answers the code of one key.\<close>

lemma key_hw_keyboard:
  fixes m :: "'a vga_scheme"
  shows "\<exists>m'. keyboard_init (key_hw 0x2D) m = Some m'"
proof -
  have st: "fst (io_inbi_d (key_hw 0x2D) 0x64 u) = 1" "fst (io_inbi_d (key_hw 0x2D) 0x60 u) = 0x2D" for u :: "'a vga_scheme"
    by (simp_all add: io_inbi_d_def io_inbi_def key_hw_def keyb_hw_def Let_def split_beta)
  have wr: "\<exists>m'. keyb8042_write_command (key_hw 0x2D) c u = Some m'" for c and u :: "'a vga_scheme"
    unfolding keyb8042_write_command_def keyb8042_wait_for_output_ready_def
    using st by (simp add: while_option_unfold split_beta)
  have rd: "\<exists>m'. keyb8042_read_buffer (key_hw 0x2D) u = Some (0x2D, m')" for u :: "'a vga_scheme"
    using key_hw_read [of "0x2D" u] by simp
  obtain f g where "keyb8042_write_command (key_hw 0x2D) c u = Some (f c u)"
    "keyb8042_read_buffer (key_hw 0x2D) u = Some (0x2D, g u)" for c and u :: "'a vga_scheme"
    using wr rd by metis
  then show ?thesis using st unfolding keyboard_init_def keyb8042_init_def Let_def by (simp add: split_beta)
qed

lemma key_hw_autoprobe: "\<exists>m'. autoprobe_network_card (key_hw 0x2D) m = Some m'"
proof -
  obtain u where "keyb8042_read_ascii (key_hw 0x2D) v = Some (of_char CHR ''x'', u v)" for v :: "'a ne2000_scheme"
    using key_x_read by metis
  then have "poll_until (\<lambda>c. c = of_char CHR ''y'' \<or> c > 0) (keyb8042_read_ascii (key_hw 0x2D)) v = Some (of_char CHR ''x'', u v)" for v
    by (simp add: poll_until_def while_option_unfold)
  then show ?thesis by (simp add: autoprobe_network_card_def Let_def)
qed

theorem c_start_ok_witness:
  "\<exists>m'. c_start (key_hw 0x2D) (menu_example\<lparr>chosen_net_drv_open := False\<rparr>) = Some m' \<and> menu_ok m'"
proof -
  let ?m = "menu_example\<lparr>chosen_net_drv_open := False\<rparr>"
  obtain k a where "keyboard_init (key_hw 0x2D) u = Some (k u)" "autoprobe_network_card (key_hw 0x2D) u = Some (a u)" for u :: dbg
    using key_hw_keyboard key_hw_autoprobe by metis
  then obtain m' where m': "c_start (key_hw 0x2D) ?m = Some m'" unfolding c_start_def Let_def by (simp del: append_Cons)
  have "menu_ok ?m" by (rule menu_example_ok)
  then show ?thesis using c_start_ok [OF m'] m' by (simp add: menu_ok_def)
qed

end
