(* ===== verification/Card.thy ===== *)
theory Card
  imports Service
begin

text \<open>
  The NE-2000 driver of \<^verbatim>\<open>src/eth/net-ne2000.c\<close> and a card together: what the driver delivers is what was read from the
  data port, and a card that holds a frame gets it delivered, takes the answer, and sees nothing else.
\<close>

section \<open>The bytes of the data port\<close>

text \<open>The bytes that reads of the data port carry, oldest first.\<close>

fun data_in :: "u16 \<Rightarrow> io_event list \<Rightarrow> u8 list" where
  "data_in p [] = []"
| "data_in p (PortIn W16 q v # es) = data_in p es @ (if q = p then le16 (ucast v) else [])"
| "data_in p (PortIn W8 q v # es) = data_in p es @ (if q = p then [ucast v] else [])"
| "data_in p (e # es) = data_in p es"

lemma data_in_byte:
  "data_in q (hist (snd (io_inb h p m))) = data_in q (hist m) @ (if ucast p = q then [fst (io_inb h p m)] else [])"
  "data_in q (hist (io_outb p b m)) = data_in q (hist m)"
  by (simp_all add: io_inb_def io_outb_def Let_def ucast_up_ucast_id is_up)

lemma data_in_regs [simp]: "data_in q (hist (ne2000_regs ws m)) = data_in q (hist m)"
  by (induction ws arbitrary: m) (simp_all add: ne2000_regs_def split_beta data_in_byte)

lemma data_in_words: "data_in (ucast p) (hist (snd (io_inw_seq h p n m))) = data_in (ucast p) (hist m) @ fst (io_inw_seq h p n m)"
proof (induction n arbitrary: m)
  case (Suc n)
  have "data_in (ucast p) (hist (snd (io_inw h p m))) = data_in (ucast p) (hist m) @ le16 (fst (io_inw h p m))"
    by (simp add: io_inw_def Let_def ucast_up_ucast_id is_up)
  then show ?case using Suc [of "snd (io_inw h p m)"] by (simp add: split_beta)
qed simp

lemma ucast_add_16: "(ucast ((a :: u32) + b) :: u16) = ucast a + ucast b"
proof -
  have "unat (ucast (a + b) :: u16) = (unat a + unat b) mod 65536"
    by (simp add: unsigned_ucast_eq take_bit_eq_mod unat_word_ariths(1) mod_mod_cancel)
  moreover have "unat (ucast a + ucast b :: u16) = (unat a + unat b) mod 65536"
    by (simp add: unsigned_ucast_eq take_bit_eq_mod unat_word_ariths(1) mod_simps)
  ultimately show ?thesis by (simp add: word_unat_eq_iff)
qed

lemma data_port_other: "(ucast (b + 7 :: u32) :: u16) \<noteq> ucast (b + 0x10)" "(ucast (b + 3 :: u32) :: u16) \<noteq> ucast (b + 0x10)"
proof -
  have "(ucast (b + k) :: u16) = ucast b + ucast k" for k :: u32 by (simp add: ucast_add_16)
  then show "(ucast (b + 7 :: u32) :: u16) \<noteq> ucast (b + 0x10)" "(ucast (b + 3 :: u32) :: u16) \<noteq> ucast (b + 0x10)" by simp_all
qed

lemma mem_write_snoc:
  assumes "length bs = k" and "k < 2 ^ 32 - 1"
  shows "mem_write (mem_write mm p bs) (p + of_nat k) [b] = mem_write mm p (bs @ [b])"
proof (rule ext)
  fix x
  have "x - (p + of_nat k) = 0 \<longleftrightarrow> unat (x - p) = k"
  proof
    assume "x - (p + of_nat k) = 0"
    then have "x - p = of_nat k" by (simp add: algebra_simps)
    then show "unat (x - p) = k" using assms(2) by simp
  next
    assume "unat (x - p) = k"
    then have "unat (x - p) = unat (of_nat k :: u32)" using assms(2) by simp
    then have "x - p = of_nat k" by (rule word_unat_eq_iff [THEN iffD2])
    then show "x - (p + of_nat k) = 0" by (simp add: algebra_simps)
  qed
  then have "unat (x - (p + of_nat k)) = 0 \<longleftrightarrow> unat (x - p) = k" by (simp only: unat_eq_0)
  then show "mem_write (mem_write mm p bs) (p + of_nat k) [b] x = mem_write mm p (bs @ [b]) x"
    using assms(1) by (auto simp: mem_write_def nth_append)
qed

lemma odd_and_one: "n AND 1 \<noteq> 0 \<longleftrightarrow> odd (unat (n :: u32))"
  by (simp add: and_one_eq odd_iff_mod_2_eq_one [symmetric] flip: bit_0) (simp add: bit_unsigned_iff)

lemma copy_in_data:
  fixes m :: "'a ne2000_scheme" and h :: "'h hw_scheme" and c :: u8
  assumes "unat n \<le> 1518"
  defines "u \<equiv> ne2000_copy_in h c n m" and "q \<equiv> ucast (ne2000_probe_base m + 0x10)"
  shows "data_in q (hist u) = data_in q (hist m) @ load_bytes (mem u) (ne2000_last_packet m) (unat n)"
    and "ne2000_probe_base u = ne2000_probe_base m" and "ne2000_last_packet u = ne2000_last_packet m"
proof -
  let ?k = "unat n div 2" and ?lp = "ne2000_last_packet m"
  define m1 where "m1 = ne2000_regs [(0xA, ucast n), (0xB, ucast (drop_bit 8 n)), (0x8, 4), (0x9, c)] m"
  have m1: "ne2000_probe_base m1 = ne2000_probe_base m" "ne2000_last_packet m1 = ?lp" "data_in q (hist m1) = data_in q (hist m)"
    using ne2000_port_frames by (simp_all add: m1_def)
  obtain bs m2 where r: "io_inw_seq h (ne2000_probe_base m + 0x10) ?k m1 = (bs, m2)" by fastforce
  have m2: "ne2000_probe_base m2 = ne2000_probe_base m" "ne2000_last_packet m2 = ?lp" "mem m2 = mem m1"
    "length bs = 2 * ?k" "data_in q (hist m2) = data_in q (hist m) @ bs"
    using ports_ne2000 [of m1 m2] io_inw_seq_ports [of m1 h "ne2000_probe_base m + 0x10" ?k]
      length_io_inw_seq [of h "ne2000_probe_base m + 0x10" ?k m1]
      data_in_words [of "ne2000_probe_base m + 0x10" h ?k m1] r m1
    by (simp_all add: q_def)
  note odd = odd_and_one [of n]
  have bs: "load_bytes (mem_write (mem m1) ?lp bs) ?lp (2 * ?k) = bs"
    using load_write_same [of bs "mem m1" ?lp] m2(4) assms(1) by simp
  have "data_in q (hist u) = data_in q (hist m) @ load_bytes (mem u) ?lp (unat n) \<and>
    ne2000_probe_base u = ne2000_probe_base m \<and> ne2000_last_packet u = ?lp"
  proof (cases "odd (unat n)")
    case False
    then have "unat n = 2 * ?k" by simp
    moreover have "u = m2\<lparr>mem := mem_write (mem m1) ?lp bs, ne2000_last_packet_size := n\<rparr>"
      using r False m2 m1 odd by (simp add: u_def ne2000_copy_in_def m1_def [symmetric] Let_def)
    ultimately show ?thesis using m2 bs by simp
  next
    case True
    then have n: "unat n = 2 * ?k + 1" by simp
    then have "unat (of_nat (2 * ?k + 1) :: u32) = unat n" using assms(1) by (simp only: n [symmetric]) simp
    then have "of_nat (2 * ?k + 1) = n" by (rule word_unat_eq_iff [THEN iffD2])
    then have n1: "n - 1 = of_nat (2 * ?k)" by (metis add_diff_cancel_right' of_nat_1 of_nat_add)
    define m3 where "m3 = m2\<lparr>mem := mem_write (mem m1) ?lp bs\<rparr>"
    obtain b m4 where b: "io_inb h (ne2000_probe_base m + 0x10) m3 = (b, m4)" by fastforce
    have po: "ports_only m3 m4" using io_ports(8) [of m3 h "ne2000_probe_base m + 0x10"] b by simp
    have m4: "mem m4 = mem m3" "ne2000_last_packet m4 = ?lp" "data_in q (hist m4) = data_in q (hist m) @ bs @ [b]"
        "ne2000_probe_base m4 = ne2000_probe_base m"
      using ports_ne2000(1,2,4) [OF po] b
        data_in_byte(1) [of q h "ne2000_probe_base m + 0x10" m3] m2 by (simp_all add: m3_def q_def)
    have "u = m4\<lparr>mem := mem_write (mem m3) (?lp + of_nat (2 * ?k)) [b], ne2000_last_packet_size := n\<rparr>"
      using r True b m2 m1 m4 odd n1 by (simp add: u_def ne2000_copy_in_def m1_def [symmetric] m3_def [symmetric] Let_def)
    moreover have "load_bytes (mem_write (mem m3) (?lp + of_nat (2 * ?k)) [b]) ?lp (unat n) = bs @ [b]"
    proof -
      have "mem_write (mem m3) (?lp + of_nat (2 * ?k)) [b] = mem_write (mem m1) ?lp (bs @ [b])"
        using mem_write_snoc [of bs "2 * ?k" "mem m1" ?lp b] m2(4) n assms(1) by (simp add: m3_def)
      then show ?thesis using load_write_same [of "bs @ [b]" "mem m1" ?lp] m2(4) n assms(1) by simp
    qed
    ultimately show ?thesis using m4 by simp
  qed
  then show "data_in q (hist u) = data_in q (hist m) @ load_bytes (mem u) ?lp (unat n)"
    "ne2000_probe_base u = ne2000_probe_base m" "ne2000_last_packet u = ?lp" by simp_all
qed

section \<open>A delivered packet is a frame of the card\<close>

text \<open>The four bytes the card puts in front of a frame it received without error.\<close>

definition rx_announces :: "u8 list \<Rightarrow> nat \<Rightarrow> bool" where
  "rx_announces bs n \<longleftrightarrow> length bs = 4 \<and> bs ! 0 AND 1 \<noteq> 0 \<and> bs ! 0 AND 0x1E = 0 \<and> unat (bs ! 2) + 256 * unat (bs ! 3) = n + 4"

lemma le_count: "unat (ucast (a :: u8) OR push_bit 8 (ucast (b :: u8)) :: u32) = unat a + 256 * unat b"
proof -
  have "(ucast a OR push_bit 8 (ucast b) :: u32) = ucast a + push_bit 8 (ucast b)"
    by (rule disjunctive_add [symmetric]) (auto simp: bit_simps dest: bit_imp_le_length)
  moreover have "unat (push_bit 8 (ucast b) :: u32) = 256 * unat b"
  proof -
    have "unat b * 256 < 4294967296" using unat_bounds(1) [of b] by linarith
    then show ?thesis by (simp add: push_bit_eq_mult unat_word_ariths(2))
  qed
  moreover have "unat a + 256 * unat b < 4294967296" using unat_bounds(1) [of a] unat_bounds(1) [of b] by linarith
  ultimately show ?thesis by (simp add: unat_word_ariths(1))
qed

lemma io_in_step:
  "io_inb h p m = (b, m') \<Longrightarrow> ports_only m m'" "io_inw_seq h p n m = (bs, m') \<Longrightarrow> ports_only m m'"
  using io_ports(8) [of m h p] io_inw_seq_ports [of m h p n] by (metis snd_conv)+

lemma be_bytes_16: "unat (ucast w :: u8) + 256 * unat (ucast (drop_bit 8 w) :: u8) = unat (w :: u16)"
  using be_bytes [of w] by simp

lemma receive_data:
  fixes m :: "'a ne2000_scheme"
  assumes "ne2000_receive h m = (go, m')" and "ne2000_last_packet_size m = 0"
  defines "q \<equiv> ucast (ne2000_probe_base m + 0x10)"
  shows "ne2000_probe_base m' = ne2000_probe_base m \<and> ne2000_last_packet m' = ne2000_last_packet m \<and> (ne2000_last_packet_size m' = 0 \<or>
    (\<exists>bs. rx_announces bs (unat (ne2000_last_packet_size m')) \<and>
      data_in q (hist m') = data_in q (hist m) @ bs @ load_bytes (mem m') (ne2000_last_packet m) (unat (ne2000_last_packet_size m'))))"
proof -
  define m1 where "m1 = ne2000_regs [(0, 0x22 OR 0x40)] m"
  obtain cw m2 where r2: "io_inb h (ne2000_probe_base m1 + 7) m1 = (cw, m2)" by fastforce
  define m3 where "m3 = ne2000_regs [(0, 0x22)] m2"
  obtain bnry m4 where r4: "io_inb h (ne2000_probe_base m3 + 3) m3 = (bnry, m4)" by fastforce
  define cur where "cur = (if bnry + 1 \<ge> RX_PAGE_END then RX_PAGE_START else bnry + 1)"
  define m5 where "m5 = ne2000_regs [(0xA, 4), (0xB, 0), (0x8, 0), (0x9, cur)] m4"
  obtain tmp m6 where r6: "io_inw_seq h (ne2000_probe_base m5 + 0x10) 2 m5 = (tmp, m6)" by fastforce
  let ?bc = "ucast (tmp ! 2) OR push_bit 8 (ucast (tmp ! 3)) :: u32"
  have r: "ne2000_receive h m = (if cur = cw then (False, m4) else (True,
       ne2000_regs [(3, tmp ! 1 - 1), (7, 0x01)]
       (if tmp ! 0 AND 1 \<noteq> 0 \<and> tmp ! 0 AND 0x1E = 0 \<and> ?bc \<ge> 18 \<and> ?bc \<le> 1522 then ne2000_copy_in h cur (?bc - 4) m6 else m6)))"
    using r2 r4 r6 unfolding m1_def m3_def m5_def cur_def
    by (simp add: ne2000_receive_def Let_def cong: if_cong)
  have pm: "ports_only m m1" "ports_only m1 m2" "ports_only m2 m3" "ports_only m3 m4" "ports_only m4 m5" "ports_only m5 m6"
    using ne2000_regs_ports io_in_step(1) [OF r2] io_in_step(1) [OF r4] io_in_step(2) [OF r6] by (simp_all add: m1_def m3_def m5_def)
  have base: "ne2000_probe_base m1 = ne2000_probe_base m" "ne2000_probe_base m3 = ne2000_probe_base m" "ne2000_probe_base m5 = ne2000_probe_base m"
    using ports_ne2000(4) [OF pm(1)] ports_ne2000(4) [OF pm(2)] ports_ne2000(4) [OF pm(3)] ports_ne2000(4) [OF pm(4)] ports_ne2000(4) [OF pm(5)]
    by simp_all
  have p6: "ports_only m m6" and p4: "ports_only m m4" using pm by (meson ports_only_trans)+
  have d2: "data_in q (hist m2) = data_in q (hist m)"
    using data_in_byte(1) [of q h "ne2000_probe_base m1 + 7" m1] r2 base data_port_other by (simp add: q_def m1_def)
  have d4: "data_in q (hist m4) = data_in q (hist m)"
    using data_in_byte(1) [of q h "ne2000_probe_base m3 + 3" m3] r4 base data_port_other d2 by (simp add: q_def m3_def)
  have d6: "data_in q (hist m6) = data_in q (hist m) @ tmp" "length tmp = 4"
    using data_in_words [of "ne2000_probe_base m5 + 0x10" h 2 m5] length_io_inw_seq [of h "ne2000_probe_base m5 + 0x10" 2 m5] r6 d4 base
    by (simp_all add: q_def m5_def)
  let ?cond = "cur \<noteq> cw \<and> tmp ! 0 AND 1 \<noteq> 0 \<and> tmp ! 0 AND 0x1E = 0 \<and> ?bc \<ge> 18 \<and> ?bc \<le> 1522"
  show ?thesis
  proof (cases ?cond)
    case True
    define u where "u = ne2000_copy_in h cur (?bc - 4) m6"
    have n: "14 \<le> unat (?bc - 4)" "unat (?bc - 4) \<le> 1518" using rx_count_bounds [of ?bc] True by simp_all
    have m': "m' = ne2000_regs [(3, tmp ! 1 - 1), (7, 0x01)] u" using r assms(1) True by (simp add: u_def)
    have "ne2000_last_packet_size u = ?bc - 4" by (simp add: u_def ne2000_copy_in_def Let_def split_beta)
    then have "ne2000_last_packet_size m' = ?bc - 4" "mem m' = mem u" "data_in q (hist m') = data_in q (hist u)"
      "ne2000_probe_base m' = ne2000_probe_base u" "ne2000_last_packet m' = ne2000_last_packet u"
      by (simp_all add: m' ports_ne2000 [OF ne2000_regs_ports])
    moreover have "data_in q (hist u) = data_in q (hist m6) @ load_bytes (mem u) (ne2000_last_packet m) (unat (?bc - 4))"
      "ne2000_probe_base u = ne2000_probe_base m" "ne2000_last_packet u = ne2000_last_packet m"
      using copy_in_data [OF n(2), where m = m6 and h = h and c = cur] ports_ne2000(2,4) [OF p6] by (simp_all add: u_def q_def)
    moreover have "unat (?bc - 4) + 4 = unat ?bc" using True by (simp add: word_le_nat_alt unat_sub)
    then have "rx_announces tmp (unat (?bc - 4))" using True d6(2) by (simp add: rx_announces_def le_count)
    ultimately show ?thesis using d6(1) by auto
  next
    case False
    then have "m' = m4 \<or> m' = ne2000_regs [(3, tmp ! 1 - 1), (7, 0x01)] m6" using r assms(1) by (auto split: if_splits)
    then have "ports_only m m'" using p4 ports_only_trans [OF p6 ne2000_regs_ports] by blast
    then show ?thesis using ports_ne2000(2-4) [of m m'] assms(2) by simp
  qed
qed

text \<open>
  C33. What is delivered is what the card sent: a packet from \<^verbatim>\<open>ne2000_get_packet\<close> is a frame read from the data port, all of it
  and nothing else, behind the four bytes with which the card announces a frame without error and its length. The header
  handed out is the frame's, and the buffer holds the bytes behind it.
\<close>

theorem ne2000_get_packet_frame:
  fixes m :: "'a ne2000_scheme"
  assumes "ne2000_get_packet h m = (Some (sz, hdr, p), m')"
  shows "\<exists>bs frame. rx_announces bs (length frame) \<and> int (length frame) = sz + 14 \<and>
    data_in (ucast (ne2000_probe_base m + 0x10)) (hist m') = data_in (ucast (ne2000_probe_base m + 0x10)) (hist m) @ bs @ frame \<and>
    dst_mac hdr = take 6 frame \<and> src_mac hdr = take 6 (drop 6 frame) \<and> le16 (eth_type hdr) = take 2 (drop 12 frame) \<and>
    load_bytes (mem m') p (nat sz) = drop 14 frame"
proof -
  let ?m = "m\<lparr>ne2000_last_packet_size := 0\<rparr>" and ?q = "ucast (ne2000_probe_base m + 0x10) :: u16"
  define m1 where "m1 = ne2000_regs [(0x0, 0x22)] ?m"
  obtain c m2 where r2: "io_inb h (ne2000_probe_base m1 + 7) m1 = (c, m2)" by fastforce
  define s3 where "s3 = (if c AND 0x40 \<noteq> 0
    then io_inb h (ne2000_probe_base m2 + 7) (io_outb (ne2000_probe_base m2 + 7) 0x40 m2) else (c, m2))"
  define s4 where "s4 = (if fst s3 AND 1 \<noteq> 0 then ne2000_receive h (snd s3) else (True, snd s3))"
  define m5 where "m5 = ne2000_regs [(0x0, 0x22)] (snd s4)"
  obtain c' m6 where r6: "io_inb h (ne2000_probe_base m5 + 7) m5 = (c', m6)" by fastforce
  define m7 where "m7 = (if c' \<noteq> 0 then io_outb (ne2000_probe_base m6 + 7) (c' AND 0xFE) m6 else m6)"
  have g: "ne2000_get_packet h m = (if \<not> fst s4 then (None, snd s4) else if ne2000_last_packet_size m7 \<ge> 14
      then (Some (sint (ne2000_last_packet_size m7 - 14), eth_load (mem m7) (ne2000_last_packet m7),
        ne2000_last_packet m7 + 14), m7) else (None, m7))"
    using r2 r6 unfolding m7_def m5_def s4_def s3_def m1_def
    by (simp add: ne2000_get_packet_def Let_def split_beta cong: if_cong)
  then have size: "14 \<le> ne2000_last_packet_size m7" and m': "m' = m7" and out: "sz = sint (ne2000_last_packet_size m7 - 14)"
      "hdr = eth_load (mem m7) (ne2000_last_packet m7)" "p = ne2000_last_packet m7 + 14"
    using assms by (auto split: if_splits)
  have p2: "ports_only ?m m2" using ne2000_regs_ports [of ?m] io_in_step(1) [OF r2] unfolding m1_def by (rule ports_only_trans)
  then have p3: "ports_only ?m (snd s3)" by (simp add: s3_def)
  have b3: "ne2000_probe_base (snd s3) = ne2000_probe_base m" "ne2000_last_packet_size (snd s3) = 0" "ne2000_last_packet (snd s3) = ne2000_last_packet m"
    "ne2000_probe_base m1 = ne2000_probe_base m" "ne2000_probe_base m2 = ne2000_probe_base m"
    using ports_ne2000(2-4) [OF p3] ports_ne2000(4) [OF p2] ports_ne2000(4) [OF ne2000_regs_ports [of ?m]] by (simp_all add: m1_def)
  have "data_in ?q (hist m2) = data_in ?q (hist m)"
    using data_in_byte(1) [of ?q h "ne2000_probe_base m1 + 7" m1] r2 b3 data_port_other by (simp add: m1_def)
  then have d3: "data_in ?q (hist (snd s3)) = data_in ?q (hist m)"
    using b3 data_port_other by (simp add: s3_def data_in_byte)
  have p7: "ports_only (snd s4) m7"
    using ports_only_trans [OF ne2000_regs_ports [of "snd s4"] io_in_step(1) [OF r6, unfolded m5_def]] by (simp add: m7_def)
  note f7 = ports_ne2000 [OF p7]
  have r4: "ne2000_probe_base (snd s4) = ne2000_probe_base m \<and> ne2000_last_packet (snd s4) = ne2000_last_packet m \<and>
    (ne2000_last_packet_size (snd s4) = 0 \<or> (\<exists>bs. rx_announces bs (unat (ne2000_last_packet_size (snd s4))) \<and>
      data_in ?q (hist (snd s4)) = data_in ?q (hist m) @ bs @
        load_bytes (mem (snd s4)) (ne2000_last_packet m) (unat (ne2000_last_packet_size (snd s4)))))"
    using receive_data [of h "snd s3" "fst s4" "snd s4", OF _ b3(2)] b3 d3 by (cases "fst s3 AND 1 \<noteq> 0") (simp_all add: s4_def)
  have "ne2000_probe_base m5 = ne2000_probe_base m" using r4 by (simp add: m5_def ports_ne2000(4) [OF ne2000_regs_ports])
  then have "data_in ?q (hist m6) = data_in ?q (hist m5)"
    using data_in_byte(1) [of ?q h "ne2000_probe_base m5 + 7" m5] r6 data_port_other by simp
  then have d7: "data_in ?q (hist m7) = data_in ?q (hist (snd s4))" by (simp add: m7_def data_in_byte(2) m5_def)
  define frame where "frame = load_bytes (mem m') (ne2000_last_packet m') (unat (ne2000_last_packet_size m'))"
  have n: "14 \<le> unat (ne2000_last_packet_size m')" "unat (ne2000_last_packet_size m') \<le> 1518"
    using size ne2000_get_step(1) [OF assms] by (simp_all add: m' word_le_nat_alt ne2000_rx_step_def)
  have len: "int (length frame) = sz + 14" using frame_size_sint [OF _ n(2)] size by (simp add: frame_def out m')
  moreover have "length frame = unat (ne2000_last_packet_size m')" by (simp add: frame_def)
  ultimately have len': "14 + nat sz = unat (ne2000_last_packet_size m')" using n(1) by linarith
  have sub: "load_bytes (mem m') (ne2000_last_packet m' + of_nat j) k = take k (drop j frame)" if "j + k \<le> 14 + nat sz" for j k
    using load_bytes_sub [of j k "unat (ne2000_last_packet_size m')" "mem m'" "ne2000_last_packet m'"] that len' by (simp add: frame_def)
  have "dst_mac hdr = take 6 frame" "src_mac hdr = take 6 (drop 6 frame)" "le16 (eth_type hdr) = take 2 (drop 12 frame)"
    "load_bytes (mem m') p (nat sz) = drop 14 frame"
    using sub [of 0 6] sub [of 6 6] sub [of 12 2] sub [of 14 "nat sz"] len
    by (simp_all add: out m' eth_load_def le16_load16)
  moreover have "\<exists>bs. rx_announces bs (length frame) \<and> data_in ?q (hist m') = data_in ?q (hist m) @ bs @ frame"
    using r4 d7 f7 n by (auto simp: frame_def m')
  ultimately show ?thesis using len by blast
qed

section \<open>A card with a frame\<close>

text \<open>
  A card at port 0x300 that has received \<open>frame\<close>, after \<open>n0\<close> bytes were read from its data port before. It gives the four
  announcing bytes, then the frame.
\<close>

definition card_stream :: "u8 list \<Rightarrow> u8 list" where
  "card_stream frame = (let c = of_nat (length frame + 4) :: u16 in [1, 0x47, ucast c, ucast (drop_bit 8 c)] @ frame)"

definition ne2000_card :: "nat \<Rightarrow> u8 list \<Rightarrow> 'h hw_scheme \<Rightarrow> 'h hw_scheme" where
  "ne2000_card n0 frame h = h\<lparr>hw_in := \<lambda>hs w p.
     let s = card_stream frame; k = length (data_in 0x310 hs) - n0
     in if p = 0x310 then (if w = W16 then ucast (s ! k) OR push_bit 8 (ucast (s ! (k + 1))) else ucast (s ! k))
        else if p = 0x307 then (if hd hs = PortOut W8 0x300 0x62 then 0x47 else 1)
        else if p = 0x303 then 0x45
        else 0\<rparr>"

lemma le16_pair: "le16 (ucast (ucast (a :: u8) OR push_bit 8 (ucast (b :: u8)) :: u32)) = [a, b]"
proof -
  have "\<not> bit a (8 + n)" for n using bit_imp_le_length [of a "8 + n"] by auto
  then show ?thesis by (auto simp: le16_def intro!: bit_word_eqI simp: bit_simps)
qed

lemma card_read:
  fixes m :: "'a bus_scheme" and h :: "'h hw_scheme"
  assumes "data_in 0x310 (hist m) = d @ take k (card_stream frame)" and "k \<le> length (card_stream frame)"
  defines "c \<equiv> ne2000_card (length d) frame h"
  shows "k + 1 < length (card_stream frame) \<Longrightarrow> \<exists>w. io_inw c 0x310 m = (w, m\<lparr>hist := PortIn W16 0x310 (ucast w) # hist m\<rparr>) \<and>
      le16 w = [card_stream frame ! k, card_stream frame ! (k + 1)]"
    and "k < length (card_stream frame) \<Longrightarrow> io_inb c 0x310 m =
      (card_stream frame ! k, m\<lparr>hist := PortIn W8 0x310 (ucast (card_stream frame ! k)) # hist m\<rparr>)"
    and "io_inb c 0x303 m = (0x45, m\<lparr>hist := PortIn W8 0x303 0x45 # hist m\<rparr>)"
    and "hd (hist m) = PortOut W8 0x300 0x62 \<Longrightarrow> io_inb c 0x307 m = (0x47, m\<lparr>hist := PortIn W8 0x307 0x47 # hist m\<rparr>)"
    and "hd (hist m) \<noteq> PortOut W8 0x300 0x62 \<Longrightarrow> io_inb c 0x307 m = (1, m\<lparr>hist := PortIn W8 0x307 1 # hist m\<rparr>)"
proof -
  have k: "length (data_in 0x310 (hist m)) - length d = k" using assms(1,2) by simp
  show "k + 1 < length (card_stream frame) \<Longrightarrow> \<exists>w. io_inw c 0x310 m = (w, m\<lparr>hist := PortIn W16 0x310 (ucast w) # hist m\<rparr>) \<and>
      le16 w = [card_stream frame ! k, card_stream frame ! (k + 1)]"
    by (simp add: io_inw_def c_def ne2000_card_def k Let_def le16_pair)
  show "k < length (card_stream frame) \<Longrightarrow> io_inb c 0x310 m =
      (card_stream frame ! k, m\<lparr>hist := PortIn W8 0x310 (ucast (card_stream frame ! k)) # hist m\<rparr>)"
    by (simp add: io_inb_def c_def ne2000_card_def k Let_def ucast_up_ucast_id is_up)
  show "io_inb c 0x303 m = (0x45, m\<lparr>hist := PortIn W8 0x303 0x45 # hist m\<rparr>)"
    "hd (hist m) = PortOut W8 0x300 0x62 \<Longrightarrow> io_inb c 0x307 m = (0x47, m\<lparr>hist := PortIn W8 0x307 0x47 # hist m\<rparr>)"
    "hd (hist m) \<noteq> PortOut W8 0x300 0x62 \<Longrightarrow> io_inb c 0x307 m = (1, m\<lparr>hist := PortIn W8 0x307 1 # hist m\<rparr>)"
    by (simp_all add: io_inb_def c_def ne2000_card_def Let_def)
qed

lemma card_words:
  fixes m :: "'a bus_scheme" and h :: "'h hw_scheme"
  assumes "data_in 0x310 (hist m) = d @ take k (card_stream frame)" and "k + 2 * n \<le> length (card_stream frame)"
  shows "\<exists>hs. io_inw_seq (ne2000_card (length d) frame h) 0x310 n m = (take (2 * n) (drop k (card_stream frame)), m\<lparr>hist := hs\<rparr>) \<and>
    data_in 0x310 hs = d @ take (k + 2 * n) (card_stream frame) \<and> data_out q hs = data_out q (hist m)"
  using assms
proof (induction n arbitrary: k m)
  case 0
  then show ?case by (intro exI [of _ "hist m"]) simp
next
  case (Suc n)
  let ?s = "card_stream frame"
  obtain w where w: "io_inw (ne2000_card (length d) frame h) 0x310 m = (w, m\<lparr>hist := PortIn W16 0x310 (ucast w) # hist m\<rparr>)"
    "le16 w = [?s ! k, ?s ! (k + 1)]" using card_read(1) [OF Suc.prems(1)] Suc.prems(2) by auto
  have two: "take (2 + j) (drop k ?s) = [?s ! k, ?s ! (k + 1)] @ take j (drop (k + 2) ?s)" for j
    using Suc.prems(2) by (simp add: take_Suc_conv_app_nth nth_eq_drop_hd [of k ?s] nth_eq_drop_hd [of "Suc k" ?s] numeral_2_eq_2)
  have "data_in 0x310 (PortIn W16 0x310 (ucast w) # hist m) = d @ take (k + 2) ?s"
    using Suc.prems w(2) two [of 0] take_add [of k 2 ?s] by (simp add: ucast_up_ucast_id is_up)
  then obtain hs where "io_inw_seq (ne2000_card (length d) frame h) 0x310 n (m\<lparr>hist := PortIn W16 0x310 (ucast w) # hist m\<rparr>) =
      (take (2 * n) (drop (k + 2) ?s), m\<lparr>hist := hs\<rparr>)" "data_in 0x310 hs = d @ take (k + 2 + 2 * n) ?s"
    "data_out q hs = data_out q (hist m)"
    using Suc.IH [of "m\<lparr>hist := PortIn W16 0x310 (ucast w) # hist m\<rparr>" "k + 2"] Suc.prems(2) by auto
  then show ?case using w two [of "2 * n"] by (intro exI [of _ hs]) simp
qed


lemma data_out_regs:
  fixes m :: "'a ne2000_scheme"
  assumes "ne2000_probe_base m = 0x300" and "\<forall>r \<in> fst ` set ws. r < 0x10"
  shows "data_out 0x310 (hist (ne2000_regs ws m)) = data_out 0x310 (hist m)"
  using assms
proof (induction ws arbitrary: m)
  case (Cons w ws)
  have "(ucast (0x300 + fst w :: u32) :: u16) \<noteq> 0x310"
  proof
    assume "(ucast (0x300 + fst w :: u32) :: u16) = 0x310"
    then have "(ucast (fst w) :: u16) = 0x10" by (simp add: ucast_add_16 eq_diff_eq [symmetric])
    moreover have "unat (fst w) < 16" using Cons.prems(2) by (auto simp: word_less_nat_alt)
    moreover have "unat (ucast (fst w) :: u16) = unat (fst w) mod 65536" by (simp add: unsigned_ucast_eq take_bit_eq_mod)
    ultimately show False by simp
  qed
  then have "data_out 0x310 (hist (io_outb (0x300 + fst w) (snd w) m)) = data_out 0x310 (hist m)" by (simp add: io_outb_def)
  then show ?case using Cons.IH [of "io_outb (0x300 + fst w) (snd w) m"] Cons.prems
    by (simp add: ne2000_regs_def split_beta ports_ne2000(4) [OF io_ports(1)])
qed (simp add: ne2000_regs_def)

lemma card_copy_in:
  fixes m :: "'a ne2000_scheme" and h :: "'h hw_scheme"
  assumes "ne2000_probe_base m = 0x300" and "14 \<le> length frame" "length frame \<le> 1518"
    and "data_in 0x310 (hist m) = d @ take 4 (card_stream frame)"
  shows "\<exists>hs. ne2000_copy_in (ne2000_card (length d) frame h) c (of_nat (length frame)) m =
    m\<lparr>mem := mem_write (mem m) (ne2000_last_packet m) frame, hist := hs, ne2000_last_packet_size := of_nat (length frame)\<rparr> \<and>
    data_out 0x310 hs = data_out 0x310 (hist m)"
proof -
  let ?n = "of_nat (length frame) :: u32" and ?k = "length frame div 2" and ?s = "card_stream frame" and ?lp = "ne2000_last_packet m"
  let ?c = "ne2000_card (length d) frame h"
  have n: "unat ?n = length frame" using assms(3) by simp
  have s: "drop 4 ?s = frame" "length ?s = 4 + length frame" by (simp_all add: card_stream_def Let_def)
  let ?m1 = "ne2000_regs [(0xA, ucast ?n), (0xB, ucast (drop_bit 8 ?n)), (0x8, 4), (0x9, c)] m"
  define h1 where "h1 = hist ?m1"
  have h1: "?m1 = m\<lparr>hist := h1\<rparr>" using ne2000_regs_ports [of m] unfolding ports_only_def h1_def by metis
  have o1: "data_out 0x310 h1 = data_out 0x310 (hist m)" unfolding h1_def by (rule data_out_regs) (simp_all add: assms(1))
  have "data_in 0x310 h1 = d @ take 4 ?s" using assms(4) by (simp add: h1_def)
  then obtain h2 where h2: "io_inw_seq ?c 0x310 ?k (m\<lparr>hist := h1\<rparr>) = (take (2 * ?k) frame, m\<lparr>hist := h2\<rparr>)"
    "data_in 0x310 h2 = d @ take (4 + 2 * ?k) ?s" "data_out 0x310 h2 = data_out 0x310 (hist m)"
    using card_words [of "m\<lparr>hist := h1\<rparr>" d 4 frame ?k h "0x310"] s o1 by auto
  have odd: "?n AND 1 \<noteq> 0 \<longleftrightarrow> odd (length frame)" using odd_and_one [of ?n] n by simp
  show ?thesis
  proof (cases "odd (length frame)")
    case False
    then have "take (2 * ?k) frame = frame" by simp
    then show ?thesis using h1 h2 assms(1) n odd False by (intro exI [of _ h2]) (simp add: ne2000_copy_in_def Let_def)
  next
    case True
    then have k: "length frame = 2 * ?k + 1" by simp
    let ?m = "m\<lparr>hist := h2, mem := mem_write (mem m) ?lp (take (2 * ?k) frame)\<rparr>"
    let ?h3 = "PortIn W8 0x310 (ucast (frame ! (2 * ?k))) # h2"
    have "?s ! (4 + 2 * ?k) = frame ! (2 * ?k)" using nth_drop [of 4 ?s "2 * ?k"] s k by simp
    then have b: "io_inb ?c 0x310 ?m = (frame ! (2 * ?k), ?m\<lparr>hist := ?h3\<rparr>)"
      using card_read(2) [where m = ?m and d = d and k = "4 + 2 * ?k" and frame = frame and h = h] h2(2) s(2) k by simp
    have "?n - 1 = of_nat (length frame - 1)" using assms(2) by (simp add: of_nat_diff)
    moreover have "length frame - 1 = 2 * ?k" using k by linarith
    ultimately have n1: "?n - 1 = of_nat (2 * ?k)" by simp
    have "take (2 * ?k) frame @ [frame ! (2 * ?k)] = frame" using take_Suc_conv_app_nth [of "2 * ?k" frame] k by simp
    then have "mem_write (mem_write (mem m) ?lp (take (2 * ?k) frame)) (?lp + of_nat (2 * ?k)) [frame ! (2 * ?k)] = mem_write (mem m) ?lp frame"
      using mem_write_snoc [of "take (2 * ?k) frame" "2 * ?k" "mem m" ?lp] k assms(3) by simp
    then show ?thesis using h1 h2 assms(1) n odd True b n1 by (intro exI [of _ ?h3]) (simp add: ne2000_copy_in_def Let_def)
  qed
qed

lemma card_get:
  fixes m :: "'a ne2000_scheme" and h :: "'h hw_scheme"
  assumes base: "ne2000_probe_base m = 0x300" and len: "14 \<le> length frame" "length frame \<le> 1518"
  defines "mm \<equiv> mem_write (mem m) (ne2000_last_packet m) frame" and "d \<equiv> data_in 0x310 (hist m)"
  shows "\<exists>hs. ne2000_get_packet (ne2000_card (length d) frame h) m =
    (Some (int (length frame) - 14, eth_load mm (ne2000_last_packet m), ne2000_last_packet m + 14),
     m\<lparr>mem := mm, ne2000_last_packet_size := of_nat (length frame), hist := hs\<rparr>) \<and>
    data_out 0x310 hs = data_out 0x310 (hist m)"
proof -
  let ?c = "ne2000_card (length d) frame h" and ?s = "card_stream frame" and ?n = "of_nat (length frame) :: u32"
  let ?h2 = "PortIn W8 0x307 1 # PortOut W8 0x300 0x22 # hist m"
  let ?h4 = "PortIn W8 0x303 0x45 # PortOut W8 0x300 0x22 # PortIn W8 0x307 0x47 # PortOut W8 0x300 0x62 # ?h2"
  let ?h5 = "PortOut W8 0x309 0x46 # PortOut W8 0x308 0 # PortOut W8 0x30B 0 # PortOut W8 0x30A 4 # ?h4"
  let ?m0 = "m\<lparr>ne2000_last_packet_size := 0\<rparr>"
  have s: "length ?s = 4 + length frame" "take 4 ?s = [1, 0x47, ucast (of_nat (length frame + 4) :: u16), ucast (drop_bit 8 (of_nat (length frame + 4) :: u16))]"
    by (simp_all add: card_stream_def Let_def)
  have "data_in 0x310 ?h5 = d @ take 0 ?s" by (simp add: d_def)
  then obtain h6 where h6: "io_inw_seq ?c 0x310 2 (?m0\<lparr>hist := ?h5\<rparr>) = (take 4 ?s, ?m0\<lparr>hist := h6\<rparr>)" "data_in 0x310 h6 = d @ take 4 ?s"
    "data_out 0x310 h6 = data_out 0x310 (hist m)"
    using card_words [of "?m0\<lparr>hist := ?h5\<rparr>" d 0 frame 2 h "0x310"] s(1) by auto
  obtain h7 where h7: "ne2000_copy_in ?c 0x46 ?n (?m0\<lparr>hist := h6\<rparr>) = ?m0\<lparr>mem := mm, hist := h7, ne2000_last_packet_size := ?n\<rparr>"
    and o7: "data_out 0x310 h7 = data_out 0x310 (hist m)"
    using card_copy_in [of "?m0\<lparr>hist := h6\<rparr>" frame d h "0x46"] base len h6(2,3) by (auto simp: mm_def)
  have u: "unat (of_nat (length frame + 4) :: u16) = length frame + 4" using len(2) by (simp del: of_nat_add)
  have "unat (ucast (take 4 ?s ! 2) OR push_bit 8 (ucast (take 4 ?s ! 3)) :: u32) = length frame + 4"
    unfolding le_count s(2) using be_bytes_16 [of "of_nat (length frame + 4) :: u16"] u by (simp del: of_nat_add)
  moreover have "unat (of_nat (length frame + 4) :: u32) = length frame + 4" using len(2) by (simp del: of_nat_add)
  ultimately have bc: "ucast (take 4 ?s ! 2) OR push_bit 8 (ucast (take 4 ?s ! 3)) = (of_nat (length frame + 4) :: u32)"
    by (simp only: word_unat_eq_iff)
  have cnt: "14 + 4 \<le> (of_nat (length frame + 4) :: u32)" "(of_nat (length frame + 4) :: u32) \<le> 1518 + 4"
    "(of_nat (length frame + 4) :: u32) - 4 = ?n"
    using len by (simp_all add: word_le_nat_alt del: of_nat_add) simp
  have rcv: "ne2000_receive ?c (?m0\<lparr>hist := ?h2\<rparr>) =
      (True, ?m0\<lparr>mem := mm, hist := PortOut W8 0x307 1 # PortOut W8 0x303 0x46 # h7, ne2000_last_packet_size := ?n\<rparr>)"
  proof -
    have r1: "io_inb ?c 0x307 (?m0\<lparr>hist := PortOut W8 0x300 0x62 # ?h2\<rparr>) =
        (0x47, ?m0\<lparr>hist := PortIn W8 0x307 0x47 # PortOut W8 0x300 0x62 # ?h2\<rparr>)"
      by (simp add: io_inb_def ne2000_card_def Let_def)
    have r2: "io_inb ?c 0x303 (?m0\<lparr>hist := PortOut W8 0x300 0x22 # PortIn W8 0x307 0x47 # PortOut W8 0x300 0x62 # ?h2\<rparr>) =
        (0x45, ?m0\<lparr>hist := ?h4\<rparr>)"
      by (simp add: io_inb_def ne2000_card_def Let_def)
    have t: "take 4 ?s ! 0 = 1" "take 4 ?s ! 1 = 0x47" by (simp_all add: s(2))
    show ?thesis
      using r1 r2 h6(1) h7 bc cnt t base
      by (simp add: ne2000_receive_def ne2000_regs_def io_outb_def Let_def del: of_nat_add take_eq_Nil)
  qed
  let ?h8 = "PortOut W8 0x300 0x22 # PortOut W8 0x307 1 # PortOut W8 0x303 0x46 # h7"
  let ?m8 = "?m0\<lparr>mem := mm, ne2000_last_packet_size := ?n, hist := ?h8\<rparr>"
  have r1: "io_inb ?c 0x307 (?m0\<lparr>hist := PortOut W8 0x300 0x22 # hist m\<rparr>) = (1, ?m0\<lparr>hist := ?h2\<rparr>)"
    by (simp add: io_inb_def ne2000_card_def Let_def)
  have r2: "io_inb ?c 0x307 ?m8 = (1, ?m8\<lparr>hist := PortIn W8 0x307 1 # ?h8\<rparr>)"
    by (simp add: io_inb_def ne2000_card_def Let_def)
  have n: "14 \<le> ?n" "unat ?n \<le> 1518" "unat ?n = length frame" using len by (simp_all add: word_le_nat_alt)
  have sz: "sint (?n - 14) = int (length frame) - 14" using frame_size_sint [OF n(1,2)] n(3) by simp
  show ?thesis
    using r1 r2 rcv n(1) sz base o7
    by (intro exI [of _ "PortOut W8 0x307 0 # PortIn W8 0x307 1 # ?h8"])
      (simp add: ne2000_get_packet_def ne2000_regs_def io_outb_def Let_def)
qed

text \<open>A card with a frame of sixteen bytes.\<close>

abbreviation (input) frame_example :: "u8 list" where
  "frame_example \<equiv> [0, 1, 2, 3, 4, 5, 9, 9, 9, 9, 9, 9, 8, 0, 0xAA, 0xBB]"

theorem ne2000_get_packet_frame_witness:
  "\<exists>bs frame m'. snd (ne2000_get_packet (ne2000_card 0 frame_example quiet_hw) ne2000_example) = m' \<and>
    rx_announces bs 16 \<and> length frame = 16 \<and> data_in 0x310 (hist m') = bs @ frame \<and> load_bytes (mem m') 0x17000E 2 = drop 14 frame"
proof -
  have e: "ne2000_probe_base ne2000_example = 0x300" "ne2000_last_packet ne2000_example = 0x170000" "hist ne2000_example = []"
    by (simp_all add: ne2000_example_def ne2000.defs rtl8101.defs rtl8101_example_def pcnet32_example_defs)
  have l: "14 \<le> length frame_example" "length frame_example \<le> 1518" by simp_all
  obtain hdr m' where g: "ne2000_get_packet (ne2000_card 0 frame_example quiet_hw) ne2000_example = (Some (2, hdr, 0x17000E), m')"
    using card_get [OF e(1) l, of quiet_hw] e(2,3) by auto
  from ne2000_get_packet_frame [OF this] show ?thesis using e g by auto
qed

section \<open>Answering\<close>

lemma card_tx_wait:
  fixes m :: "'a ne2000_scheme"
  assumes "ne2000_probe_base m = 0x300"
  shows "ne2000_tx_wait (ne2000_card n0 frame h) m = Some (m\<lparr>hist := PortIn W8 0x300 0 # PortOut W8 0x300 0x22 # hist m\<rparr>)"
  using assms by (simp add: ne2000_tx_wait_def io_outb_def io_inb_def ne2000_card_def Let_def while_option_unfold)

lemma card_ready:
  fixes m :: "'a dbg_scheme" and h :: "'h rtl8101_hw_scheme"
  assumes "chosen_net_drv m = Some Ne2000" "ne2000_probe_base m = 0x300" "ne2000_xmit_packet m = 0x170800" "n \<le> 1491"
    "length (my_eth_mac m) = 6" "length (my_ipv4_address m) = 4" "length (src_mac eth) = 6"
    "apart src_ip 4 0x17080E (28 + n)"
  obtains m1 hs where "answer_ready (ne2000_card n0 frame h) Ne2000 eth src_ip n 0x17080E m m1"
    and "mem m1 = eth_store (mem m) 0x170800 (reply_eth 0x800 eth m)"
    and "tx_state m1 = (hs, 0x300, ne2000_last_packet m, 0x170800, of_nat (42 + n))" "data_out 0x310 hs = data_out 0x310 (hist m)"
proof -
  let ?hs = "PortIn W8 0x300 0 # PortOut W8 0x300 0x22 # hist m"
  let ?m1 = "m\<lparr>hist := ?hs, mem := eth_store (mem m) (ne2000_xmit_packet m) (reply_eth 0x800 eth m),
    ne2000_xmit_packet_size := of_nat (42 + n)\<rparr>"
  have "\<not> 1520 \<le> 28 + int n" using assms(4) by simp
  then have "drv_prepare_send_packet (ne2000_card n0 frame h) Ne2000 (28 + int n) (reply_eth 0x800 eth m) m =
      Some (Some (ne2000_xmit_packet m + 14), ?m1)"
    using card_tx_wait [OF assms(2), of n0 frame h] by (simp add: drv_prepare_send_packet_def ne2000_prepare_send_packet_def Let_def)
  then have "answer_ready (ne2000_card n0 frame h) Ne2000 eth src_ip n 0x17080E m ?m1"
    using assms unfolding answer_ready_def by simp
  then show ?thesis using that [of ?m1 ?hs] assms(2,3) by (simp add: tx_state_def)
qed

lemma card_send:
  fixes m :: "'a dbg_scheme" and h :: "'h rtl8101_hw_scheme"
  assumes "ne2000_probe_base m = 0x300" and "ne2000_xmit_packet_size m \<noteq> 0"
  obtains m3 where "drv_send_packet (ne2000_card n0 frame h) Ne2000 m = Some m3"
    and "data_out 0x310 (hist m3) =
      data_out 0x310 (hist m) @ load_bytes (mem m) (ne2000_xmit_packet m) (unat (ne2000_xmit_packet_size m))"
    and "mem m3 = mem m" "ne2000_probe_base m3 = 0x300" "ne2000_last_packet m3 = ne2000_last_packet m"
proof -
  let ?s = "ne2000_xmit_packet_size m"
  define m1 where "m1 = ne2000_regs [(0x4, TX_PAGE), (0x5, ucast ?s), (0x6, ucast (drop_bit 8 ?s)), (0x8, 0),
         (0x0, 0x02 OR 0x08), (0xA, ucast ?s), (0xB, ucast (drop_bit 8 ?s)), (0x8, 0), (0x9, TX_PAGE), (0x0, 0x02 OR 0x10)] m"
  define m2 where "m2 = ne2000_copy_out m1"
  define m3 where "m3 = ne2000_regs [(0x0, 0x22 OR 0x04)] m2"
  have "ports_only m m1" "ports_only m1 m2" "ports_only m2 m3"
    by (simp_all only: m1_def m2_def m3_def ne2000_regs_ports ne2000_copy_out_ports)
  note f1 = this(1) [THEN ports_ne2000(1)] this(1) [THEN ports_ne2000(2)] this(1) [THEN ports_ne2000(4)]
      this(1) [THEN ports_ne2000(5)] this(1) [THEN ports_ne2000(6)]
    and f2 = this(2) [THEN ports_ne2000(1)] this(2) [THEN ports_ne2000(2)] this(2) [THEN ports_ne2000(4)]
    and f3 = this(3) [THEN ports_ne2000(1)] this(3) [THEN ports_ne2000(2)] this(3) [THEN ports_ne2000(4)]
  let ?m4 = "m3\<lparr>hist := PortIn W8 0x300 0 # PortOut W8 0x300 0x22 # hist m3, ne2000_xmit_packet_size := 0\<rparr>"
  have "ne2000_tx_wait (ne2000_card n0 frame h) m3 = Some (m3\<lparr>hist := PortIn W8 0x300 0 # PortOut W8 0x300 0x22 # hist m3\<rparr>)"
    by (rule card_tx_wait) (simp add: f1 f2 f3 assms)
  then have "drv_send_packet (ne2000_card n0 frame h) Ne2000 m = Some ?m4"
    using assms(2) by (simp add: drv_send_packet_def ne2000_send_packet_def Let_def m1_def m2_def m3_def)
  moreover have "data_out 0x310 (hist m1) = data_out 0x310 (hist m)" unfolding m1_def
    by (rule data_out_regs) (simp_all add: assms)
  moreover have "data_out 0x310 (hist m2) = data_out 0x310 (hist m1) @ load_bytes (mem m1) (ne2000_xmit_packet m1) (unat (ne2000_xmit_packet_size m1))"
    using ne2000_copy_out_bytes [of m1] f1(3) assms(1) by (simp add: m2_def)
  moreover have "data_out 0x310 (hist m3) = data_out 0x310 (hist m2)" unfolding m3_def
    by (rule data_out_regs) (simp_all add: assms f1 f2)
  ultimately show ?thesis using that [of ?m4] by (simp add: f1 f2 f3 assms)
qed

end
