(* ===== verification/E_lib.thy ===== *)
theory E_lib
  imports Debugger
begin

text \<open>
  The client library of the Ethernet debugger, \<^verbatim>\<open>src/comm/e_lib.c\<close>, which runs on the developer's own machine
  and talks to the debugger over UDP. The socket calls and the clock are parameters; the arrays that the
  functions keep on their stack are lists of bytes, and an access outside one is \<open>None\<close>.
\<close>

type_synonym u64 = "64 word"

section \<open>The C library\<close>

text \<open>Storing bytes into an array, and the string that starts at an array's first byte.\<close>

definition put_bytes :: "u8 list \<Rightarrow> nat \<Rightarrow> u8 list \<Rightarrow> u8 list option" where
  "put_bytes buf i bs = (if i + length bs \<le> length buf then Some (take i buf @ bs @ drop (i + length bs) buf) else None)"

definition cstr :: "u8 list \<Rightarrow> u8 list" where
  "cstr buf = takeWhile (\<lambda>c. c \<noteq> 0) buf"

definition strncpy_bytes :: "u8 list \<Rightarrow> nat \<Rightarrow> u8 list" where
  "strncpy_bytes src n = take n (cstr src @ replicate n 0)"

text \<open>The conversions \<^verbatim>\<open>%llX\<close> and \<^verbatim>\<open>%X\<close> of \<^verbatim>\<open>sprintf\<close>.\<close>

function print_hex :: "nat \<Rightarrow> u8 list" where
  "print_hex n = (if n < 16 then [hexdigit n] else print_hex (n div 16) @ [hexdigit (n mod 16)])"
  by pat_completeness auto
termination by (relation "measure id") simp_all

declare print_hex.simps [simp del]

text \<open>
  \<^verbatim>\<open>strtoull\<close> to base 16: white space, a sign, the prefix \<^verbatim>\<open>0x\<close> if a digit follows it, then digits as long as there
  are any. Without a digit the result is zero and the rest the whole text; too large a number is the largest. \<^verbatim>\<open>strtoul\<close>
  is the same function, for an \<^verbatim>\<open>unsigned long\<close> of 64 bits.
\<close>

definition isspace :: "u8 \<Rightarrow> bool" where
  "isspace c \<longleftrightarrow> c = 0x20 \<or> (9 \<le> c \<and> c \<le> 13)"

definition xdigit :: "u8 \<Rightarrow> nat option" where
  "xdigit c = (if 0x30 \<le> c \<and> c \<le> 0x39 then Some (unat c - 0x30)
     else if 0x41 \<le> c \<and> c \<le> 0x46 then Some (unat c - 0x37)
     else if 0x61 \<le> c \<and> c \<le> 0x66 then Some (unat c - 0x57) else None)"

definition xdigits_value :: "u8 list \<Rightarrow> nat" where
  "xdigits_value ds = foldl (\<lambda>v c. v * 16 + (case xdigit c of None \<Rightarrow> 0 | Some d \<Rightarrow> d)) 0 ds"

definition strtoull_hex :: "u8 list \<Rightarrow> u64 \<times> u8 list" where
  "strtoull_hex s =
    (let t = dropWhile isspace s;
         neg = (take 1 t = [0x2D]);
         t = (if take 1 t = [0x2D] \<or> take 1 t = [0x2B] then drop 1 t else t);
         t = (if (take 2 t = [0x30, 0x78] \<or> take 2 t = [0x30, 0x58]) \<and> 2 < length t \<and> xdigit (t ! 2) \<noteq> None
              then drop 2 t else t);
         ds = takeWhile (\<lambda>c. xdigit c \<noteq> None) t;
         v = xdigits_value ds
     in if ds = [] then (0, s)
        else (if v \<ge> 2 ^ 64 then -1 else if neg then - of_nat v else of_nat v, drop (length ds) t))"

section \<open>The connection\<close>

text \<open>
  The system calls. The world they act on is a parameter; \<open>s_stack n w\<close> is what a fresh array of \<open>n\<close> bytes holds before
  it is written. \<^verbatim>\<open>recvfrom\<close> gives its result, the bytes it stored and the sender's address.
\<close>

record ('p, 'w) sock_env =
  s_stack :: "nat \<Rightarrow> 'w \<Rightarrow> u8 list"
  s_malloc :: "'w \<Rightarrow> bool \<times> 'w"
  s_socket :: "'w \<Rightarrow> int \<times> 'w"
  s_close :: "int \<Rightarrow> 'w \<Rightarrow> 'w"
  s_inet_addr :: "string \<Rightarrow> 'p"
  s_sendto :: "int \<Rightarrow> u8 list \<Rightarrow> 'p \<Rightarrow> 'w \<Rightarrow> int \<times> 'w"
  s_select :: "int \<Rightarrow> u32 \<Rightarrow> u32 \<Rightarrow> 'w \<Rightarrow> int \<times> 'w"
  s_recvfrom :: "int \<Rightarrow> nat \<Rightarrow> 'p \<Rightarrow> 'w \<Rightarrow> int \<times> u8 list \<times> 'p \<times> 'w"
  s_time :: "'w \<Rightarrow> int \<times> 'w"

text \<open>
  \<^verbatim>\<open>struct remote_eth_connection\<close>, with the static counter of \<^verbatim>\<open>remote_eth_write_block\<close> and the world. The field
  \<^verbatim>\<open>ip_sz\<close> is set again before every use and is left out.
\<close>

record ('p, 'w) remote_eth_connection =
  sock_fd :: int
  ip_addr :: 'p
  machtype :: "u8 list"
  write_seq :: u32
  outside :: 'w

definition remote_eth_socket :: "('p, 'w) sock_env \<Rightarrow> string \<Rightarrow> u32 \<Rightarrow> 'w \<Rightarrow> ('p, 'w) remote_eth_connection option \<times> 'w" where
  "remote_eth_socket env addr seq w =
    (let (ok, w) = s_malloc env w
     in if \<not> ok then (None, w)
        else let (fd, w) = s_socket env w
             in if fd < 0 then (None, w)
                else (Some \<lparr>sock_fd = fd, ip_addr = s_inet_addr env addr, machtype = 0 # drop 1 (s_stack env 32 w),
                        write_seq = seq, outside = w\<rparr>, w))"

definition remote_eth_close :: "('p, 'w) sock_env \<Rightarrow> ('p, 'w) remote_eth_connection \<Rightarrow> 'w" where
  "remote_eth_close env c = s_close env (sock_fd c) (outside c)"

definition remote_eth_wait_for_data ::
  "('p, 'w) sock_env \<Rightarrow> u32 \<Rightarrow> ('p, 'w) remote_eth_connection \<Rightarrow> bool \<times> ('p, 'w) remote_eth_connection" where
  "remote_eth_wait_for_data env to c =
    (let (r, w) = s_select env (sock_fd c) (to div 1000000) (to mod 1000000) (outside c)
     in (r = 1, c\<lparr>outside := w\<rparr>))"

text \<open>
  Sending a command: \<^verbatim>\<open>sendto(...) < cmd_len\<close> compares the signed result with a \<^verbatim>\<open>size_t\<close>, so as unsigned numbers.
\<close>

definition eth_sendto ::
  "('p, 'w) sock_env \<Rightarrow> u8 list \<Rightarrow> ('p, 'w) remote_eth_connection \<Rightarrow> bool \<times> ('p, 'w) remote_eth_connection" where
  "eth_sendto env cmd c =
    (let (r, w) = s_sendto env (sock_fd c) cmd (ip_addr c) (outside c)
     in (\<not> (of_int r :: u64) < of_nat (length cmd), c\<lparr>outside := w\<rparr>))"

text \<open>Waiting for an answer and receiving it: \<open>None\<close> if there was none in time.\<close>

definition eth_receive ::
  "('p, 'w) sock_env \<Rightarrow> nat \<Rightarrow> ('p, 'w) remote_eth_connection \<Rightarrow> (int \<times> u8 list) option \<times> ('p, 'w) remote_eth_connection" where
  "eth_receive env cap c =
    (let (ready, c) = remote_eth_wait_for_data env 1250000 c
     in if \<not> ready then (None, c)
        else let (rd, bs, p, w) = s_recvfrom env (sock_fd c) cap (ip_addr c) (outside c)
             in (Some (rd, bs), c\<lparr>ip_addr := p, outside := w\<rparr>))"

text \<open>The bytes received, and the terminator behind them.\<close>

definition eth_terminate :: "u8 list \<Rightarrow> int \<Rightarrow> u8 list \<Rightarrow> u8 list option" where
  "eth_terminate buf rd bs = do { buf \<leftarrow> put_bytes buf 0 bs; put_bytes buf (nat rd) [0] }"

section \<open>The commands\<close>

text \<open>Each command makes at most three attempts: the body of its loop, with the attempts left.\<close>

fun eth_test_rounds ::
  "('p, 'w) sock_env \<Rightarrow> u8 list \<Rightarrow> nat \<Rightarrow> ('p, 'w) remote_eth_connection \<Rightarrow> (bool \<times> ('p, 'w) remote_eth_connection) option" where
  "eth_test_rounds env recv_buf 0 c = Some (False, c)"
| "eth_test_rounds env recv_buf (Suc retry) c =
    (let (sent, c) = eth_sendto env (bytes_of ''TEST'') c
     in if \<not> sent then Some (False, c)
        else let (r, c) = eth_receive env (64 - 1) c
             in case r of
                  None \<Rightarrow> eth_test_rounds env recv_buf retry c
                | Some (rd, bs) \<Rightarrow>
                    if rd \<le> 0 then Some (False, c)
                    else do {
                      recv_buf \<leftarrow> eth_terminate recv_buf rd bs;
                      if take 3 recv_buf = bytes_of ''OK '' then Some (True, c)
                      else do {
                        mt \<leftarrow> put_bytes (machtype c) 0 (strncpy_bytes (drop 3 recv_buf) 31);
                        eth_test_rounds env recv_buf retry (c\<lparr>machtype := mt\<rparr>) } })"

definition remote_eth_test ::
  "('p, 'w) sock_env \<Rightarrow> ('p, 'w) remote_eth_connection \<Rightarrow> (bool \<times> ('p, 'w) remote_eth_connection) option" where
  "remote_eth_test env c = eth_test_rounds env (s_stack env 64 (outside c)) 3 c"

definition write_text :: "u64 \<Rightarrow> u32 \<Rightarrow> u8 list" where
  "write_text addr seq = bytes_of ''WRITE '' @ print_hex (unat addr) @ [0x20] @ print_hex (unat seq) @ [0x0A]"

text \<open>What is done with the answer to a write (lines 105 to 115).\<close>

definition write_confirmed :: "u64 \<Rightarrow> u32 \<Rightarrow> u8 list \<Rightarrow> bool" where
  "write_confirmed addr seq recv_buf =
    (if take 3 recv_buf \<noteq> bytes_of ''OK '' then False
     else let (a, p) = strtoull_hex (cstr (drop 3 recv_buf))
          in if a \<noteq> addr then False
             else fst (strtoull_hex (dropWhile (\<lambda>c. c = 0x20) p)) = ucast seq)"

fun eth_write_rounds ::
  "('p, 'w) sock_env \<Rightarrow> u64 \<Rightarrow> u32 \<Rightarrow> u8 list \<Rightarrow> u8 list \<Rightarrow> nat \<Rightarrow> ('p, 'w) remote_eth_connection \<Rightarrow>
    (bool \<times> ('p, 'w) remote_eth_connection) option" where
  "eth_write_rounds env addr seq data recv_buf 0 c = Some (False, c)"
| "eth_write_rounds env addr seq data recv_buf (Suc retry) c = do {
     let text = write_text addr seq;
     recv_buf \<leftarrow> put_bytes recv_buf 0 (text @ [0]);
     recv_buf \<leftarrow> put_bytes recv_buf (length text) data;
     let (sent, c) = eth_sendto env (take (length text + length data) recv_buf) c;
     if \<not> sent then Some (False, c)
     else let (r, c) = eth_receive env (2200 - 1) c
          in case r of
               None \<Rightarrow> eth_write_rounds env addr seq data recv_buf retry c
             | Some (rd, bs) \<Rightarrow>
                 if rd \<le> 0 then Some (False, c)
                 else do { recv_buf \<leftarrow> eth_terminate recv_buf rd bs; Some (write_confirmed addr seq recv_buf, c) } }"

text \<open>The caller's buffer is given by the bytes at \<^verbatim>\<open>buf\<close>; it has to hold at least \<^verbatim>\<open>len\<close> of them.\<close>

definition remote_eth_write_block ::
  "('p, 'w) sock_env \<Rightarrow> u64 \<Rightarrow> u8 list \<Rightarrow> int \<Rightarrow> ('p, 'w) remote_eth_connection \<Rightarrow>
    (bool \<times> ('p, 'w) remote_eth_connection) option" where
  "remote_eth_write_block env addr buf len c =
    (if len < 0 \<or> len > 1400 then Some (False, c)
     else if length buf < nat len then None
     else let recv_buf = s_stack env 2200 (outside c);
              c = (if write_seq c = 0
                   then let (t, w) = s_time env (outside c) in c\<lparr>write_seq := of_int t, outside := w\<rparr>
                   else c\<lparr>write_seq := write_seq c + 1\<rparr>)
          in eth_write_rounds env addr (write_seq c) (take (nat len) buf) recv_buf 3 c)"

definition read_text :: "u64 \<Rightarrow> int \<Rightarrow> u8 list" where
  "read_text addr len = bytes_of ''READ '' @ print_hex (unat addr) @ [0x20] @ print_hex (nat len)"

text \<open>
  What is done with the answer to a read (lines 150 to 165): \<open>None\<close> if the loop goes on, otherwise the data or a failure.
\<close>

definition read_data :: "u64 \<Rightarrow> int \<Rightarrow> int \<Rightarrow> u8 list \<Rightarrow> u8 list option option" where
  "read_data addr len rd recv_buf =
    (let i = length (takeWhile (\<lambda>c. c \<noteq> 0x0A) (cstr recv_buf))
     in if i = length (cstr recv_buf) then None
        else let recv_buf = recv_buf[i := 0]; data = i + 1
             in if int data + len > rd then Some None
                else if take 3 recv_buf \<noteq> bytes_of ''OK '' then Some None
                else if fst (strtoull_hex (cstr (drop 3 recv_buf))) \<noteq> addr then Some None
                else Some (Some (take (nat len) (drop data recv_buf))))"

fun eth_read_rounds ::
  "('p, 'w) sock_env \<Rightarrow> u64 \<Rightarrow> int \<Rightarrow> u8 list \<Rightarrow> nat \<Rightarrow> ('p, 'w) remote_eth_connection \<Rightarrow>
    (u8 list option \<times> ('p, 'w) remote_eth_connection) option" where
  "eth_read_rounds env addr len recv_buf 0 c = Some (None, c)"
| "eth_read_rounds env addr len recv_buf (Suc retry) c = do {
     recv_buf \<leftarrow> put_bytes recv_buf 0 (read_text addr len @ [0]);
     let (sent, c) = eth_sendto env (cstr recv_buf) c;
     if \<not> sent then Some (None, c)
     else let (r, c) = eth_receive env (2000 - 1) c
          in case r of
               None \<Rightarrow> eth_read_rounds env addr len recv_buf retry c
             | Some (rd, bs) \<Rightarrow>
                 if rd \<le> 0 then Some (None, c)
                 else do {
                   recv_buf \<leftarrow> eth_terminate recv_buf rd bs;
                   case read_data addr len rd recv_buf of
                     None \<Rightarrow> eth_read_rounds env addr len recv_buf retry c
                   | Some d \<Rightarrow> Some (d, c) } }"

definition remote_eth_read_block ::
  "('p, 'w) sock_env \<Rightarrow> u64 \<Rightarrow> int \<Rightarrow> ('p, 'w) remote_eth_connection \<Rightarrow>
    (u8 list option \<times> ('p, 'w) remote_eth_connection) option" where
  "remote_eth_read_block env addr len c =
    (if len < 0 \<or> len > 1400 then Some (None, c)
     else eth_read_rounds env addr len (s_stack env 2000 (outside c)) 3 c)"

text \<open>Reading and writing in blocks. A read gives the bytes it has stored, complete or not.\<close>

function remote_eth_read ::
  "('p, 'w) sock_env \<Rightarrow> u64 \<Rightarrow> int \<Rightarrow> ('p, 'w) remote_eth_connection \<Rightarrow>
    (bool \<times> u8 list \<times> ('p, 'w) remote_eth_connection) option" where
  "remote_eth_read env addr len c =
    (if len \<ge> 1400 then
       Option.bind (remote_eth_read_block env addr 1400 c) (\<lambda>(r, c).
         case r of None \<Rightarrow> Some (False, [], c)
         | Some d \<Rightarrow> map_option (\<lambda>(ok, ds, c). (ok, d @ ds, c)) (remote_eth_read env (addr + 1400) (len - 1400) c))
     else if len > 0 then
       map_option (\<lambda>(r, c). case r of None \<Rightarrow> (False, [], c) | Some d \<Rightarrow> (True, d, c)) (remote_eth_read_block env addr len c)
     else Some (True, [], c))"
  by pat_completeness auto
termination by (relation "measure (\<lambda>(env, addr, len, c). nat len)") auto

function remote_eth_write ::
  "('p, 'w) sock_env \<Rightarrow> u64 \<Rightarrow> u8 list \<Rightarrow> int \<Rightarrow> ('p, 'w) remote_eth_connection \<Rightarrow>
    (bool \<times> ('p, 'w) remote_eth_connection) option" where
  "remote_eth_write env addr buf len c =
    (if len \<ge> 1400 then
       Option.bind (remote_eth_write_block env addr buf 1400 c) (\<lambda>(ok, c).
         if \<not> ok then Some (False, c) else remote_eth_write env (addr + 1400) (drop 1400 buf) (len - 1400) c)
     else if len > 0 then remote_eth_write_block env addr buf len c
     else Some (True, c))"
  by pat_completeness auto
termination by (relation "measure (\<lambda>(env, addr, buf, len, c). nat len)") auto

declare remote_eth_read.simps [simp del] remote_eth_write.simps [simp del]

text \<open>
  The sequence number of an execution is a local variable, set from the clock at every call; the argument
  \<^verbatim>\<open>timeout_s\<close> is not used.
\<close>

definition exec_text :: "u64 \<Rightarrow> u32 \<Rightarrow> u8 list" where
  "exec_text addr seq = bytes_of ''EXEC '' @ print_hex (unat addr) @ [0x20] @ print_hex (unat seq)"

fun eth_exec_rounds ::
  "('p, 'w) sock_env \<Rightarrow> u64 \<Rightarrow> u32 \<Rightarrow> u8 list \<Rightarrow> nat \<Rightarrow> ('p, 'w) remote_eth_connection \<Rightarrow>
    (bool \<times> ('p, 'w) remote_eth_connection) option" where
  "eth_exec_rounds env addr seq recv_buf 0 c = Some (False, c)"
| "eth_exec_rounds env addr seq recv_buf (Suc retry) c = do {
     let text = exec_text addr seq;
     recv_buf \<leftarrow> put_bytes recv_buf 0 (text @ [0]);
     let (sent, c) = eth_sendto env (take (length text) recv_buf) c;
     if \<not> sent then Some (False, c)
     else let (r, c) = eth_receive env (64 - 1) c
          in case r of
               None \<Rightarrow> eth_exec_rounds env addr seq recv_buf retry c
             | Some (rd, bs) \<Rightarrow>
                 if rd \<le> 0 then Some (False, c)
                 else do {
                   recv_buf \<leftarrow> eth_terminate recv_buf rd bs;
                   if take 3 recv_buf = bytes_of ''OK '' then Some (True, c)
                   else eth_exec_rounds env addr seq recv_buf retry c } }"

definition remote_eth_exec ::
  "('p, 'w) sock_env \<Rightarrow> u64 \<Rightarrow> u32 \<Rightarrow> ('p, 'w) remote_eth_connection \<Rightarrow> (bool \<times> ('p, 'w) remote_eth_connection) option" where
  "remote_eth_exec env addr timeout_s c =
    (let recv_buf = s_stack env 64 (outside c); (t, w) = s_time env (outside c)
     in eth_exec_rounds env addr (of_int t) recv_buf 3 (c\<lparr>outside := w\<rparr>))"

section \<open>Texts\<close>

lemma print_hex_length: "0 < k \<Longrightarrow> n < 16 ^ k \<Longrightarrow> length (print_hex n) \<le> k"
proof (induction k arbitrary: n)
  case (Suc k)
  show ?case
  proof (cases "n < 16")
    case True
    then show ?thesis by (simp add: print_hex.simps [of n])
  next
    case False
    then have "n div 16 < 16 ^ k" "0 < k" using Suc.prems(2) by (auto simp: less_mult_imp_div_less mult.commute intro: gr0I)
    then show ?thesis using Suc.IH [of "n div 16"] False by (simp add: print_hex.simps [of n])
  qed
qed simp

lemma print_hex_not_nil [simp]: "print_hex n \<noteq> []"
  by (subst print_hex.simps) simp

lemma print_hex_digits: "c \<in> set (print_hex n) \<Longrightarrow> \<exists>k < 16. c = hexdigit k"
proof (induction n rule: print_hex.induct)
  case (1 n)
  show ?case
  proof (cases "n < 16")
    case True
    then show ?thesis using 1(2) by (auto simp: print_hex.simps [of n])
  next
    case False
    then have "c \<in> set (print_hex (n div 16)) \<or> c = hexdigit (n mod 16)"
      using 1(2) by (simp add: print_hex.simps [of n] disj_commute)
    moreover have "n mod 16 < 16" by simp
    ultimately show ?thesis using 1(1) [OF False] by blast
  qed
qed

lemma print_hex_text: "hex_text (print_hex n)"
  using print_hex_digits [of _ n] hexdigit_is_hex by (fastforce simp: hex_text_def)

text \<open>The value of a text of digits, for the debugger and for the C library.\<close>

definition digits :: "u8 list \<Rightarrow> bool" where
  "digits ds \<longleftrightarrow> (\<forall>c \<in> set ds. \<exists>k < 16. c = hexdigit k)"

lemma xdigit_hexdigit: "k < 16 \<Longrightarrow> xdigit (hexdigit k) = Some k"
proof -
  have "\<forall>k \<in> set [0..<16]. xdigit (hexdigit k) = Some k" by code_simp
  then show "k < 16 \<Longrightarrow> xdigit (hexdigit k) = Some k" by simp
qed

lemma xdigits_value_append: "k < 16 \<Longrightarrow> xdigits_value (ds @ [hexdigit k]) = xdigits_value ds * 16 + k"
  by (simp add: xdigits_value_def xdigit_hexdigit)

lemma xdigits_value_bound: "digits ds \<Longrightarrow> xdigits_value ds < 16 ^ length ds"
proof (induction ds rule: rev_induct)
  case (snoc c ds)
  then obtain k where "k < 16" "c = hexdigit k" "xdigits_value ds < 16 ^ length ds" by (auto simp: digits_def)
  then show ?case by (simp add: xdigits_value_append)
qed (simp add: xdigits_value_def)

lemma hex_value_digit:
  assumes "k < 16"
  shows "hex_value v [hexdigit k] = v * 16 + of_nat k"
proof -
  have "(of_nat k :: u32) = take_bit 4 (of_nat k)" using assms by (simp add: take_bit_of_nat take_bit_nat_eq_self)
  moreover have "push_bit 4 v AND take_bit 4 (of_nat k :: u32) = 0" by (rule bit_word_eqI) (simp add: bit_simps)
  ultimately have "push_bit 4 v + (of_nat k :: u32) = push_bit 4 v OR of_nat k" by (metis disjunctive_add_eq_or)
  then show ?thesis using assms by (simp add: hex_value_def chartohex_hexdigit push_bit_eq_mult mult.commute)
qed

lemma hex_value_xdigits: "digits ds \<Longrightarrow> hex_value 0 ds = of_nat (xdigits_value ds)"
proof (induction ds rule: rev_induct)
  case (snoc c ds)
  then obtain k where k: "k < 16" "c = hexdigit k" "hex_value 0 ds = of_nat (xdigits_value ds)" by (auto simp: digits_def)
  have "hex_value 0 (ds @ [c]) = hex_value (hex_value 0 ds) [c]" by (simp add: hex_value_def)
  then show ?case using k by (simp add: hex_value_digit xdigits_value_append)
qed (simp add: xdigits_value_def hex_value_def)

lemma digits_print: "digits (print_hex n)"
  using print_hex_digits by (simp add: digits_def)

lemma digits_hex_digits: "digits (hex_digits x n)"
  by (induction n arbitrary: x) (auto simp: digits_def intro: top_digit)

lemma xdigits_value_print: "xdigits_value (print_hex n) = n"
proof (induction n rule: print_hex.induct)
  case (1 n)
  show ?case
  proof (cases "n < 16")
    case True
    then show ?thesis using xdigits_value_append [OF True, of "[]"] by (simp add: print_hex.simps [of n] xdigits_value_def)
  next
    case False
    then show ?thesis using 1 [OF False] by (simp add: print_hex.simps [of n] xdigits_value_append)
  qed
qed

lemma xdigits_value_hex_digits: "xdigits_value (hex_digits x 8) = unat x"
proof -
  have len32: "LENGTH(32) = 32" by simp
  have "of_nat (xdigits_value (hex_digits x 8)) = x"
    using hex_value_xdigits [OF digits_hex_digits, of x 8] by simp
  moreover have "xdigits_value (hex_digits x 8) < 2 ^ 32" using xdigits_value_bound [OF digits_hex_digits, of x 8] by simp
  ultimately show ?thesis by (metis unat_of_nat_small len32)
qed

text \<open>The debugger reads a printed number as its low 32 bits.\<close>

lemma hex_value_print: "hex_value 0 (print_hex n) = of_nat n"
  by (simp add: hex_value_xdigits [OF digits_print] xdigits_value_print)

text \<open>The client reads digits up to the first other character.\<close>

lemma strtoull_digits:
  assumes "digits ds" "ds \<noteq> []" "xdigits_value ds < 2 ^ 64" and "r = [] \<or> xdigit (hd r) = None" and "take 1 r \<noteq> [0x78]" "take 1 r \<noteq> [0x58]"
  shows "strtoull_hex (ds @ r) = (of_nat (xdigits_value ds), r)"
proof -
  have all: "\<forall>k \<in> set [0..<16]. \<not> isspace (hexdigit k) \<and> hexdigit k \<notin> {0x2D, 0x2B, 0x78, 0x58}" by code_simp
  have d: "\<not> isspace c \<and> c \<notin> {0x2D, 0x2B, 0x78, 0x58} \<and> xdigit c \<noteq> None" if "c \<in> set ds" for c
    using that assms(1) all xdigit_hexdigit by (fastforce simp: digits_def)
  obtain c ds' where ds: "ds = c # ds'" using assms(2) by (cases ds) auto
  have ws: "dropWhile isspace (ds @ r) = ds @ r" using d [of c] ds by simp
  have sg: "take 1 (ds @ r) \<noteq> [0x2D]" "take 1 (ds @ r) \<noteq> [0x2B]" using d [of c] ds by auto
  have px: "take 2 (ds @ r) \<noteq> [0x30, 0x78]" "take 2 (ds @ r) \<noteq> [0x30, 0x58]"
    using d assms(5,6) ds by (cases ds'; cases r; auto)+
  have tw: "takeWhile (\<lambda>c. xdigit c \<noteq> None) (ds @ r) = ds"
    using d assms(4) by (cases r) (auto simp: takeWhile_append takeWhile_eq_all_conv)
  show ?thesis
    unfolding strtoull_hex_def Let_def ws
    by (simp only: sg px tw simp_thms if_False if_True) (use assms(2,3) in simp)
qed

lemma strtoull_reply:
  assumes "r = [] \<or> r = 0x20 # r'"
  shows "strtoull_hex (hex_digits x 8 @ r) = (ucast x, r)"
proof -
  have "xdigits_value (hex_digits x 8) < 2 ^ 64" unfolding xdigits_value_hex_digits by (rule less_trans [OF unat_bounds(3)]) simp
  moreover have "hex_digits x 8 \<noteq> []" using length_hex_digits [of x 8] by (metis list.size(3) numeral_eq_Suc nat.distinct(1))
  moreover have "xdigit 0x20 = None" by code_simp
  ultimately have "strtoull_hex (hex_digits x 8 @ r) = (of_nat (xdigits_value (hex_digits x 8)), r)"
    using assms by (intro strtoull_digits [OF digits_hex_digits]) auto
  then show ?thesis by (simp add: xdigits_value_hex_digits of_nat_unat)
qed

section \<open>The answers that are accepted\<close>

lemma eth_terminate_fits:
  assumes "length bs = nat rd" and "length bs < length buf"
  shows "eth_terminate buf rd bs = Some (bs @ 0 # drop (Suc (length bs)) buf)"
  using assms by (simp add: eth_terminate_def put_bytes_def)

lemma hex_digit_ordinary: "digits ds \<Longrightarrow> 0 \<notin> set ds \<and> 0x0A \<notin> set ds"
proof -
  have "\<forall>k \<in> set [0..<16]. hexdigit k \<noteq> 0 \<and> hexdigit k \<noteq> 0x0A" by code_simp
  then show "digits ds \<Longrightarrow> 0 \<notin> set ds \<and> 0x0A \<notin> set ds" by (fastforce simp: digits_def)
qed

lemma cstr_append: "0 \<notin> set xs \<Longrightarrow> cstr (xs @ ys) = xs @ cstr ys" "cstr (0 # ys) = []"
  by (auto simp: cstr_def takeWhile_append)

text \<open>A confirmation for the same address and number.\<close>

lemma write_confirmed_reply:
  assumes "addr = ucast a"
  shows "write_confirmed addr seq (reply_ok @ hex_digits a 8 @ [0x20] @ hex_digits seq' 8 @ 0 # junk) \<longleftrightarrow> seq' = seq"
proof -
  have "0 \<notin> set (hex_digits a 8 @ [0x20] @ hex_digits seq' 8)"
    using hex_digit_ordinary [OF digits_hex_digits] by auto
  then have c: "cstr (hex_digits a 8 @ 0x20 # hex_digits seq' 8 @ 0 # junk) = hex_digits a 8 @ 0x20 # hex_digits seq' 8"
    using cstr_append(1) [of "hex_digits a 8 @ [0x20] @ hex_digits seq' 8" "0 # junk"] by (simp add: cstr_append(2))
  have s: "strtoull_hex (hex_digits a 8 @ 0x20 # hex_digits seq' 8) = (ucast a, 0x20 # hex_digits seq' 8)"
    "strtoull_hex (hex_digits seq' 8) = (ucast seq', [])"
    using strtoull_reply [of "0x20 # hex_digits seq' 8" _ a] strtoull_reply [of "[]" _ seq'] by simp_all
  have h: "dropWhile (\<lambda>c. c = 0x20) (hex_digits seq' 8) = hex_digits seq' 8"
  proof -
    have "\<forall>k \<in> set [0..<16]. hexdigit k \<noteq> 0x20" by code_simp
    then have "0x20 \<notin> set (hex_digits seq' 8)" using digits_hex_digits [of seq' 8] by (fastforce simp: digits_def)
    then show ?thesis by (cases "hex_digits seq' 8") auto
  qed
  have "(ucast (ucast x :: u64) :: u32) = x" for x by (rule bit_word_eqI) (simp add: bit_simps)
  then have "ucast seq' = (ucast seq :: u64) \<longleftrightarrow> seq' = seq" by metis
  then show ?thesis using assms by (simp add: write_confirmed_def c s h)
qed

text \<open>An answer with as many bytes as were asked for: its address decides.\<close>

lemma read_data_reply:
  assumes "0 \<le> len" "nat len = length data"
  shows "read_data addr len (int (12 + length data)) (reply_ok @ hex_digits a 8 @ [0x0A] @ data @ 0 # junk) =
    Some (if addr = ucast a then Some data else None)"
proof -
  let ?h = "reply_ok @ hex_digits a 8"
  have o: "0 \<notin> set ?h" "0x0A \<notin> set ?h" using hex_digit_ordinary [OF digits_hex_digits, of a 8] by simp_all
  have c: "cstr (?h @ 0x0A # rest) = ?h @ 0x0A # cstr rest" for rest
    using cstr_append(1) [of "?h @ [0x0A]" rest] o by simp
  have t: "takeWhile (\<lambda>c. c \<noteq> 0x0A) (?h @ 0x0A # rest) = ?h" for rest
    using o by (simp add: takeWhile_append takeWhile_eq_all_conv)
  have l: "length ?h = 11" by simp
  have u: "(?h @ 0x0A # rest)[11 := 0] = ?h @ 0 # rest" for rest using list_update_length [of ?h "0x0A" rest 0] unfolding l by simp
  have z: "cstr (drop 3 (?h @ 0 # rest)) = hex_digits a 8" for rest
    using cstr_append(1) [of "hex_digits a 8" "0 # rest"] hex_digit_ordinary [OF digits_hex_digits, of a 8]
    by (simp add: cstr_append(2))
  have d: "drop 12 (?h @ 0 # rest) = rest" for rest using l by (simp del: append.simps)
  have k: "take 3 (?h @ 0 # rest) = reply_ok" for rest by simp
  have s: "strtoull_hex (hex_digits a 8) = (ucast a, [])" using strtoull_reply [of "[]" _ a] by simp
  have "read_data addr len (int (12 + length data)) (?h @ 0x0A # data @ 0 # junk) =
      Some (if addr = ucast a then Some data else None)"
    unfolding read_data_def Let_def c t l u
    using assms by (simp only: z d k s) auto
  then show ?thesis by simp
qed

section \<open>No access outside the arrays\<close>

text \<open>
  What is relied on of the system: a fresh array has its size, and \<^verbatim>\<open>recvfrom\<close> stores as many bytes as it says, at most as
  many as it was given room for.
\<close>

definition sock_ok :: "('p, 'w) sock_env \<Rightarrow> bool" where
  "sock_ok env \<longleftrightarrow> (\<forall>n w. length (s_stack env n w) = n) \<and>
     (\<forall>fd cap p w rd bs p' w'. s_recvfrom env fd cap p w = (rd, bs, p', w') \<longrightarrow> rd \<le> int cap \<and> length bs = nat rd)"

lemma length_strncpy [simp]: "length (strncpy_bytes s n) = n"
  by (simp add: strncpy_bytes_def)

lemma put_bytes_fits:
  assumes "i + length bs \<le> length buf"
  obtains buf' where "put_bytes buf i bs = Some buf'" and "length buf' = length buf"
  using assms by (auto simp: put_bytes_def)

lemma command_lengths: "length (write_text addr seq) \<le> 32" "length (exec_text addr seq) \<le> 30"
  "0 \<le> len \<Longrightarrow> len \<le> 1400 \<Longrightarrow> length (read_text addr len) \<le> 30"
proof -
  have a: "length (print_hex (unat addr)) \<le> 16" using unsigned_less [of addr, where 'a = nat] by (intro print_hex_length) simp_all
  have s: "length (print_hex (unat seq)) \<le> 8" using unat_bounds(3) [of seq] by (intro print_hex_length) simp_all
  show "length (write_text addr seq) \<le> 32" "length (exec_text addr seq) \<le> 30"
    using a s by (simp_all add: write_text_def exec_text_def bytes_of_def)
  assume "0 \<le> len" "len \<le> 1400"
  then have "length (print_hex (nat len)) \<le> 8" by (intro print_hex_length) simp_all
  then show "length (read_text addr len) \<le> 30" using a by (simp add: read_text_def bytes_of_def)
qed

locale sock =
  fixes env :: "('p, 'w) sock_env"
  assumes stack_length: "length (s_stack env n w) = n"
    and received: "s_recvfrom env fd cap p w = (rd, bs, p', w') \<Longrightarrow> rd \<le> int cap \<and> length bs = nat rd"
begin

lemma eth_receive_fits:
  assumes "eth_receive env cap c = (Some (rd, bs), c')" and "0 < rd" and "length buf = Suc cap"
  shows "\<exists>buf'. eth_terminate buf rd bs = Some buf' \<and> length buf' = length buf"
proof -
  obtain w p w' where "s_recvfrom env (sock_fd c) cap (ip_addr c) w = (rd, bs, p, w')"
    using assms(1) by (auto simp: eth_receive_def remote_eth_wait_for_data_def split: prod.splits if_splits)
  then have "length bs = nat rd" "length bs < length buf" using received assms(2,3) by fastforce+
  then show ?thesis using eth_terminate_fits by fastforce
qed

lemma receive_round:
  assumes "eth_receive env cap c = (r, c')" and "length buf = Suc cap"
  obtains (silent) "r = None" | (failed) rd bs where "r = Some (rd, bs)" "rd \<le> 0"
    | (reply) rd bs buf' where "r = Some (rd, bs)" "0 < rd" "eth_terminate buf rd bs = Some buf'" "length buf' = length buf"
proof (cases r)
  case (Some x)
  obtain rd bs where "x = (rd, bs)" by (cases x)
  then show ?thesis using Some assms eth_receive_fits [of cap c rd bs c' buf] failed reply by (cases "0 < rd") auto
qed (use silent in simp)

lemma eth_receive_machtype: "eth_receive env cap c = (r, c') \<Longrightarrow> machtype c' = machtype c"
  by (auto simp: eth_receive_def remote_eth_wait_for_data_def split: prod.splits if_splits)

lemma eth_sendto_machtype: "eth_sendto env cmd c = (r, c') \<Longrightarrow> machtype c' = machtype c"
  by (auto simp: eth_sendto_def split: prod.splits)

lemma test_rounds_fit:
  assumes "length buf = 64" and "length (machtype c) = 32"
  shows "\<exists>r. eth_test_rounds env buf n c = Some r"
  using assms
proof (induction n arbitrary: buf c)
  case (Suc n)
  obtain sent c1 where s: "eth_sendto env (bytes_of ''TEST'') c = (sent, c1)" by fastforce
  obtain r c2 where r: "eth_receive env 63 c1 = (r, c2)" by fastforce
  have m: "length (machtype c2) = 32"
    using eth_sendto_machtype [OF s] eth_receive_machtype [OF r] Suc.prems(2) by simp
  show ?case
  proof (cases sent)
    case True
    have "length buf = Suc 63" using Suc.prems(1) by simp
    with r show ?thesis
    proof (cases rule: receive_round)
      case (reply rd bs buf')
      obtain mt where mt: "put_bytes (machtype c2) 0 (strncpy_bytes (drop 3 buf') 31) = Some mt" "length mt = length (machtype c2)"
        by (rule put_bytes_fits [of 0 "strncpy_bytes (drop 3 buf') 31" "machtype c2"]) (use m in simp_all)
      then show ?thesis using True s r reply Suc.IH [of buf' "c2\<lparr>machtype := mt\<rparr>"] Suc.prems(1) m by auto
    qed (use True s r Suc.IH [OF Suc.prems(1) m] Suc.prems(1) in auto)
  qed (use s in auto)
qed auto

lemma write_rounds_fit:
  assumes "length buf = 2200" and "length data \<le> 1400"
  shows "\<exists>r. eth_write_rounds env addr seq data buf n c = Some r"
  using assms(1)
proof (induction n arbitrary: buf c)
  case (Suc n)
  let ?t = "write_text addr seq"
  have t: "0 + length (?t @ [0]) \<le> length buf" "length ?t + length data \<le> length buf"
    using Suc.prems assms(2) command_lengths(1) [of addr seq] by simp_all
  obtain b1 where b1: "put_bytes buf 0 (?t @ [0]) = Some b1" "length b1 = length buf" using t(1) by (rule put_bytes_fits)
  obtain b2 where b2: "put_bytes b1 (length ?t) data = Some b2" "length b2 = length b1"
    by (rule put_bytes_fits [of "length ?t" data b1]) (use t(2) b1(2) in simp_all)
  obtain sent c1 where s: "eth_sendto env (take (length ?t + length data) b2) c = (sent, c1)" by fastforce
  obtain r c2 where r: "eth_receive env 2199 c1 = (r, c2)" by fastforce
  have "length b2 = Suc 2199" using Suc.prems b1(2) b2(2) by simp
  with r show ?case
  proof (cases rule: receive_round)
    case silent
    then show ?thesis using b1 b2 s r Suc.IH [of b2 c2] Suc.prems by (cases sent) (auto simp: Let_def)
  qed (use b1 b2 s r Suc.prems in \<open>cases sent; auto simp: Let_def\<close>)+
qed auto

lemma read_rounds_fit:
  assumes "length buf = 2000" and "0 \<le> len" "len \<le> 1400"
  shows "\<exists>r. eth_read_rounds env addr len buf n c = Some r"
  using assms(1)
proof (induction n arbitrary: buf c)
  case (Suc n)
  have "0 + length (read_text addr len @ [0]) \<le> length buf" using Suc.prems command_lengths(3) [OF assms(2,3), of addr] by simp
  then obtain b where b: "put_bytes buf 0 (read_text addr len @ [0]) = Some b" "length b = length buf" by (rule put_bytes_fits)
  obtain sent c1 where s: "eth_sendto env (cstr b) c = (sent, c1)" by fastforce
  obtain r c2 where r: "eth_receive env 1999 c1 = (r, c2)" by fastforce
  have "length b = Suc 1999" using Suc.prems b(2) by simp
  with r show ?case
  proof (cases rule: receive_round)
    case (reply rd bs b')
    then show ?thesis using b s r Suc.IH [of b' c2] Suc.prems by (cases sent) (auto split: option.split)
  qed (use b s r Suc.IH [of b c2] Suc.prems in \<open>cases sent; auto\<close>)+
qed auto

lemma exec_rounds_fit:
  assumes "length buf = 64"
  shows "\<exists>r. eth_exec_rounds env addr seq buf n c = Some r"
  using assms
proof (induction n arbitrary: buf c)
  case (Suc n)
  let ?t = "exec_text addr seq"
  have "0 + length (?t @ [0]) \<le> length buf" using Suc.prems command_lengths(2) [of addr seq] by simp
  then obtain b where b: "put_bytes buf 0 (?t @ [0]) = Some b" "length b = length buf" by (rule put_bytes_fits)
  obtain sent c1 where s: "eth_sendto env (take (length ?t) b) c = (sent, c1)" by fastforce
  obtain r c2 where r: "eth_receive env 63 c1 = (r, c2)" by fastforce
  have "length b = Suc 63" using Suc.prems b(2) by simp
  with r show ?case
  proof (cases rule: receive_round)
    case (reply rd bs b')
    then show ?thesis using b s r Suc.IH [of b' c2] Suc.prems by (cases sent) (auto simp: Let_def)
  qed (use b s r Suc.IH [of b c2] Suc.prems in \<open>cases sent; auto simp: Let_def\<close>)+
qed auto

lemma read_block_fits: "\<exists>r. remote_eth_read_block env addr len c = Some r"
  using read_rounds_fit [of _ len addr 3 c] by (auto simp: remote_eth_read_block_def stack_length)

lemma write_block_fits: "nat len \<le> length buf \<Longrightarrow> \<exists>r. remote_eth_write_block env addr buf len c = Some r"
  using write_rounds_fit [OF stack_length] by (auto simp: remote_eth_write_block_def Let_def)

lemma read_fits: "\<exists>r. remote_eth_read env addr len c = Some r"
proof (induction "nat len" arbitrary: addr len c rule: less_induct)
  case less
  obtain d c1 where b: "remote_eth_read_block env addr (if len \<ge> 1400 then 1400 else len) c = Some (d, c1)"
    using read_block_fits by (metis prod.exhaust)
  show ?case
  proof (cases "len \<ge> 1400")
    case True
    then obtain r where "remote_eth_read env (addr + 1400) (len - 1400) c1 = Some r" using less [of "len - 1400"] by fastforce
    then show ?thesis using b True by (subst remote_eth_read.simps) (auto split: option.split prod.split)
  qed (use b in \<open>subst remote_eth_read.simps, auto split: option.split\<close>)
qed

lemma write_fits: "nat len \<le> length buf \<Longrightarrow> \<exists>r. remote_eth_write env addr buf len c = Some r"
proof (induction "nat len" arbitrary: addr buf len c rule: less_induct)
  case less
  have "nat (if len \<ge> 1400 then 1400 else len) \<le> length buf" using less.prems by auto
  then obtain ok c1 where b: "remote_eth_write_block env addr buf (if len \<ge> 1400 then 1400 else len) c = Some (ok, c1)"
    using write_block_fits by (metis prod.exhaust)
  show ?case
  proof (cases "len \<ge> 1400")
    case True
    then have "nat (len - 1400) \<le> length (drop 1400 buf)" using less.prems by simp
    then obtain r where "remote_eth_write env (addr + 1400) (drop 1400 buf) (len - 1400) c1 = Some r"
      using less.hyps [of "len - 1400"] True by fastforce
    then show ?thesis using b True by (subst remote_eth_write.simps) auto
  qed (use b in \<open>subst remote_eth_write.simps, auto\<close>)
qed

end


text \<open>A network on which nothing ever arrives.\<close>

definition silent :: "(unit, nat) sock_env" where
  "silent = \<lparr>s_stack = (\<lambda>n w. replicate n 0xAA), s_malloc = (\<lambda>w. (True, w)), s_socket = (\<lambda>w. (3, w)), s_close = (\<lambda>fd w. w),
     s_inet_addr = (\<lambda>addr. ()), s_sendto = (\<lambda>fd cmd p w. (int (length cmd), w + 1)), s_select = (\<lambda>fd s us w. (0, w)),
     s_recvfrom = (\<lambda>fd cap p w. (-1, [], (), w)), s_time = (\<lambda>w. (1, w))\<rparr>"


section \<open>A failure that goes unnoticed\<close>

text \<open>
  A failing \<^verbatim>\<open>sendto\<close> is not noticed. Its result -1 is compared as an unsigned number and is larger than any length, so every
  command goes on as if the datagram had left; with no answer it gives up after three attempts instead of at once.
\<close>

theorem send_failure_unnoticed:
  assumes "s_sendto env (sock_fd c) cmd (ip_addr c) (outside c) = (-1, w)" and "length cmd < 2 ^ 64"
  shows "eth_sendto env cmd c = (True, c\<lparr>outside := w\<rparr>)"
proof -
  have "unat (of_nat (length cmd) :: u64) \<le> unat (-1 :: u64)" by (simp add: word_le_nat_alt [symmetric])
  then have "\<not> (-1 :: u64) < of_nat (length cmd)" by (simp add: word_less_nat_alt)
  then show ?thesis using assms(1) by (simp add: eth_sendto_def)
qed

theorem send_failure_unnoticed_witness:
  "fst (eth_sendto (silent\<lparr>s_sendto := (\<lambda>fd cmd p w. (-1, w))\<rparr>) (bytes_of ''TEST'')
     \<lparr>sock_fd = 3, ip_addr = (), machtype = replicate 32 0, write_seq = 0, outside = 0\<rparr>)"
  by (subst send_failure_unnoticed [where w = 0]) (simp_all add: bytes_of_def)

section \<open>Talking to a debugger\<close>

lemma read_text_ordinary: "0 \<notin> set (read_text addr len)"
proof -
  have "0 \<notin> set (bytes_of ''READ '')" by code_simp
  then show ?thesis using hex_digit_ordinary [OF digits_print] by (simp add: read_text_def)
qed

lemma command_buffer:
  assumes "length buf = N" and "length t + length d < N"
  obtains b1 b2 where "put_bytes buf 0 (t @ [0]) = Some b1" "put_bytes b1 (length t) d = Some b2"
    "take (length t + length d) b2 = t @ d" "length b2 = N"
proof -
  let ?b1 = "t @ [0] @ drop (Suc (length t)) buf"
  let ?b2 = "t @ d @ drop (length d) (0 # drop (Suc (length t)) buf)"
  have "put_bytes buf 0 (t @ [0]) = Some ?b1" using assms by (simp add: put_bytes_def)
  moreover have "put_bytes ?b1 (length t) d = Some ?b2" using assms by (simp add: put_bytes_def)
  moreover have "take (length t + length d) ?b2 = t @ d" "length ?b2 = N" using assms by simp_all
  ultimately show ?thesis by (rule that)
qed

text \<open>
  What a debugger at the other end promises: every command is answered in time, a read with the bytes of its memory, a
  write with a confirmation once the bytes are stored. \<open>view\<close> is the debugger's memory, \<open>user\<close> the addresses that are its user's
  own, away from its buffers; nothing is promised about the others.
\<close>

definition range_in :: "(u32 \<Rightarrow> bool) \<Rightarrow> u32 \<Rightarrow> nat \<Rightarrow> bool" where
  "range_in user a n \<longleftrightarrow> (\<forall>i < n. user (a + of_nat i))"

definition agree :: "(u32 \<Rightarrow> bool) \<Rightarrow> memory \<Rightarrow> memory \<Rightarrow> bool" where
  "agree user mm mm' \<longleftrightarrow> (\<forall>x. user x \<longrightarrow> mm' x = mm x)"

lemma range_in_part: "range_in user a n \<Longrightarrow> k + l \<le> n \<Longrightarrow> range_in user (a + of_nat k) l"
  unfolding range_in_def
proof (intro allI impI)
  fix i assume "\<forall>i < n. user (a + of_nat i)" "k + l \<le> n" "i < l"
  moreover have "k + i < n" using \<open>k + l \<le> n\<close> \<open>i < l\<close> by simp
  ultimately have "user (a + of_nat (k + i))" by blast
  then show "user (a + of_nat k + of_nat i)" by (simp add: add.assoc)
qed

lemma agree_trans [trans]: "agree user m1 m2 \<Longrightarrow> agree user m2 m3 \<Longrightarrow> agree user m1 m3"
  by (simp add: agree_def)

lemma agree_write: "agree user m1 m2 \<Longrightarrow> agree user (mem_write m1 a bs) (mem_write m2 a bs)"
  by (simp add: agree_def mem_write_def)

lemma agree_load: "agree user m1 m2 \<Longrightarrow> range_in user a n \<Longrightarrow> load_bytes m2 a n = load_bytes m1 a n"
  by (simp add: agree_def range_in_def load_bytes_def)

definition exchange ::
  "('p, 'w) sock_env \<Rightarrow> int \<Rightarrow> 'p \<Rightarrow> nat \<Rightarrow> u8 list \<Rightarrow> u8 list \<Rightarrow> 'w \<Rightarrow> 'w \<Rightarrow> bool" where
  "exchange env fd peer cap cmd reply w w3 \<longleftrightarrow> (\<exists>w1 w2. s_sendto env fd cmd peer w = (int (length cmd), w1) \<and>
     s_select env fd 1 250000 w1 = (1, w2) \<and> s_recvfrom env fd cap peer w2 = (int (length reply), reply, peer, w3))"

locale debug_link = sock env for env :: "('p, 'w) sock_env" +
  fixes fd :: int and peer :: 'p and ok :: "'w \<Rightarrow> bool" and view :: "'w \<Rightarrow> memory" and user :: "u32 \<Rightarrow> bool"
  assumes reads: "ok w \<Longrightarrow> range_in user a n \<Longrightarrow> 0 < n \<Longrightarrow> n \<le> 1400 \<Longrightarrow> \<exists>w3. ok w3 \<and>
      exchange env fd peer 1999 (read_text (ucast a) (int n)) (reply_ok @ hex_digits a 8 @ [0x0A] @ load_bytes (view w) a n) w w3 \<and>
      agree user (view w) (view w3)"
    and writes: "ok w \<Longrightarrow> range_in user a (length bs) \<Longrightarrow> bs \<noteq> [] \<Longrightarrow> length bs \<le> 1400 \<Longrightarrow> \<exists>w3. ok w3 \<and>
      exchange env fd peer 2199 (write_text (ucast a) seq @ bs) (reply_ok @ hex_digits a 8 @ [0x20] @ hex_digits seq 8) w w3 \<and>
      agree user (mem_write (view w) a bs) (view w3)"
    and clock: "ok w \<Longrightarrow> s_time env w = (t, w') \<Longrightarrow> ok w' \<and> agree user (view w) (view w')"
begin

definition linked :: "('p, 'w) remote_eth_connection \<Rightarrow> bool" where
  "linked c \<longleftrightarrow> sock_fd c = fd \<and> ip_addr c = peer \<and> ok (outside c)"

lemma exchange_round:
  assumes "exchange env fd peer cap cmd reply (outside c) w" and "linked c"
  obtains c1 where "eth_sendto env cmd c = (True, c1)"
    and "eth_receive env cap c1 = (Some (int (length reply), reply), c\<lparr>outside := w\<rparr>)"
  using assms unfolding exchange_def linked_def
  by (auto simp: eth_sendto_def eth_receive_def remote_eth_wait_for_data_def)

lemma read_block_answer:
  assumes "linked c" "0 \<le> len" "len \<le> 1400" "nat len = length d"
    and w: "exchange env fd peer 1999 (read_text addr len) (reply_ok @ hex_digits a 8 @ [0x0A] @ d) (outside c) w"
  shows "remote_eth_read_block env addr len c = Some (if addr = ucast a then Some d else None, c\<lparr>outside := w\<rparr>)"
proof -
  let ?t = "read_text addr len" and ?r = "reply_ok @ hex_digits a 8 @ [0x0A] @ d"
  obtain c1 where x: "eth_sendto env ?t c = (True, c1)"
    "eth_receive env 1999 c1 = (Some (int (length ?r), ?r), c\<lparr>outside := w\<rparr>)"
    using w assms(1) by (rule exchange_round)
  let ?buf = "s_stack env 2000 (outside c)"
  have b: "put_bytes ?buf 0 (?t @ [0]) = Some (?t @ [0] @ drop (Suc (length ?t)) ?buf)"
    using command_lengths(3) [OF assms(2,3), of addr] by (simp add: put_bytes_def stack_length)
  have "0 \<notin> set ?t" by (rule read_text_ordinary)
  then have cs: "cstr (?t @ [0] @ drop (Suc (length ?t)) ?buf) = ?t" by (simp add: cstr_append)
  have "length ?r < length (?t @ [0] @ drop (Suc (length ?t)) ?buf)"
    using command_lengths(3) [OF assms(2,3), of addr] assms(2-4) by (simp add: stack_length)
  then obtain junk where e: "eth_terminate (?t @ [0] @ drop (Suc (length ?t)) ?buf) (int (length ?r)) ?r = Some (?r @ 0 # junk)"
    using eth_terminate_fits by fastforce
  have "read_data addr len (int (length ?r)) (?r @ 0 # junk) = Some (if addr = ucast a then Some d else None)"
    using read_data_reply [OF assms(2,4), of addr a junk] by simp
  moreover have "\<not> int (length ?r) \<le> 0" by simp
  ultimately show ?thesis
    using assms(2,3) x e cs b unfolding remote_eth_read_block_def numeral_3_eq_3 by (simp del: append.simps)
qed

lemma read_block_ok:
  assumes "linked c" "range_in user a n" "n \<le> 1400" "0 < n"
  shows "\<exists>c'. remote_eth_read_block env (ucast a) (int n) c = Some (Some (load_bytes (view (outside c)) a n), c') \<and>
    linked c' \<and> agree user (view (outside c)) (view (outside c'))"
proof -
  obtain w where w: "ok w" "agree user (view (outside c)) (view w)"
    "exchange env fd peer 1999 (read_text (ucast a) (int n)) (reply_ok @ hex_digits a 8 @ [0x0A] @ load_bytes (view (outside c)) a n) (outside c) w"
    using reads [of "outside c" a n] assms by (auto simp: linked_def)
  then show ?thesis using read_block_answer [OF assms(1) _ _ _ w(3)] assms(1,3) by (auto simp: linked_def)
qed

lemma next_block:
  fixes a :: u32
  assumes "unat a + n < 2 ^ 32" "1400 \<le> n"
  shows "unat (a + 1400) + (n - 1400) < 2 ^ 32" and "(ucast (a + 1400) :: u64) = ucast a + 1400"
proof -
  have u: "unat (a + 1400) = unat a + 1400" using assms by (simp add: unat_word_ariths(1))
  then show "unat (a + 1400) + (n - 1400) < 2 ^ 32" using assms by simp
  have "of_nat (unat (a + 1400)) = (of_nat (unat a + 1400) :: u64)" by (simp only: u)
  then show "(ucast (a + 1400) :: u64) = ucast a + 1400" by (simp only: of_nat_add of_nat_unat of_nat_numeral)
qed

lemma read_ok:
  assumes "linked c" "range_in user a n" "unat a + n < 2 ^ 32"
  shows "\<exists>c'. remote_eth_read env (ucast a) (int n) c = Some (True, load_bytes (view (outside c)) a n, c') \<and>
    linked c' \<and> agree user (view (outside c)) (view (outside c'))"
  using assms
proof (induction n arbitrary: a c rule: less_induct)
  case (less n)
  show ?case
  proof (cases "n \<ge> 1400")
    case True
    let ?a = "a + 1400"
    obtain c1 where c1: "remote_eth_read_block env (ucast a) (int 1400) c = Some (Some (load_bytes (view (outside c)) a 1400), c1)"
      "linked c1" "agree user (view (outside c)) (view (outside c1))"
      using read_block_ok [of c a 1400] range_in_part [of user a n 0 1400] less.prems True by auto
    have s: "range_in user ?a (n - 1400)" using range_in_part [of user a n 1400 "n - 1400"] less.prems(2) True by simp
    note nb = next_block [OF less.prems(3) True]
    obtain c2 where c2: "remote_eth_read env (ucast ?a) (int (n - 1400)) c1 =
        Some (True, load_bytes (view (outside c1)) ?a (n - 1400), c2)" "linked c2" "agree user (view (outside c1)) (view (outside c2))"
      using less.IH [OF _ c1(2) s nb(1)] True by auto
    have "load_bytes (view (outside c)) a n = load_bytes (view (outside c)) a 1400 @ load_bytes (view (outside c1)) ?a (n - 1400)"
      using load_bytes_add [of "view (outside c)" a 1400 "n - 1400"] True agree_load [OF c1(3) s] by simp
    then show ?thesis
      using c1 c2 True agree_trans [OF c1(3) c2(3)] nb(2) by (subst remote_eth_read.simps) (simp add: of_nat_diff)
  next
    case False
    show ?thesis
    proof (cases "n = 0")
      case True
      then show ?thesis using less.prems(1) by (subst remote_eth_read.simps) (simp add: agree_def load_bytes_def)
    next
      case nz: False
      then show ?thesis using read_block_ok [of c a n] less.prems False by (subst remote_eth_read.simps) auto
    qed
  qed
qed

lemma write_block_ok:
  assumes "linked c" "range_in user a n" "n \<le> 1400" "n \<le> length buf" "0 < n"
  shows "\<exists>c'. remote_eth_write_block env (ucast a) buf (int n) c = Some (True, c') \<and> linked c' \<and>
    agree user (mem_write (view (outside c)) a (take n buf)) (view (outside c'))"
proof -
  define c0 where "c0 = (if write_seq c = 0
    then let (t, w) = s_time env (outside c) in c\<lparr>write_seq := of_int t, outside := w\<rparr> else c\<lparr>write_seq := write_seq c + 1\<rparr>)"
  have c0: "linked c0" "agree user (view (outside c)) (view (outside c0))"
    using assms(1) clock [of "outside c"] by (auto simp: c0_def linked_def agree_def split: prod.splits)
  let ?s = "write_seq c0" and ?d = "take n buf" and ?buf = "s_stack env 2200 (outside c)"
  let ?t = "write_text (ucast a) ?s" and ?r = "reply_ok @ hex_digits a 8 @ [0x20] @ hex_digits (write_seq c0) 8"
  obtain w where w: "ok w" "exchange env fd peer 2199 (?t @ ?d) ?r (outside c0) w"
    "agree user (mem_write (view (outside c0)) a ?d) (view w)"
    using writes [of "outside c0" a ?d ?s] assms c0(1) by (force simp: linked_def)
  obtain c1 where x: "eth_sendto env (?t @ ?d) c0 = (True, c1)"
    "eth_receive env 2199 c1 = (Some (int (length ?r), ?r), c0\<lparr>outside := w\<rparr>)"
    using w(2) c0(1) by (rule exchange_round)
  have l: "length ?t \<le> 32" by (rule command_lengths)
  obtain b1 b2 where b: "put_bytes ?buf 0 (?t @ [0]) = Some b1" "put_bytes b1 (length ?t) ?d = Some b2"
    "take (length ?t + length ?d) b2 = ?t @ ?d" "length b2 = 2200"
    by (rule command_buffer [of ?buf 2200 ?t ?d]) (use l assms(3) in \<open>simp_all add: stack_length\<close>)
  obtain junk where e: "eth_terminate b2 (int (length ?r)) ?r = Some (?r @ 0 # junk)"
    using eth_terminate_fits [of ?r "int (length ?r)" b2] b(4) by auto
  have "eth_write_rounds env (ucast a) ?s ?d ?buf 3 c0 = Some (True, c0\<lparr>outside := w\<rparr>)"
    unfolding numeral_3_eq_3
    using b x e write_confirmed_reply [OF refl, of a ?s ?s junk] by (simp add: Let_def del: append.simps)
  then have "remote_eth_write_block env (ucast a) buf (int n) c = Some (True, c0\<lparr>outside := w\<rparr>)"
    using assms(3,4) by (simp add: remote_eth_write_block_def c0_def [symmetric])
  moreover have "agree user (mem_write (view (outside c)) a ?d) (view w)" using agree_trans [OF agree_write [OF c0(2)] w(3)] .
  ultimately show ?thesis using c0(1) w(1) by (simp add: linked_def)
qed

lemma write_ok:
  assumes "linked c" "range_in user a n" "unat a + n < 2 ^ 32" "n \<le> length buf"
  shows "\<exists>c'. remote_eth_write env (ucast a) buf (int n) c = Some (True, c') \<and> linked c' \<and>
    agree user (mem_write (view (outside c)) a (take n buf)) (view (outside c'))"
  using assms
proof (induction n arbitrary: a buf c rule: less_induct)
  case (less n)
  show ?case
  proof (cases "n \<ge> 1400")
    case True
    let ?a = "a + 1400" and ?b = "drop 1400 buf"
    obtain c1 where c1: "remote_eth_write_block env (ucast a) buf (int 1400) c = Some (True, c1)" "linked c1"
      "agree user (mem_write (view (outside c)) a (take 1400 buf)) (view (outside c1))"
      using write_block_ok [of c a 1400 buf] range_in_part [of user a n 0 1400] less.prems True by auto
    have s: "range_in user ?a (n - 1400)" using range_in_part [of user a n 1400 "n - 1400"] less.prems(2) True by simp
    note nb = next_block [OF less.prems(3) True]
    have "n - 1400 \<le> length ?b" using less.prems(4) by simp
    then obtain c2 where c2: "remote_eth_write env (ucast ?a) ?b (int (n - 1400)) c1 = Some (True, c2)" "linked c2"
      "agree user (mem_write (view (outside c1)) ?a (take (n - 1400) ?b)) (view (outside c2))"
      using less.IH [OF _ c1(2) s nb(1), of ?b] True by auto
    have t: "take 1400 buf @ take (n - 1400) ?b = take n buf" "length (take 1400 buf) = 1400"
      using True less.prems(4) take_add [of 1400 "n - 1400" buf] by simp_all
    have "mem_write (mem_write (view (outside c)) a (take 1400 buf)) ?a (take (n - 1400) ?b) = mem_write (view (outside c)) a (take n buf)"
      using mem_write_append [of "take 1400 buf" "take (n - 1400) ?b" "view (outside c)" a] t less.prems(3) by simp
    then have "agree user (mem_write (view (outside c)) a (take n buf)) (view (outside c2))"
      using agree_trans [OF agree_write [OF c1(3)] c2(3)] by simp
    then show ?thesis
      using c1 c2 True nb(2) by (subst remote_eth_write.simps) (simp add: of_nat_diff)
  next
    case False
    show ?thesis
    proof (cases "n = 0")
      case True
      then show ?thesis using less.prems(1) by (subst remote_eth_write.simps) (simp add: agree_def mem_write_def)
    next
      case nz: False
      then show ?thesis using write_block_ok [of c a n buf] less.prems False by (subst remote_eth_write.simps) auto
    qed
  qed
qed

lemma write_read:
  assumes "linked c" "range_in user a n" "unat a + n < 2 ^ 32" "n = length buf"
  shows "\<exists>c1 c2. remote_eth_write env (ucast a) buf (int n) c = Some (True, c1) \<and>
    remote_eth_read env (ucast a) (int n) c1 = Some (True, buf, c2)"
proof -
  obtain c1 where c1: "remote_eth_write env (ucast a) buf (int n) c = Some (True, c1)" "linked c1"
    "agree user (mem_write (view (outside c)) a buf) (view (outside c1))"
    using write_ok [OF assms(1,2,3), of buf] assms(4) by auto
  have "load_bytes (view (outside c1)) a n = buf"
    using agree_load [OF c1(3) assms(2)] load_write_whole [of buf n "view (outside c)" a] assms(3,4) by simp
  then show ?thesis using c1 read_ok [OF c1(2) assms(2,3)] by auto
qed

end

end
