(* ===== verification/Link.thy ===== *)
theory Link
  imports Startup Card E_lib
begin

text \<open>
  The client library and the debugger together: the socket calls of \<^verbatim>\<open>src/comm/e_lib.c\<close> connected to a machine that runs
  \<^verbatim>\<open>net_idle\<close> of \<^verbatim>\<open>src/eth/c-main.c\<close>. A datagram becomes a frame in the memory of an NE-2000, the driver fetches it
  through the ports, and the answer is what the driver then writes to the card. The network in between loses nothing; the
  driver's two buffers lie at 0x170000.
\<close>

section \<open>The wire\<close>

text \<open>
  A datagram as a frame. \<open>lan_packet\<close> is what follows the first twelve bytes of the IPv4 header: the two addresses, the UDP
  header without a checksum, the payload, and a byte of padding, which is no hexadecimal digit.
\<close>

definition lan_packet :: "u8 list \<Rightarrow> u8 list" where
  "lan_packet text = [192, 168, 250, 1, 192, 168, 250, 254] @ udp_bytes 5000 777 (of_nat (8 + length text)) @ text @ [0]"

definition lan_ip :: "nat \<Rightarrow> u16 \<Rightarrow> u8 list" where
  "lan_ip n ck = (let total = of_nat (28 + n) :: u16
     in [0x45, 0, ucast (drop_bit 8 total), ucast total, 0, 0, 0, 0, 0x40, 0x11, ucast (drop_bit 8 ck), ucast ck])"

text \<open>The checksum that belongs into the header.\<close>

definition lan_chksum :: "u8 list \<Rightarrow> u16" where
  "lan_chksum text =
    ucast (NOT (chksum_loop (mem_write (\<lambda>_. 0) 0x17000E (lan_ip (length text) 0 @ lan_packet text)) 0x17000E 5 10 0))"

definition lan_header :: "u8 list \<Rightarrow> u8 list" where
  "lan_header text = lan_ip (length text) (lan_chksum text)"

definition lan_frame :: "u8 list \<Rightarrow> u8 list" where
  "lan_frame text = [0, 1, 2, 3, 4, 5, 9, 9, 9, 9, 9, 9, 8, 0] @ lan_header text @ lan_packet text"

text \<open>The debugger's round with the frame in the card, and the payload of the frame the card was given to send.\<close>

definition lan_card :: "u8 list \<Rightarrow> dbg \<Rightarrow> unit rtl8101_hw_scheme" where
  "lan_card text m = ne2000_card (length (data_in 0x310 (hist m))) (lan_frame text) rtl8101_idle_hw"

definition lan_deliver :: "u8 list \<Rightarrow> dbg \<Rightarrow> dbg option" where
  "lan_deliver text m = net_idle (lan_card text m) m"

definition lan_payload :: "u8 list \<Rightarrow> u8 list" where
  "lan_payload frame = take (unat (frame ! 38) * 256 + unat (frame ! 39) - 8) (drop 42 frame)"

definition lan_reply :: "dbg \<Rightarrow> dbg \<Rightarrow> u8 list" where
  "lan_reply m m' = lan_payload (drop (length (data_out 0x310 (hist m))) (data_out 0x310 (hist m')))"

definition lan :: "(unit, dbg \<times> u8 list) sock_env" where
  "lan = \<lparr>s_stack = (\<lambda>n w. replicate n 0), s_malloc = (\<lambda>w. (True, w)), s_socket = (\<lambda>w. (3, w)), s_close = (\<lambda>fd w. w),
     s_inet_addr = (\<lambda>addr. ()),
     s_sendto = (\<lambda>fd cmd p (m, q). (int (length cmd),
       case lan_deliver cmd m of None \<Rightarrow> (m, []) | Some m' \<Rightarrow> (m', lan_reply m m'))),
     s_select = (\<lambda>fd s us (m, q). (if q = [] then 0 else 1, (m, q))),
     s_recvfrom = (\<lambda>fd cap p (m, q). (int (length (take cap q)), take cap q, (), (m, []))),
     s_time = (\<lambda>w. (0x4B000000, w))\<rparr>"

definition lan_ok :: "dbg \<times> u8 list \<Rightarrow> bool" where
  "lan_ok w \<longleftrightarrow> (let m = fst w in dbg_ok m \<and> chosen_net_drv m = Some Ne2000 \<and> chosen_net_drv_open m \<and>
     ne2000_probe_base m = 0x300 \<and> ne2000_last_packet m = 0x170000 \<and> ne2000_xmit_packet m = 0x170800 \<and>
     my_ipv4_address m = [192, 168, 250, 254] \<and> my_eth_mac m = [0, 1, 2, 3, 4, 5])"

text \<open>The addresses outside the two buffers of the driver.\<close>

definition lan_user :: "u32 \<Rightarrow> bool" where
  "lan_user x \<longleftrightarrow> 0x1001 \<le> unat (x - 0x170000)"

section \<open>A command in the receive buffer\<close>

lemma lan_user_apart:
  assumes "range_in lan_user a n" and "unat (p - 0x170000) + k \<le> 0x1001" "0 < n" "0 < k"
  shows "apart a n p k"
proof -
  have a: "0x1001 \<le> unat (a - 0x170000)" using assms(1,3) by (auto simp: range_in_def lan_user_def dest: spec [of _ 0])
  have "a - p = (a - 0x170000) - (p - 0x170000)" by simp
  moreover have "p - 0x170000 \<le> a - 0x170000" using a assms(2,4) by (simp add: word_le_nat_alt)
  ultimately have "unat (a - p) = unat (a - 0x170000) - unat (p - 0x170000)" by (metis unat_sub)
  then have "k \<le> unat (a - p)" using a assms(2) by linarith
  moreover have "n \<le> unat (p - a)"
  proof (rule ccontr)
    assume "\<not> n \<le> unat (p - a)"
    then have "lan_user (a + of_nat (unat (p - a)))" using assms(1) unfolding range_in_def not_le by blast
    then show False using assms(2,4) by (simp add: lan_user_def)
  qed
  ultimately show ?thesis by (simp add: apart_def)
qed

lemma lan_user_byte:
  assumes "lan_user x" and "unat (p - 0x170000) + length bs \<le> 0x1001"
  shows "mem_write mm p bs x = mm x"
proof (cases "bs = []")
  case False
  have "range_in lan_user x 1" using assms(1) by (simp add: range_in_def)
  then have "apart x 1 p (length bs)" using lan_user_apart [of x 1 p "length bs"] assms(2) False by simp
  then show ?thesis using byte_write_apart [of bs x p mm] by (simp add: apart_def)
qed (simp add: mem_write_def)

lemma lan_packet_length: "length (lan_packet text) = 17 + length text"
  by (simp add: lan_packet_def udp_bytes_def)

lemma lan_packet_bytes:
  assumes "length text \<le> 1500" and "j + k \<le> 17 + length text"
  shows "load_bytes (mem_write mm 0x17001A (lan_packet text)) (0x17001A + of_nat j) k = take k (drop j (lan_packet text))"
proof -
  have "load_bytes (mem_write mm 0x17001A (lan_packet text)) 0x17001A (17 + length text) = lan_packet text"
    by (rule load_write_whole) (use assms in \<open>simp_all add: lan_packet_length\<close>)
  then show ?thesis using load_bytes_sub [OF assms(2), of "mem_write mm 0x17001A (lan_packet text)" "0x17001A"] by simp
qed

lemma lan_packet_fields:
  fixes mm0 :: memory
  assumes "length text \<le> 1500"
  defines "mm \<equiv> mem_write mm0 0x17001A (lan_packet text)"
  shows "load_bytes mm 0x17001A 4 = [192, 168, 250, 1]" "load_bytes mm 0x170024 2 = [3, 9]" "load_bytes mm 0x170028 2 = [0, 0]"
    "uint (ntoh16 (load16 mm 0x170026)) = 8 + int (length text)" "ntoh16 (load16 mm 0x170022) = 5000"
    "load_bytes mm 0x17002A (length text + 1) = text @ [0]"
proof -
  note b = lan_packet_bytes [OF assms(1), of _ _ mm0, folded mm_def]
  have "drop 16 (lan_packet text) = text @ [0]" by (simp add: lan_packet_def udp_bytes_def)
  then show "load_bytes mm 0x17002A (length text + 1) = text @ [0]" using b [of 16 "length text + 1"] by simp
  have "take 4 (lan_packet text) = [192, 168, 250, 1]" "take 2 (drop 10 (lan_packet text)) = [3, 9]"
    "take 2 (drop 14 (lan_packet text)) = [0, 0]" "take 2 (drop 8 (lan_packet text)) = [0x13, 0x88]"
    by (simp_all add: lan_packet_def udp_bytes_def)
  then show "load_bytes mm 0x17001A 4 = [192, 168, 250, 1]" "load_bytes mm 0x170024 2 = [3, 9]" "load_bytes mm 0x170028 2 = [0, 0]"
    using b [of 0 4] b [of 10 2] b [of 14 2] by simp_all
  have p: "load_bytes mm 0x170022 2 = [0x13, 0x88]"
    "load_bytes mm 0x170026 2 = [ucast (drop_bit 8 (of_nat (8 + length text) :: u16)), ucast (of_nat (8 + length text) :: u16)]"
    using b [of 8 2] b [of 12 2] by (simp_all add: lan_packet_def udp_bytes_def)
  show "ntoh16 (load16 mm 0x170022) = 5000" using p(1) by (simp add: load_bytes_pair ntoh16_load_iff)
  have "ntoh16 (load16 mm 0x170026) = of_nat (8 + length text)"
    using p(2) unfolding load_bytes_pair ntoh16_load_iff by simp
  then show "uint (ntoh16 (load16 mm 0x170026)) = 8 + int (length text)"
    using assms(1) by (simp add: uint_nat del: of_nat_add)
qed

lemma lan_command:
  assumes "length text \<le> 1500" "text = cmd @ rest"
  shows "udp_command (mem_write mm 0x17001A (lan_packet text)) 0x170022 (8 + int (length text)) cmd"
proof -
  note f = lan_packet_fields [OF assms(1), of mm]
  have "load_bytes (mem_write mm 0x17001A (lan_packet text)) 0x17002A (length cmd) = cmd"
    using load_bytes_sub [of 0 "length cmd" "length text + 1" "mem_write mm 0x17001A (lan_packet text)" "0x17002A"] f(6) assms(2) by simp
  then show ?thesis using f assms(2) by (simp add: udp_command_def)
qed

section \<open>Through the IPv4 filter\<close>

lemma lan_header_length [simp]: "length (lan_header text) = 12" "length (lan_ip n ck) = 12"
  by (simp_all add: lan_header_def lan_ip_def Let_def)

lemma mem_write_byte:
  assumes "j < length bs" and "length bs < 2 ^ 32"
  shows "mem_write mm p bs (p + of_nat j) = bs ! j"
  using assms by (simp add: mem_write_def)

lemma lan_ip_nth: "j < 12 \<Longrightarrow> j \<noteq> 10 \<Longrightarrow> j \<noteq> 11 \<Longrightarrow> lan_ip n ck ! j = lan_ip n ck' ! j"
  by (auto simp: lan_ip_def Let_def nth_Cons' numeral_eq_Suc less_Suc_eq)

lemma lan_chksum_accepted:
  fixes mm0 :: memory
  assumes "length text \<le> 1500"
  defines "mm \<equiv> mem_write mm0 0x17000E (lan_header text @ lan_packet text)"
  shows "(NOT (chksum_loop mm 0x17000E 5 10 0)) AND 0xFFFF = (ucast (ntoh16 (load16 mm (0x17000E + 10))) :: u32)"
proof -
  let ?z = "lan_ip (length text) 0 @ lan_packet text" and ?f = "lan_header text @ lan_packet text"
  have len: "length ?z < 2 ^ 32" "length ?f < 2 ^ 32" "29 \<le> length ?z" "29 \<le> length ?f" using assms(1) by (simp_all add: lan_packet_length)
  have b: "mm (0x17000E + of_nat j) = ?f ! j" "mem_write (\<lambda>_. 0) 0x17000E ?z (0x17000E + of_nat j) = ?z ! j" if "j < 20" for j
    unfolding mm_def using that len by (intro mem_write_byte; simp)+
  have eq: "?f ! j = ?z ! j" if "j \<noteq> 10" "j \<noteq> 11" for j
    using that lan_ip_nth [of j] by (cases "j < 12") (simp_all add: nth_append lan_header_def)
  have "chksum_loop mm 0x17000E 5 10 0 = chksum_loop (mem_write (\<lambda>_. 0) 0x17000E ?z) 0x17000E 5 10 0"
  proof (rule chksum_loop_cong)
    fix i :: nat assume i: "i < 10" "i \<noteq> 5"
    have o: "0x17000E + 2 * of_nat i = (0x17000E + of_nat (2 * i) :: u32)" "0x17000E + of_nat (2 * i) + 1 = (0x17000E + of_nat (2 * i + 1) :: u32)"
      by simp_all
    have "2 * i \<noteq> 11" "2 * i + 1 \<noteq> 10" by presburger+
    then have "?f ! (2 * i) = ?z ! (2 * i)" "?f ! (2 * i + 1) = ?z ! (2 * i + 1)" using i by (auto intro!: eq)
    then show "load16 mm (0x17000E + 2 * of_nat i) = load16 (mem_write (\<lambda>_. 0) 0x17000E ?z) (0x17000E + 2 * of_nat i)"
      using i unfolding load16_def o by (simp only: b)
  qed
  then have ck: "ucast (NOT (chksum_loop mm 0x17000E 5 10 0)) = lan_chksum text" by (simp add: lan_chksum_def)
  have "mm (0x17000E + 10) = ucast (drop_bit 8 (lan_chksum text))" "mm (0x17000E + 10 + 1) = ucast (lan_chksum text)"
    using b(1) [of 10] b(1) [of 11] by (simp_all add: nth_append lan_header_def lan_ip_def Let_def)
  then have "ntoh16 (load16 mm (0x17000E + 10)) = ucast (NOT (chksum_loop mm 0x17000E 5 10 0))" unfolding ntoh16_load_iff ck by simp
  moreover have "(x :: u32) AND 0xFFFF = take_bit 16 x" for x by (simp add: take_bit_eq_mask mask_eq_exp_minus_1)
  ultimately show ?thesis by (auto intro!: bit_word_eqI simp: bit_simps)
qed

text \<open>The state in which the driver hands the frame to the packet code.\<close>

definition lan_lower :: "u8 list \<Rightarrow> memory \<Rightarrow> memory" where
  "lan_lower text mm = mem_write mm 0x170000 ([0, 1, 2, 3, 4, 5, 9, 9, 9, 9, 9, 9, 8, 0] @ lan_header text)"

definition lan_received :: "u8 list \<Rightarrow> io_event list \<Rightarrow> dbg \<Rightarrow> dbg" where
  "lan_received text hs m = m\<lparr>mem := mem_write (lan_lower text (mem m)) 0x17001A (lan_packet text),
     ne2000_last_packet_size := of_nat (43 + length text), hist := hs\<rparr>"

lemma lan_received_fields [simp]:
  "mem (lan_received text hs m) = mem_write (lan_lower text (mem m)) 0x17001A (lan_packet text)"
  "hist (lan_received text hs m) = hs" "chosen_net_drv (lan_received text hs m) = chosen_net_drv m"
  "ne2000_probe_base (lan_received text hs m) = ne2000_probe_base m" "ne2000_last_packet (lan_received text hs m) = ne2000_last_packet m"
  "ne2000_xmit_packet (lan_received text hs m) = ne2000_xmit_packet m" "my_eth_mac (lan_received text hs m) = my_eth_mac m"
  "my_ipv4_address (lan_received text hs m) = my_ipv4_address m"
  by (simp_all add: lan_received_def)

lemma lan_frame_length: "length (lan_frame text) = 43 + length text"
  by (simp add: lan_frame_def lan_packet_length)

lemma lan_accept:
  fixes u :: dbg
  assumes "length text \<le> 1440" and "mem u = mem_write mm0 0x17000E (lan_header text @ lan_packet text)"
    and "my_ipv4_address u = [192, 168, 250, 254]"
  shows "ipv4_accept 0x17000E (29 + int (length text)) u" "mem u (0x17000E + 9) = 0x11" "unat (mem u 0x17000E) mod 16 = 5"
    "256 * unat (mem u (0x17000E + 2)) + unat (mem u (0x17000E + 3)) = 28 + length text"
proof -
  let ?f = "lan_header text @ lan_packet text" and ?n = "of_nat (28 + length text) :: u16"
  have f: "length ?f < 2 ^ 32" "29 \<le> length ?f" using assms(1) by (simp_all add: lan_packet_length)
  have b: "mem u (0x17000E + of_nat j) = ?f ! j" if "j < 20" for j
    using mem_write_byte [of j ?f mm0 "0x17000E"] that f assms(2) by simp
  have h: "mem u 0x17000E = 0x45" "mem u (0x17000E + 2) = ucast (drop_bit 8 ?n)" "mem u (0x17000E + 3) = ucast ?n"
    "mem u (0x17000E + 6) = 0" "mem u (0x17000E + 7) = 0" "mem u (0x17000E + 9) = 0x11"
    using b [of 0] b [of 2] b [of 3] b [of 6] b [of 7] b [of 9] by (simp_all add: nth_append lan_header_def lan_ip_def Let_def)
  have "256 * unat (mem u (0x17000E + 2)) + unat (mem u (0x17000E + 3)) = unat ?n" unfolding h(2,3) by (rule be_bytes)
  then show tot: "256 * unat (mem u (0x17000E + 2)) + unat (mem u (0x17000E + 3)) = 28 + length text"
    using assms(1) by (simp del: of_nat_add)
  have dst: "load_bytes (mem u) (0x17000E + 16) 4 = [192, 168, 250, 254]"
    using b [of 16] b [of 17] b [of 18] b [of 19] by (simp add: load_bytes_def upt_rec nth_append lan_packet_def)
  show "mem u (0x17000E + 9) = 0x11" "unat (mem u 0x17000E) mod 16 = 5" using h by simp_all
  have "length text \<le> 1500" using assms(1) by simp
  from lan_chksum_accepted [OF this, of mm0] show "ipv4_accept 0x17000E (29 + int (length text)) u"
    using h dst tot assms(2,3) by (subst ipv4_accept_tests) (simp_all add: memcmp_eq_0_iff)
qed

lemma lan_deliver_udp:
  assumes "lan_ok (m, q)" and "length text \<le> 1440"
  obtains hs where "lan_deliver text m = net_on_ipv4_udp (lan_card text m) cmd_eth 0x17001A 0x170022 (8 + int (length text)) (lan_received text hs m)"
    and "data_out 0x310 hs = data_out 0x310 (hist m)"
proof -
  let ?f = "lan_frame text" and ?e = "[0, 1, 2, 3, 4, 5, 9, 9, 9, 9, 9, 9, 8, 0] :: u8 list"
  let ?mm = "mem_write (mem m) 0x170000 ?f"
  have ok: "dbg_ok m" "chosen_net_drv m = Some Ne2000" "chosen_net_drv_open m" "ne2000_probe_base m = 0x300" "ne2000_last_packet m = 0x170000"
    "my_ipv4_address m = [192, 168, 250, 254]" "my_eth_mac m = [0, 1, 2, 3, 4, 5]" using assms(1) by (simp_all add: lan_ok_def)
  have len: "14 \<le> length ?f" "length ?f \<le> 1518" using assms(2) by (simp_all add: lan_frame_length)
  have s1: "?mm = mem_write (mem_write (mem m) 0x170000 (?e @ lan_header text)) 0x17001A (lan_packet text)"
    using mem_write_append [of "?e @ lan_header text" "lan_packet text" "mem m" "0x170000"] assms(2) by (simp add: lan_frame_def lan_packet_length)
  have s2: "?mm = mem_write (mem_write (mem m) 0x170000 ?e) 0x17000E (lan_header text @ lan_packet text)"
    using mem_write_append [of ?e "lan_header text @ lan_packet text" "mem m" "0x170000"] assms(2) by (simp add: lan_frame_def lan_packet_length)
  obtain hs where hs: "ne2000_get_packet (lan_card text m) m =
      (Some (int (length ?f) - 14, eth_load ?mm 0x170000, 0x17000E), lan_received text hs m)"
    "data_out 0x310 hs = data_out 0x310 (hist m)"
    using card_get [OF ok(4) len, of rtl8101_idle_hw] unfolding ok(5) lan_received_def lan_lower_def s1 lan_card_def lan_frame_length by auto
  let ?u = "lan_received text hs m"
  have "load_bytes ?mm 0x170000 14 = ?e"
    using load_write_whole [of ?f "43 + length text" "mem m" "0x170000"] load_bytes_sub [of 0 14 "43 + length text" ?mm "0x170000"] assms(2)
    by (simp add: lan_frame_length) (simp add: lan_frame_def)
  then have eth: "eth_load ?mm 0x170000 = cmd_eth" by (simp add: eth_load_def load_bytes_def upt_rec load16_def)
  have u: "mem ?u = mem_write (mem_write (mem m) 0x170000 ?e) 0x17000E (lan_header text @ lan_packet text)"
    using s1 s2 by (simp add: lan_lower_def)
  have get: "drv_get_packet (lan_card text m) Ne2000 m = Some (Some (29 + int (length text), cmd_eth, 0x17000E), ?u)"
    using hs(1) eth by (simp add: drv_get_packet_def lan_frame_length)
  have "my_ipv4_address ?u = [192, 168, 250, 254]" using ok(6) by (simp add: lan_received_def)
  note acc = lan_accept [OF assms(2) u this]
  have me: "length (my_ipv4_address m) = 4" "dst_mac cmd_eth = my_eth_mac m" "eth_type cmd_eth = 8" using ok by simp_all
  have "net_idle (lan_card text m) m = do {
      m' \<leftarrow> net_on_ipv4_udp (lan_card text m) cmd_eth (0x17000E + 12) (0x17000E + of_nat (4 * 5)) (int (28 + length text) - 4 * int 5) ?u;
      Some (net_put_packet (lan_card text m) 0x17000E m') }"
    using net_idle_udp [OF ok(3,2) get me acc(1,2)] unfolding acc(3,4) .
  moreover have "dbg_ok ?u" "chosen_net_drv ?u = Some Ne2000" using ok by (simp_all add: lan_received_def dbg_ok_def drv_ok_def)
  ultimately have "lan_deliver text m = map_option (drv_put_packet (lan_card text m) Ne2000 0x17000E)
      (net_on_ipv4_udp (lan_card text m) cmd_eth 0x17001A 0x170022 (8 + int (length text)) ?u)"
    unfolding lan_deliver_def using put_after_udp [of ?u Ne2000] by simp
  moreover have "drv_put_packet (lan_card text m) Ne2000 0x17000E = (\<lambda>v :: dbg. v)" by (rule ext) (simp add: drv_put_packet_def ne2000_put_packet_def)
  ultimately have "lan_deliver text m = net_on_ipv4_udp (lan_card text m) cmd_eth 0x17001A 0x170022 (8 + int (length text)) ?u"
    by (simp only: option.map_ident)
  then show ?thesis using hs(2) by (rule that)
qed

text \<open>The two numbers of a command, as the debugger finds them.\<close>

lemma lan_numbers:
  fixes mm :: memory and cmd rest :: "u8 list" and a b :: nat
  defines "text \<equiv> cmd @ print_hex a @ [0x20] @ print_hex b @ rest"
  assumes "length text \<le> 1500" and "hex_end (hd (rest @ [0]))"
  shows "number_args (mem_write mm 0x17001A (lan_packet text)) (0x17002A + of_nat (length cmd)) (print_hex a) (print_hex b)"
    and "load_bytes (mem_write mm 0x17001A (lan_packet text)) (0x17002A + of_nat (length (cmd @ print_hex a @ [0x20] @ print_hex b)))
      (length rest + 1) = rest @ [0]"
proof -
  let ?mm = "mem_write mm 0x17001A (lan_packet text)" and ?ab = "print_hex a @ [0x20] @ print_hex b"
  have t: "load_bytes ?mm 0x17002A (length text + 1) = text @ [0]" using lan_packet_fields(6) [OF assms(2)] by simp
  show r: "load_bytes ?mm (0x17002A + of_nat (length (cmd @ ?ab))) (length rest + 1) = rest @ [0]"
    using load_bytes_sub [of "length (cmd @ ?ab)" "length rest + 1" "length text + 1" ?mm "0x17002A"] t by (simp add: text_def)
  have "load_bytes ?mm (0x17002A + of_nat (length cmd)) (length ?ab) = ?ab"
    using load_bytes_sub [of "length cmd" "length ?ab" "length text + 1" ?mm "0x17002A"] t by (simp add: text_def)
  moreover have "?mm (0x17002A + of_nat (length (cmd @ ?ab))) = hd (rest @ [0])"
    using r by (simp only: Suc_eq_plus1 [symmetric] load_bytes_Suc) (metis list.sel(1))
  ultimately show "number_args ?mm (0x17002A + of_nat (length cmd)) (print_hex a) (print_hex b)"
    using assms(3) print_hex_text by (simp add: number_args_def add.assoc)
qed

section \<open>The answer on the wire\<close>

lemma lan_payload_frame:
  assumes "length (src_mac eth) = 6" "length (my_eth_mac m) = 6" "length (my_ipv4_address m) = 4" "length you = 4" "length pl \<le> 1491"
  shows "lan_payload (udp_frame eth m you src_port dst_port pl c1 c2) = pl"
proof -
  let ?f = "udp_frame eth m you src_port dst_port pl c1 c2"
  let ?h = "src_mac eth @ my_eth_mac m @ [8, 0] @ ipv4_bytes (of_nat (28 + length pl)) 0x11 c1 c2 (my_ipv4_address m) you"
  let ?n = "of_nat (8 + length pl) :: u16"
  have h: "length ?h = 34" using assms by (simp add: length_ipv4_bytes)
  have f: "?f = ?h @ udp_bytes dst_port src_port ?n @ pl" by (simp add: udp_frame_def)
  have d: "drop 34 ?f = udp_bytes dst_port src_port ?n @ pl" unfolding f using h by (simp only: drop_append) simp
  have len: "length ?f = 42 + length pl" unfolding f using h by (simp add: udp_bytes_def)
  have "?f ! 38 = drop 34 ?f ! 4" "?f ! 39 = drop 34 ?f ! 5" using nth_drop [of 34 ?f 4] nth_drop [of 34 ?f 5] len by simp_all
  then have b: "?f ! 38 = ucast (drop_bit 8 ?n)" "?f ! 39 = ucast ?n" unfolding d by (simp_all add: udp_bytes_def)
  have "unat (?f ! 38) * 256 + unat (?f ! 39) = unat ?n" unfolding b using be_bytes [of ?n] by (simp add: mult.commute)
  then have n: "unat (?f ! 38) * 256 + unat (?f ! 39) - 8 = length pl" using assms(5) by (simp del: of_nat_add)
  have "drop 42 ?f = drop 8 (drop 34 ?f)" by simp
  also have "\<dots> = pl" unfolding d by (simp add: udp_bytes_def)
  finally show ?thesis unfolding lan_payload_def n by simp
qed

lemma lan_ready:
  assumes "lan_ok (m, q)" "n \<le> 1491" "data_out 0x310 hs = data_out 0x310 (hist m)"
    and "u = (lan_received text hs m)\<lparr>mem := mm\<rparr>"
  obtains m1 hs1 where "answer_ready (lan_card text' m') Ne2000 cmd_eth 0x17001A n 0x17080E u m1"
    and "mem m1 = eth_store mm 0x170800 (reply_eth 0x800 cmd_eth m)"
    and "tx_state m1 = (hs1, 0x300, 0x170000, 0x170800, of_nat (42 + n))" "data_out 0x310 hs1 = data_out 0x310 (hist m)"
proof -
  have r: "reply_eth 0x800 cmd_eth u = reply_eth 0x800 cmd_eth m" using assms(4) by (simp add: reply_eth_def)
  have u: "chosen_net_drv u = Some Ne2000" "ne2000_probe_base u = 0x300" "ne2000_xmit_packet u = 0x170800"
    "length (my_eth_mac u) = 6" "length (my_ipv4_address u) = 4" "ne2000_last_packet u = 0x170000" "hist u = hs" "mem u = mm"
    using assms(1,4) by (simp_all add: lan_ok_def)
  have e: "length (src_mac cmd_eth) = 6" "apart 0x17001A 4 0x17080E (28 + n)" using assms(2) by (simp_all add: apart_def)
  obtain m1 hs1 where "answer_ready (lan_card text' m') Ne2000 cmd_eth 0x17001A n 0x17080E u m1"
    "mem m1 = eth_store (mem u) 0x170800 (reply_eth 0x800 cmd_eth u)"
    "tx_state m1 = (hs1, 0x300, ne2000_last_packet u, 0x170800, of_nat (42 + n))" "data_out 0x310 hs1 = data_out 0x310 (hist u)"
    unfolding lan_card_def
    by (rule card_ready [OF u(1-3) assms(2) u(4,5) e, of "length (data_in 0x310 (hist m'))" "lan_frame text'" rtl8101_idle_hw])
  then show ?thesis using that assms(3) unfolding u(6-8) r by simp
qed

lemma lan_answered:
  assumes "lan_ok (m, q)" and "lan_deliver text m = drv_send_packet (lan_card text m) Ne2000 m2"
    and "tx_state m2 = (hs, 0x300, 0x170000, 0x170800, of_nat (42 + length pl))" "data_out 0x310 hs = data_out 0x310 (hist m)"
    and "load_bytes (mem m2) 0x170800 (42 + length pl) = udp_frame cmd_eth u you 5000 777 pl c1 c2"
    and "length (my_eth_mac u) = 6" "length (my_ipv4_address u) = 4" "length you = 4" "length pl \<le> 1491"
  shows "\<exists>m3. lan_deliver text m = Some m3 \<and> lan_reply m m3 = pl \<and> mem m3 = mem m2 \<and> lan_ok (m3, q')"
proof -
  have t: "hist m2 = hs" "ne2000_probe_base m2 = 0x300" "ne2000_last_packet m2 = 0x170000" "ne2000_xmit_packet m2 = 0x170800"
    "ne2000_xmit_packet_size m2 = of_nat (42 + length pl)" using assms(3) by (simp_all add: tx_state_def)
  have sz: "unat (ne2000_xmit_packet_size m2) = 42 + length pl" using assms(9) by (simp add: t(5) del: of_nat_add)
  then have "ne2000_xmit_packet_size m2 \<noteq> 0" by (metis add_is_0 unsigned_0 zero_neq_numeral)
  from card_send [OF t(2) this, of "length (data_in 0x310 (hist m))" "lan_frame text" rtl8101_idle_hw] obtain m3 where
    m3: "drv_send_packet (lan_card text m) Ne2000 m2 = Some m3"
      "data_out 0x310 (hist m3) = data_out 0x310 (hist m2) @ load_bytes (mem m2) (ne2000_xmit_packet m2) (unat (ne2000_xmit_packet_size m2))"
      "mem m3 = mem m2" "ne2000_probe_base m3 = 0x300" "ne2000_last_packet m3 = ne2000_last_packet m2"
    unfolding lan_card_def by blast
  have "drop (length (data_out 0x310 (hist m))) (data_out 0x310 (hist m3)) = udp_frame cmd_eth u you 5000 777 pl c1 c2"
    unfolding m3(2) t(1,4) sz assms(4,5) by simp
  then have "lan_reply m m3 = pl" unfolding lan_reply_def using assms(6-9) by (simp add: lan_payload_frame)
  moreover have "dbg_step m m3" using assms(2) m3(1) unfolding lan_deliver_def by (intro net_idle_step) simp
  then have "lan_ok (m3, q')" using assms(1) m3(4,5) t(3) by (simp add: lan_ok_def dbg_step_def)
  ultimately show ?thesis using assms(2) m3(1,3) by simp
qed

lemma lan_exchange:
  assumes "lan_deliver cmd m = Some m3" "lan_reply m m3 = r" "r \<noteq> []" "length r \<le> cap"
  shows "exchange lan 3 () cap cmd r (m, q) (m3, [])"
  using assms by (simp add: exchange_def lan_def)

lemma lan_packet_agree: "length text \<le> 1500 \<Longrightarrow> agree lan_user mm (mem_write (lan_lower text mm) 0x17001A (lan_packet text))"
  by (simp add: agree_def lan_user_byte lan_packet_length lan_lower_def)

lemma lan_header_agree: "length (src_mac eth) = 6 \<Longrightarrow> length (my_eth_mac m) = 6 \<Longrightarrow>
  agree lan_user mm (eth_store mm 0x170800 (reply_eth 0x800 eth m))"
  by (simp add: agree_def eth_store_def lan_user_byte reply_eth_bytes)

lemma lan_only_agree: "only_in mm mm' 0x17080E k \<Longrightarrow> k \<le> 0x7F3 \<Longrightarrow> agree lan_user mm mm'"
  unfolding agree_def only_in_def
proof (intro allI impI)
  fix x assume a: "\<forall>x. k \<le> unat (x - 0x17080E) \<longrightarrow> mm' x = mm x" "k \<le> 0x7F3" "lan_user x"
  show "mm' x = mm x"
  proof (cases "k = 0")
    case False
    have "range_in lan_user x 1" using a(3) by (simp add: range_in_def)
    then have "apart x 1 0x17080E k" using a(2) False by (intro lan_user_apart) simp_all
    then show ?thesis using a(1) by (simp add: apart_def)
  qed (use a in simp)
qed

section \<open>READ over the wire\<close>

lemma unat_wide: "unat (ucast (a :: u32) :: u64) = unat a"
proof -
  have "unat a < 2 ^ 64" by (rule less_trans [OF unat_bounds(3)]) simp
  then show ?thesis by (simp add: unsigned_ucast_eq take_bit_nat_eq_self)
qed

lemma lan_read_addr:
  fixes addr :: u64
  defines "a \<equiv> ucast addr :: u32"
  assumes "lan_ok (m, q)" "range_in lan_user a n" "0 < n" "n \<le> 1400"
  shows "\<exists>m3. lan_deliver (read_text addr (int n)) m = Some m3 \<and> lan_ok (m3, []) \<and>
    lan_reply m m3 = reply_ok @ hex_digits a 8 @ [0x0A] @ load_bytes (mem m) a n \<and> agree lan_user (mem m) (mem m3)"
proof -
  let ?t = "read_text addr (int n)" and ?h = "lan_card (read_text addr (int n)) m"
  let ?pl = "reply_ok @ hex_digits a 8 @ [0x0A] @ load_bytes (mem m) a n"
  have len: "length ?t \<le> 1440" "length ?t \<le> 1500" using command_lengths(3) [of "int n" addr] assms(5) by simp_all
  obtain hs where del: "lan_deliver ?t m = net_on_ipv4_udp ?h cmd_eth 0x17001A 0x170022 (8 + int (length ?t)) (lan_received ?t hs m)"
    and hs: "data_out 0x310 hs = data_out 0x310 (hist m)" by (rule lan_deliver_udp [OF assms(2) len(1)])
  let ?m = "lan_received ?t hs m"
  have t: "?t = bytes_of ''READ '' @ print_hex (unat addr) @ [0x20] @ print_hex n @ []" by (simp add: read_text_def)
  have l5: "length (bytes_of ''READ '') = 5" by (simp add: bytes_of_def)
  have "hex_end 0" by code_simp
  then have args: "number_args (mem ?m) (0x17002A + 5) (print_hex (unat addr)) (print_hex n)"
    using lan_numbers(1) [of "bytes_of ''READ ''" "unat addr" n "[]" "lan_lower ?t (mem m)", folded t] len l5 by simp
  have v: "hex_value 0 (print_hex (unat addr)) = a" "min 1400 (unat (hex_value 0 (print_hex n))) = n"
    using assms(5) by (simp_all add: hex_value_print a_def)
  have "udp_command (mem ?m) 0x170022 (8 + int (length ?t)) (bytes_of ''READ '')" using lan_command [OF len(2) t] by simp
  from net_on_ipv4_udp_read [OF this] have d: "lan_deliver ?t m = udp_read ?h cmd_eth 0x17001A 5000 777 0x17002A ?m"
    using lan_packet_fields(5) [OF len(2)] by (simp add: del)
  have n: "12 + n \<le> 1491" and up: "?m = ?m\<lparr>mem := mem ?m\<rparr>" using assms(5) by simp_all
  obtain m1 hs1 where r: "answer_ready ?h Ne2000 cmd_eth 0x17001A (12 + n) 0x17080E ?m m1"
    and m1: "mem m1 = eth_store (mem ?m) 0x170800 (reply_eth 0x800 cmd_eth m)"
    and tx: "tx_state m1 = (hs1, 0x300, 0x170000, 0x170800, of_nat (42 + (12 + n)))" "data_out 0x310 hs1 = data_out 0x310 (hist m)"
    by (rule lan_ready [OF assms(2) n hs up])
  have ap: "apart a n 0x17080E (40 + n)" using assms by (intro lan_user_apart) simp_all
  have mac: "length (my_eth_mac m) = 6" "length (my_ipv4_address m) = 4" using assms(2) by (simp_all add: lan_ok_def)
  have ag1: "agree lan_user (mem m) (mem m1)"
    using agree_trans [OF lan_packet_agree [OF len(2)] lan_header_agree [of cmd_eth m]] m1 mac by simp
  have l: "load_bytes (mem m1) a n = load_bytes (mem m) a n" using agree_load [OF ag1 assms(3)] .
  obtain m2 c1 c2 where m2: "udp_read ?h cmd_eth 0x17001A 5000 777 0x17002A ?m = drv_send_packet ?h Ne2000 m2"
    "load_bytes (mem m2) (0x17080E - 14) (54 + n) = udp_frame cmd_eth ?m (load_bytes (mem m1) 0x17001A 4) 5000 777 ?pl c1 c2"
    "only_in (mem m1) (mem m2) 0x17080E (40 + n)" "tx_state m2 = tx_state m1"
    using udp_read_frame [of ?m "0x17002A" "print_hex (unat addr)" "print_hex n" ?h Ne2000 cmd_eth "0x17001A" "0x17080E" m1 5000 777,
        unfolded v l, OF args r ap] by blast
  have pl: "length ?pl = 12 + n" by simp
  have f: "load_bytes (mem m2) 0x170800 (42 + length ?pl) = udp_frame cmd_eth ?m (load_bytes (mem m1) 0x17001A 4) 5000 777 ?pl c1 c2"
    using m2(2) unfolding pl by simp
  obtain m3 where m3: "lan_deliver ?t m = Some m3" "lan_reply m m3 = ?pl" "mem m3 = mem m2" "lan_ok (m3, [])"
    using lan_answered [OF assms(2) d [unfolded m2(1)] _ tx(2) f] m2(4) tx(1) mac n unfolding pl by auto
  have "agree lan_user (mem m1) (mem m2)" using m2(3) by (rule lan_only_agree) (use assms(5) in simp)
  then show ?thesis using m3 agree_trans [OF ag1] by auto
qed

lemma ucast_wide: "(ucast (ucast (a :: u32) :: u64) :: u32) = a"
  by (rule bit_word_eqI) (simp add: bit_simps)

lemmas lan_read = lan_read_addr [of _ _ "ucast a" for a :: u32, unfolded ucast_wide]

section \<open>WRITE over the wire\<close>

lemma lan_write:
  assumes "lan_ok (m, q)" "range_in lan_user a (length bs)" "bs \<noteq> []" "length bs \<le> 1400"
  shows "\<exists>m3. lan_deliver (write_text (ucast a) seq @ bs) m = Some m3 \<and> lan_ok (m3, []) \<and>
    lan_reply m m3 = reply_ok @ hex_digits a 8 @ [0x20] @ hex_digits seq 8 \<and> agree lan_user (mem_write (mem m) a bs) (mem m3)"
proof -
  let ?t = "write_text (ucast a) seq @ bs" and ?h = "lan_card (write_text (ucast a) seq @ bs) m"
  let ?as = "print_hex (unat a)" and ?ss = "print_hex (unat seq)" and ?lm = "lan_lower (write_text (ucast a) seq @ bs) (mem m)"
  let ?mm = "mem_write ?lm 0x17001A (lan_packet ?t)" and ?k = "6 + length (?as @ [0x20] @ ?ss)"
  let ?pl = "reply_ok @ hex_digits a 8 @ [0x20] @ hex_digits seq 8"
  have wt: "length (write_text (ucast a) seq) \<le> 32" by (rule command_lengths)
  then have len: "length ?t \<le> 1440" "length ?t \<le> 1500" using assms(4) by simp_all
  obtain hs where del: "lan_deliver ?t m = net_on_ipv4_udp ?h cmd_eth 0x17001A 0x170022 (8 + int (length ?t)) (lan_received ?t hs m)"
    and hs: "data_out 0x310 hs = data_out 0x310 (hist m)" by (rule lan_deliver_udp [OF assms(1) len(1)])
  let ?m = "lan_received ?t hs m"
  let ?stored = "?m\<lparr>mem := mem_write ?mm a bs\<rparr>"
  have t: "?t = bytes_of ''WRITE '' @ ?as @ [0x20] @ ?ss @ 0x0A # bs" by (simp add: write_text_def unat_wide)
  have l6: "length (bytes_of ''WRITE '') = 6" by (simp add: bytes_of_def)
  have k: "length (write_text (ucast a) seq) = ?k + 1" by (simp add: write_text_def unat_wide l6)
  have "hex_end 0x0A" by code_simp
  then have args: "number_args (mem ?m) (0x17002A + 6) ?as ?ss"
    and rest: "load_bytes (mem ?m) (0x17002A + of_nat ?k) (length bs + 2) = 0x0A # bs @ [0]"
    using lan_numbers [of "bytes_of ''WRITE ''" "unat a" "unat seq" "0x0A # bs" ?lm, folded t] len l6 by (simp_all add: add.assoc)
  have v: "hex_value 0 ?as = a" "hex_value 0 ?ss = seq" by (simp_all add: hex_value_print)
  have nl: "mem ?m (0x17002A + of_nat ?k) = 0x0A"
    using rest by (simp add: load_bytes_Suc numeral_2_eq_2)
  have data: "load_bytes (mem ?m) (0x17002A + of_nat (?k + 1)) (length bs) = bs"
    using load_bytes_sub [of 1 "length bs" "length bs + 2" "mem ?m" "0x17002A + of_nat ?k"] rest by (simp add: add.assoc add.commute)
  have cmd: "udp_command (mem ?m) 0x170022 (8 + int (length ?t)) (bytes_of ''WRITE '')" using lan_command [OF len(2) t] by simp
  have "load_bytes (mem ?m) 0x17002A 6 = bytes_of ''WRITE ''"
    using lan_packet_fields(6) [OF len(2), of ?lm] load_bytes_sub [of 0 6 "length ?t + 1" ?mm "0x17002A"] t l6 by simp
  then have "load_bytes (mem ?m) 0x17002A 6 ! 5 = bytes_of ''WRITE '' ! 5" by simp
  then have sp: "mem ?m (0x17002A + 5) = 0x20" by (simp add: bytes_of_def)
  have dl: "(of_int (if uint (ntoh16 (load16 (mem ?m) (0x170022 + 4))) > (8 + int (length ?t)) - 8 then (8 + int (length ?t)) - 8
      else uint (ntoh16 (load16 (mem ?m) (0x170022 + 4)))) :: u32) = of_nat (?k + 1 + length bs)"
    using lan_packet_fields(4) [OF len(2), of ?lm] k by simp
  have d: "lan_deliver ?t m = udp_write ?h cmd_eth 0x17001A 5000 777 0x17002A (of_nat (?k + 1 + length bs)) ?m"
    using net_on_ipv4_udp_write [OF cmd, of ?h cmd_eth "0x17001A", unfolded dl] lan_packet_fields(5) [OF len(2)] by (simp add: del)
  have n: "20 \<le> (1491 :: nat)" by simp
  obtain m1 hs1 where r: "answer_ready ?h Ne2000 cmd_eth 0x17001A 20 0x17080E ?stored m1"
    and m1: "mem m1 = eth_store (mem_write ?mm a bs) 0x170800 (reply_eth 0x800 cmd_eth m)"
    and tx: "tx_state m1 = (hs1, 0x300, 0x170000, 0x170800, of_nat (42 + 20))" "data_out 0x310 hs1 = data_out 0x310 (hist m)"
    by (rule lan_ready [OF assms(1) n hs refl])
  have fits: "unat (0x17002A :: u32) + ?k + 1 + length bs < 2 ^ 32" using wt k assms(4) by simp
  obtain m2 c1 c2 where m2: "udp_write ?h cmd_eth 0x17001A 5000 777 0x17002A (of_nat (?k + 1 + length bs)) ?m = drv_send_packet ?h Ne2000 m2"
    "load_bytes (mem m2) (0x17080E - 14) 62 = udp_frame cmd_eth ?m (load_bytes (mem m1) 0x17001A 4) 5000 777 ?pl c1 c2"
    "only_in (mem m1) (mem m2) 0x17080E 48" "tx_state m2 = tx_state m1"
    using udp_write_frame [OF args sp nl data fits, unfolded v, of ?h Ne2000 cmd_eth "0x17001A" "0x17080E" m1 5000 777] r by auto
  have mac: "length (my_eth_mac m) = 6" "length (my_ipv4_address m) = 4" using assms(1) by (simp_all add: lan_ok_def)
  have ag1: "agree lan_user (mem_write (mem m) a bs) (mem m1)"
    using agree_trans [OF agree_write [OF lan_packet_agree [OF len(2)]] lan_header_agree [of cmd_eth m]] m1 mac by simp
  have pl: "length ?pl = 20" by simp
  have f: "load_bytes (mem m2) 0x170800 (42 + length ?pl) = udp_frame cmd_eth ?m (load_bytes (mem m1) 0x17001A 4) 5000 777 ?pl c1 c2"
    using m2(2) unfolding pl by simp
  obtain m3 where m3: "lan_deliver ?t m = Some m3" "lan_reply m m3 = ?pl" "mem m3 = mem m2" "lan_ok (m3, [])"
    using lan_answered [OF assms(1) d [unfolded m2(1)] _ tx(2) f] m2(4) tx(1) mac n unfolding pl by auto
  have "agree lan_user (mem m1) (mem m2)" using m2(3) by (rule lan_only_agree) simp
  then show ?thesis using m3 agree_trans [OF ag1] by auto
qed

section \<open>The debugger keeps the client's contract\<close>

interpretation lan: debug_link lan 3 "()" lan_ok "\<lambda>w. mem (fst w)" lan_user
proof
  fix n and w :: "dbg \<times> u8 list"
  show "length (s_stack lan n w) = n" by (simp add: lan_def)
next
  fix fd cap p rd bs p' and w w' :: "dbg \<times> u8 list"
  assume "s_recvfrom lan fd cap p w = (rd, bs, p', w')"
  then show "rd \<le> int cap \<and> length bs = nat rd" by (auto simp: lan_def split: prod.splits)
next
  fix a n and w :: "dbg \<times> u8 list"
  assume w: "lan_ok w" "range_in lan_user a n" "0 < n" "n \<le> 1400"
  obtain m q where "w = (m, q)" by (cases w)
  with w obtain m3 where "lan_deliver (read_text (ucast a) (int n)) m = Some m3" "lan_ok (m3, [])"
    "lan_reply m m3 = reply_ok @ hex_digits a 8 @ [0x0A] @ load_bytes (mem m) a n" "agree lan_user (mem m) (mem m3)"
    using lan_read by blast
  with w \<open>w = (m, q)\<close> show "\<exists>w3. lan_ok w3 \<and>
      exchange lan 3 () 1999 (read_text (ucast a) (int n)) (reply_ok @ hex_digits a 8 @ [0x0A] @ load_bytes (mem (fst w)) a n) w w3 \<and>
      agree lan_user (mem (fst w)) (mem (fst w3))"
    by (intro exI [of _ "(m3, [])"]) (auto intro!: lan_exchange)
next
  fix a seq and bs :: "u8 list" and w :: "dbg \<times> u8 list"
  assume w: "lan_ok w" "range_in lan_user a (length bs)" "bs \<noteq> []" "length bs \<le> 1400"
  obtain m q where "w = (m, q)" by (cases w)
  with w obtain m3 where "lan_deliver (write_text (ucast a) seq @ bs) m = Some m3" "lan_ok (m3, [])"
    "lan_reply m m3 = reply_ok @ hex_digits a 8 @ [0x20] @ hex_digits seq 8" "agree lan_user (mem_write (mem m) a bs) (mem m3)"
    using lan_write by blast
  with w \<open>w = (m, q)\<close> show "\<exists>w3. lan_ok w3 \<and>
      exchange lan 3 () 2199 (write_text (ucast a) seq @ bs) (reply_ok @ hex_digits a 8 @ [0x20] @ hex_digits seq 8) w w3 \<and>
      agree lan_user (mem_write (mem (fst w)) a bs) (mem (fst w3))"
    by (intro exI [of _ "(m3, [])"]) (auto intro!: lan_exchange)
next
  fix t and w w' :: "dbg \<times> u8 list"
  assume "lan_ok w" "s_time lan w = (t, w')"
  then show "lan_ok w' \<and> agree lan_user (mem (fst w)) (mem (fst w'))" by (simp add: lan_def agree_def)
qed


text \<open>A connection to an idle debugger.\<close>

definition lan_example :: "(unit, dbg \<times> u8 list) remote_eth_connection" where
  "lan_example = \<lparr>sock_fd = 3, ip_addr = (), machtype = replicate 32 0, write_seq = 0, outside = (dbg_example (\<lambda>_. 0x5A), [])\<rparr>"

lemma lan_example_ok: "sock_fd lan_example = 3" "lan_ok (outside lan_example)" "mem (fst (outside lan_example)) = (\<lambda>_. 0x5A)"
  by (simp_all add: lan_example_def lan_ok_def dbg_ok_def drv_ok_def dbg_example_defs)

lemma lan_example_range:
  assumes "n \<le> 4"
  shows "range_in lan_user 0x100000 n"
  unfolding range_in_def
proof (intro allI impI)
  fix i assume "i < n"
  then have "i = 0 \<or> i = 1 \<or> i = 2 \<or> i = 3" using assms by linarith
  then show "lan_user (0x100000 + of_nat i)" by (auto simp: lan_user_def)
qed






end
