(* ===== verification/S_lib.thy ===== *)
theory S_lib
  imports E_lib
begin

text \<open>
  The client library of the serial debugger, \<^verbatim>\<open>src/comm/s_lib.c\<close>. The calls on the serial line and the clock are
  parameters. A loop that waits for ever is \<open>None\<close>; a failing assertion is an outcome of its own.
\<close>

section \<open>The serial line\<close>

text \<open>
  \<^verbatim>\<open>read\<close> is given the room there is and gives its result and the bytes it stored. A terminal's attributes are the four
  flag words of \<^verbatim>\<open>struct termios\<close>.
\<close>

record termios =
  c_iflag :: u32
  c_oflag :: u32
  c_cflag :: u32
  c_lflag :: u32

record 'w tty_env =
  t_read :: "nat \<Rightarrow> 'w \<Rightarrow> int \<times> u8 list \<times> 'w"
  t_write :: "u8 list \<Rightarrow> 'w \<Rightarrow> int \<times> 'w"
  t_select :: "u32 \<Rightarrow> u32 \<Rightarrow> 'w \<Rightarrow> int \<times> 'w"
  t_time :: "'w \<Rightarrow> int \<times> 'w"
  t_nonblock :: "bool \<Rightarrow> 'w \<Rightarrow> 'w"
  t_getattr :: "'w \<Rightarrow> termios option \<times> 'w"
  t_setattr :: "termios \<Rightarrow> 'w \<Rightarrow> bool \<times> 'w"

datatype rs_outcome = Returned int | Assertion_failed

section \<open>Reading and sending\<close>

text \<open>\<^verbatim>\<open>read_forced\<close>, with the bytes read so far; its count of them is their number.\<close>

partial_function (option) read_forced_loop ::
  "'w tty_env \<Rightarrow> nat \<Rightarrow> u8 list \<Rightarrow> 'w \<Rightarrow> (int \<times> u8 list \<times> 'w) option" where
  "read_forced_loop env sz got w =
    (if sz > 0
     then (case t_read env sz w of (rd, bs, w) \<Rightarrow>
       if rd = 0 then Some (if got = [] then -1 else int (length got), got, w)
       else if rd < 0 then read_forced_loop env sz got w
       else read_forced_loop env (sz - nat rd) (got @ bs) w)
     else Some (int (length got), got, w))"

definition read_forced :: "'w tty_env \<Rightarrow> nat \<Rightarrow> 'w \<Rightarrow> (int \<times> u8 list \<times> 'w) option" where
  "read_forced env sz w = read_forced_loop env sz [] w"

partial_function (option) send_bytes :: "'w tty_env \<Rightarrow> u8 list \<Rightarrow> 'w \<Rightarrow> 'w option" where
  "send_bytes env cmd w =
    (if length cmd > 0
     then (case t_write env cmd w of (wd, w) \<Rightarrow>
       if wd > 0 then send_bytes env (drop (nat wd) cmd) w
       else if wd = 0 then Some w
       else send_bytes env cmd w)
     else Some w)"

partial_function (option) send_newline :: "'w tty_env \<Rightarrow> 'w \<Rightarrow> (bool \<times> 'w) option" where
  "send_newline env w = (case t_write env [0x0A] w of (wd, w) \<Rightarrow>
     if wd = -1 then send_newline env w else Some (wd \<noteq> 0, w))"

definition remote_rs232_send_command :: "'w tty_env \<Rightarrow> u8 list \<Rightarrow> 'w \<Rightarrow> (bool \<times> 'w) option" where
  "remote_rs232_send_command env cmd w = do { w \<leftarrow> send_bytes env cmd w; send_newline env w }"

text \<open>
  The loop of \<^verbatim>\<open>remote_rs232_get_response\<close>: \<open>wp\<close> is what is in the buffer of \<open>len\<close> bytes. As a signed character, only the codes
  0 to 31 are left out.
\<close>

partial_function (option) get_response_loop ::
  "'w tty_env \<Rightarrow> nat \<Rightarrow> int \<Rightarrow> u8 list \<Rightarrow> 'w \<Rightarrow> (int \<times> u8 list \<times> 'w) option" where
  "get_response_loop env len et wp w =
    (case t_time env w of (t, w) \<Rightarrow>
       if t \<ge> et then Some (-1, wp, w)
       else (case t_read env 1 w of (r, bs, w) \<Rightarrow>
         if r = 0 then Some (-1, wp, w)
         else if r < 0 then get_response_loop env len et wp w
         else let c = bs ! 0;
                  wp = (if sint c \<ge> 32 \<or> sint c < 0 then (if length wp < len - 1 then wp @ [c] else wp) else wp)
              in if c \<noteq> 0x0A then get_response_loop env len et wp w else Some (0, wp, w)))"

definition remote_rs232_get_response ::
  "'w tty_env \<Rightarrow> nat \<Rightarrow> u64 \<Rightarrow> 'w \<Rightarrow> (int \<times> u8 list \<times> 'w) option" where
  "remote_rs232_get_response env len timeout w = do {
     let (t, w) = t_time env w;
     let et = t + uint ((timeout + 999999) div 1000000) + 1 + 1;
     let w = t_nonblock env True w;
     (ret, wp, w) \<leftarrow> get_response_loop env len et [] w;
     Some (if ret = 0 \<and> take 2 (wp @ [0]) = bytes_of ''OK'' then 1 else ret, wp, t_nonblock env False w) }"

section \<open>Commands\<close>

text \<open>A command whose answer is a line.\<close>

definition rs232_line_command :: "'w tty_env \<Rightarrow> u8 list \<Rightarrow> u64 \<Rightarrow> 'w \<Rightarrow> (bool \<times> u8 list \<times> 'w) option" where
  "rs232_line_command env cmd timeout w = do {
     (sent, w) \<leftarrow> remote_rs232_send_command env cmd w;
     if \<not> sent then Some (False, [], w)
     else do { (r, line, w) \<leftarrow> remote_rs232_get_response env 128 timeout w; Some (r = 1, line, w) } }"

definition tolower :: "u8 \<Rightarrow> u8" where
  "tolower c = (if 0x41 \<le> c \<and> c \<le> 0x5A then c + 0x20 else c)"

definition remote_rs232_test :: "'w tty_env \<Rightarrow> 'w \<Rightarrow> (bool \<times> 'w) option" where
  "remote_rs232_test env w = do {
     (ok, line, w) \<leftarrow> rs232_line_command env (bytes_of ''TEST'') 1000000 w;
     if \<not> ok then Some (False, w)
     else if map tolower (take 11 line) = map tolower (bytes_of ''OK Function'')
     then do { (r, line, w) \<leftarrow> remote_rs232_get_response env 128 1000000 w; Some (r = 1, w) }
     else Some (True, w) }"

definition remote_rs232_8086 :: "'w tty_env \<Rightarrow> 'w \<Rightarrow> (bool \<times> u8 list \<times> 'w) option" where
  "remote_rs232_8086 env w = rs232_line_command env (bytes_of ''8086'') 1000000 w"

definition remote_rs232_286 :: "'w tty_env \<Rightarrow> 'w \<Rightarrow> (bool \<times> u8 list \<times> 'w) option" where
  "remote_rs232_286 env w = rs232_line_command env (bytes_of ''286'') 1000000 w"

definition remote_rs232_386_16 :: "'w tty_env \<Rightarrow> 'w \<Rightarrow> (bool \<times> u8 list \<times> 'w) option" where
  "remote_rs232_386_16 env w = rs232_line_command env (bytes_of ''386-16'') 1000000 w"

definition remote_rs232_386_32 :: "'w tty_env \<Rightarrow> 'w \<Rightarrow> (bool \<times> u8 list \<times> 'w) option" where
  "remote_rs232_386_32 env w = rs232_line_command env (bytes_of ''386-32'') 1000000 w"

definition remote_rs232_x64 :: "'w tty_env \<Rightarrow> 'w \<Rightarrow> (bool \<times> u8 list \<times> 'w) option" where
  "remote_rs232_x64 env w = rs232_line_command env (bytes_of ''x64'') 1000000 w"

text \<open>
  Reading memory. The inner loop of \<^verbatim>\<open>remote_rs232_read\<close> (lines 162 to 173) gives the bytes stored; \<^verbatim>\<open>assert\<close> compares the
  positive result with what is left.
\<close>

partial_function (option) rs232_read_loop ::
  "'w tty_env \<Rightarrow> u32 \<Rightarrow> u8 list \<Rightarrow> 'w \<Rightarrow> (rs_outcome option \<times> u8 list \<times> 'w) option" where
  "rs232_read_loop env r got w =
    (if r > 0
     then (case t_read env (unat r) w of (rd, bs, w) \<Rightarrow>
       if rd = 0 then Some (Some (Returned (-1)), got, w)
       else if rd < 0 then rs232_read_loop env r got w
       else if \<not> (of_int rd :: u32) \<le> r then Some (Some Assertion_failed, got, w)
       else rs232_read_loop env (r - of_int rd) (got @ bs) w)
     else Some (None, got, w))"

text \<open>The end of the answer (lines 178 to 188).\<close>

definition rs232_read_end :: "'w tty_env \<Rightarrow> u8 list \<Rightarrow> 'w \<Rightarrow> (rs_outcome \<times> u8 list \<times> 'w) option" where
  "rs232_read_end env got w = do {
     (rd, line, w) \<leftarrow> read_forced env 2 w;
     Some (if rd \<noteq> 2 then Returned (-1) else if line \<noteq> [0x0D, 0x0A] then Returned (-1) else Returned 1, got, w) }"

definition readb_text :: "u64 \<Rightarrow> u32 \<Rightarrow> u8 list" where
  "readb_text addr count = bytes_of ''READB '' @ print_hex (unat addr) @ [0x20] @ print_hex (unat count)"

definition remote_rs232_read :: "'w tty_env \<Rightarrow> u64 \<Rightarrow> u32 \<Rightarrow> 'w \<Rightarrow> (rs_outcome \<times> u8 list \<times> 'w) option" where
  "remote_rs232_read env addr count w = do {
     (sent, w) \<leftarrow> remote_rs232_send_command env (readb_text addr count) w;
     if \<not> sent then Some (Returned 0, [], w)
     else do {
       let (s, w) = t_select env 3 0 w;
       if s \<noteq> 1 then Some (Returned (-1), [], w)
       else do {
         (rd, line, w) \<leftarrow> read_forced env 3 w;
         if rd \<noteq> 3 then Some (Returned (-1), [], w)
         else if line \<noteq> bytes_of ''OK ''
         then do { (r, line, w) \<leftarrow> remote_rs232_get_response env 128 1000000 w; Some (Returned r, [], w) }
         else do {
           (e, got, w) \<leftarrow> rs232_read_loop env count [] w;
           case e of Some out \<Rightarrow> Some (out, got, w) | None \<Rightarrow> rs232_read_end env got w } } } }"

text \<open>
  Writing memory. The result of \<^verbatim>\<open>write\<close> is compared with the unsigned \<^verbatim>\<open>r\<close>, so a negative one is a large number. The
  caller's buffer is what is left of it at \<open>p\<close>.
\<close>

partial_function (option) rs232_write_loop ::
  "'w tty_env \<Rightarrow> u32 \<Rightarrow> u8 list \<Rightarrow> 'w \<Rightarrow> (rs_outcome option \<times> 'w) option" where
  "rs232_write_loop env r p w =
    (if r > 0
     then (case t_write env (take (unat (scast r :: u64)) p) w of (wd, w) \<Rightarrow>
       if wd = 0 then Some (Some (Returned (-1)), w)
       else if \<not> (of_int wd :: u32) \<le> r then Some (Some Assertion_failed, w)
       else rs232_write_loop env (r - of_int wd) (drop (nat wd) p) w)
     else Some (None, w))"

definition writeb_text :: "u64 \<Rightarrow> u32 \<Rightarrow> u8 list" where
  "writeb_text addr count = bytes_of ''WRITEB '' @ print_hex (unat addr) @ [0x20] @ print_hex (unat count)"

definition remote_rs232_write :: "'w tty_env \<Rightarrow> u64 \<Rightarrow> u32 \<Rightarrow> u8 list \<Rightarrow> 'w \<Rightarrow> (rs_outcome \<times> 'w) option" where
  "remote_rs232_write env addr count buf w = do {
     (sent, w) \<leftarrow> remote_rs232_send_command env (writeb_text addr count) w;
     if \<not> sent then Some (Returned 0, w)
     else do {
       (e, w) \<leftarrow> rs232_write_loop env count buf w;
       case e of Some out \<Rightarrow> Some (out, w)
       | None \<Rightarrow> do {
           (r, line, w) \<leftarrow> remote_rs232_get_response env 128 1000000 w;
           Some (Returned (if r \<noteq> 1 then 0 else 1), w) } } }"

text \<open>Running code: \<^verbatim>\<open>timeout_s*1000000\<close> is computed in 32 bits.\<close>

definition remote_rs232_exec_seg_off ::
  "'w tty_env \<Rightarrow> u32 \<Rightarrow> u64 \<Rightarrow> u32 \<Rightarrow> 'w \<Rightarrow> (bool \<times> u8 list \<times> 'w) option" where
  "remote_rs232_exec_seg_off env segment offset timeout_s w =
    rs232_line_command env (bytes_of ''EXEC '' @ print_hex (unat segment) @ [0x20] @ print_hex (unat offset))
      (ucast (timeout_s * 1000000)) w"

definition remote_rs232_exec_off :: "'w tty_env \<Rightarrow> u64 \<Rightarrow> u32 \<Rightarrow> 'w \<Rightarrow> (bool \<times> u8 list \<times> 'w) option" where
  "remote_rs232_exec_off env offset timeout_s w =
    rs232_line_command env (bytes_of ''EXEC '' @ print_hex (unat offset)) (ucast (timeout_s * 1000000)) w"

section \<open>Setting up the line\<close>

text \<open>\<^verbatim>\<open>cfmakeraw\<close> and the two \<^verbatim>\<open>cfset..speed\<close> calls as documented, with the values of Linux.\<close>

definition cfmakeraw :: "termios \<Rightarrow> termios" where
  "cfmakeraw t = t\<lparr>c_iflag := c_iflag t AND NOT 0x5EB, c_oflag := c_oflag t AND NOT 1, c_lflag := c_lflag t AND NOT 0x804B,
     c_cflag := (c_cflag t AND NOT 0x130) OR 0x30\<rparr>"

definition cfsetspeed_B38400 :: "termios \<Rightarrow> termios" where
  "cfsetspeed_B38400 t = t\<lparr>c_cflag := (c_cflag t AND NOT 0x100F) OR 0xF\<rparr>"

abbreviation (input) CSIZE :: u32 where "CSIZE \<equiv> 0x30"
abbreviation (input) CS8 :: u32 where "CS8 \<equiv> 0x30"
abbreviation (input) CSTOPB :: u32 where "CSTOPB \<equiv> 0x40"
abbreviation (input) CREAD :: u32 where "CREAD \<equiv> 0x80"

definition rs232_attributes :: "termios \<Rightarrow> termios" where
  "rs232_attributes t =
    (let t = cfsetspeed_B38400 (cfsetspeed_B38400 (cfmakeraw t));
         t = t\<lparr>c_cflag := (c_cflag t AND NOT CSIZE) OR CS8\<rparr>;
         t = t\<lparr>c_cflag := c_cflag t AND NOT CSTOPB\<rparr>
     in t\<lparr>c_cflag := c_cflag t OR CREAD\<rparr>)"

partial_function (option) rs232_drain :: "'w tty_env \<Rightarrow> 'w \<Rightarrow> 'w option" where
  "rs232_drain env w = (case t_read env 16 w of (rd, bs, w) \<Rightarrow> if rd > 0 then rs232_drain env w else Some w)"

definition remote_rs232_configure :: "'w tty_env \<Rightarrow> 'w \<Rightarrow> 'w option" where
  "remote_rs232_configure env w =
    (case t_getattr env w of
       (None, w) \<Rightarrow> Some w
     | (Some t, w) \<Rightarrow>
         (case t_setattr env (rs232_attributes t) w of (ok, w) \<Rightarrow>
            if \<not> ok then Some w
            else do { w \<leftarrow> rs232_drain env (t_nonblock env True w); Some (t_nonblock env False w) }))"

section \<open>The line as the client sees it\<close>

text \<open>
  What the client relies on. \<open>out\<close> is all that was written to the line, \<open>got\<close> counts the bytes read from it, and \<open>reply\<close> gives
  all the debugger sends in answer to what it was sent. A call may transfer any part of what it could, or fail a number of
  times (\<open>stall\<close>) before it transfers something; \<^verbatim>\<open>select\<close> reports a byte that is there or on its way; the clock and the
  mode of the descriptor do not touch the data.
\<close>

definition pending :: "('w \<Rightarrow> u8 list) \<Rightarrow> ('w \<Rightarrow> nat) \<Rightarrow> (u8 list \<Rightarrow> u8 list) \<Rightarrow> 'w \<Rightarrow> u8 list" where
  "pending out got reply w = drop (got w) (reply (out w))"

definition serial_line ::
  "'w tty_env \<Rightarrow> ('w \<Rightarrow> u8 list) \<Rightarrow> ('w \<Rightarrow> nat) \<Rightarrow> (u8 list \<Rightarrow> u8 list) \<Rightarrow> ('w \<Rightarrow> nat) \<Rightarrow> bool" where
  "serial_line env out got reply stall \<longleftrightarrow>
    (\<forall>n w. 0 < n \<and> pending out got reply w \<noteq> [] \<longrightarrow> (case t_read env n w of (rd, bs, w') \<Rightarrow>
       out w' = out w \<and>
       (rd < 0 \<and> got w' = got w \<and> stall w' < stall w \<or>
        0 < rd \<and> rd = int (length bs) \<and> length bs \<le> n \<and> length bs \<le> length (pending out got reply w) \<and>
        bs = take (length bs) (pending out got reply w) \<and> got w' = got w + length bs))) \<and>
    (\<forall>bs w. bs \<noteq> [] \<longrightarrow> (case t_write env bs w of (wd, w') \<Rightarrow>
       got w' = got w \<and>
       (wd = -1 \<and> out w' = out w \<and> stall w' < stall w \<or>
        0 < wd \<and> wd \<le> int (length bs) \<and> out w' = out w @ take (nat wd) bs))) \<and>
    (\<forall>s u w. pending out got reply w \<noteq> [] \<longrightarrow> (case t_select env s u w of (r, w') \<Rightarrow>
       r = 1 \<and> out w' = out w \<and> got w' = got w)) \<and>
    (\<forall>w. case t_time env w of (t, w') \<Rightarrow> out w' = out w \<and> got w' = got w \<and> stall w' = stall w) \<and>
    (\<forall>b w. out (t_nonblock env b w) = out w \<and> got (t_nonblock env b w) = got w)"

text \<open>The clock moves by less than three seconds during the exchange.\<close>

definition in_time :: "'w tty_env \<Rightarrow> bool" where
  "in_time env \<longleftrightarrow> (\<forall>w w'. fst (t_time env w') < fst (t_time env w) + 3)"

text \<open>What \<^verbatim>\<open>remote_rs232_get_response\<close> keeps of a line of the answer in a buffer of \<open>len\<close> bytes.\<close>

definition line_text :: "nat \<Rightarrow> u8 list \<Rightarrow> u8 list" where
  "line_text len line = take (len - 1) (filter (\<lambda>c. sint c \<ge> 32 \<or> sint c < 0) line)"

lemma serial_read:
  assumes "serial_line env out got reply stall" and "0 < n" and "pending out got reply w \<noteq> []"
  obtains (stalled) rd bs w' where "t_read env n w = (rd, bs, w')" "rd < 0" "out w' = out w" "got w' = got w" "stall w' < stall w"
        "pending out got reply w' = pending out got reply w"
    | (bytes) bs w' where "t_read env n w = (int (length bs), bs, w')" "bs \<noteq> []" "length bs \<le> n" "out w' = out w"
        "got w' = got w + length bs" "pending out got reply w = bs @ pending out got reply w'"
proof -
  obtain rd bs w' where t: "t_read env n w = (rd, bs, w')" by (metis prod_cases3)
  have o: "out w' = out w" and
    c: "rd < 0 \<and> got w' = got w \<and> stall w' < stall w \<or>
        0 < rd \<and> rd = int (length bs) \<and> length bs \<le> n \<and> length bs \<le> length (pending out got reply w) \<and>
        bs = take (length bs) (pending out got reply w) \<and> got w' = got w + length bs"
    using assms(1)[unfolded serial_line_def, THEN conjunct1, rule_format, OF conjI, OF assms(2,3)]
    unfolding t prod.case by blast+
  from c show thesis
  proof
    assume "rd < 0 \<and> got w' = got w \<and> stall w' < stall w"
    then show ?thesis using stalled [OF t] o by (simp add: pending_def)
  next
    assume b: "0 < rd \<and> rd = int (length bs) \<and> length bs \<le> n \<and> length bs \<le> length (pending out got reply w) \<and>
        bs = take (length bs) (pending out got reply w) \<and> got w' = got w + length bs"
    then have "pending out got reply w' = drop (length bs) (pending out got reply w)"
      using o by (simp add: pending_def add.commute)
    then have "pending out got reply w = bs @ pending out got reply w'" using b by (metis append_take_drop_id)
    then show ?thesis using bytes [of bs w'] t o b by auto
  qed
qed

lemma serial_write:
  assumes "serial_line env out got reply stall" and "bs \<noteq> []"
  obtains (stalled) w' where "t_write env bs w = (-1, w')" "out w' = out w" "got w' = got w" "stall w' < stall w"
    | (bytes) k w' where "t_write env bs w = (int k, w')" "0 < k" "k \<le> length bs" "out w' = out w @ take k bs" "got w' = got w"
proof -
  obtain wd w' where t: "t_write env bs w = (wd, w')" by fastforce
  have "got w' = got w \<and> (wd = -1 \<and> out w' = out w \<and> stall w' < stall w \<or>
        0 < wd \<and> wd \<le> int (length bs) \<and> out w' = out w @ take (nat wd) bs)"
    using assms(1)[unfolded serial_line_def, THEN conjunct2, THEN conjunct1, rule_format, OF assms(2), of w]
    unfolding t prod.case .
  then show thesis using stalled [of w'] bytes [of "nat wd" w'] t by auto
qed

lemma serial_other:
  assumes "serial_line env out got reply stall"
  shows "pending out got reply w \<noteq> [] \<Longrightarrow> \<exists>w'. t_select env s u w = (1, w') \<and> out w' = out w \<and> got w' = got w"
    and "\<exists>t w'. t_time env w = (t, w') \<and> out w' = out w \<and> got w' = got w \<and> stall w' = stall w"
    and "out (t_nonblock env b w) = out w" and "got (t_nonblock env b w) = got w"
proof -
  note a = assms [unfolded serial_line_def, THEN conjunct2, THEN conjunct2]
  show "pending out got reply w \<noteq> [] \<Longrightarrow> \<exists>w'. t_select env s u w = (1, w') \<and> out w' = out w \<and> got w' = got w"
    using a [THEN conjunct1, rule_format, of w s u] by (auto split: prod.splits)
  show "\<exists>t w'. t_time env w = (t, w') \<and> out w' = out w \<and> got w' = got w \<and> stall w' = stall w"
    using a [THEN conjunct2, THEN conjunct1, rule_format, of w] by (auto split: prod.splits)
  show "out (t_nonblock env b w) = out w" "got (t_nonblock env b w) = got w" using a by blast+
qed

lemma read_forced_line:
  assumes "serial_line env out got reply stall"
  shows "sz \<le> length (pending out got reply w) \<Longrightarrow>
    \<exists>w'. read_forced_loop env sz bs w = Some (int (length bs + sz), bs @ take sz (pending out got reply w), w') \<and>
      out w' = out w \<and> got w' = got w + sz"
proof (induction "sz" arbitrary: bs w rule: less_induct)
  case (less sz)
  show ?case using less.prems
  proof (induction "stall w" arbitrary: w rule: less_induct)
    case inner: less
    show ?case
    proof (cases "sz = 0")
      case True
      then show ?thesis by (simp add: read_forced_loop.simps)
    next
      case False
      then have n: "0 < sz" "pending out got reply w \<noteq> []" using inner.prems by auto
      from assms n show ?thesis
      proof (cases rule: serial_read)
        case (stalled rd bs' w')
        then show ?thesis using inner.hyps [of w'] inner.prems n by (simp add: read_forced_loop.simps [of env sz bs w])
      next
        case (bytes cs w')
        then have "0 < length cs" by simp
        then have "sz - length cs < sz" using n by linarith
        moreover have "sz - length cs \<le> length (pending out got reply w')" using bytes inner.prems by simp
        ultimately show ?thesis using less.IH [of "sz - length cs" w' "bs @ cs"] bytes n
          by (auto simp: read_forced_loop.simps [of env sz bs w])
      qed
    qed
  qed
qed

lemma send_bytes_line:
  assumes "serial_line env out got reply stall"
  shows "\<exists>w'. send_bytes env cmd w = Some w' \<and> out w' = out w @ cmd \<and> got w' = got w"
proof (induction "length cmd" arbitrary: cmd w rule: less_induct)
  case less
  show ?case
  proof (induction "stall w" arbitrary: w rule: less_induct)
    case inner: less
    show ?case
    proof (cases "cmd = []")
      case True
      then show ?thesis by (simp add: send_bytes.simps)
    next
      case False
      with assms show ?thesis
      proof (cases rule: serial_write [where w = w])
        case (stalled w')
        then show ?thesis using inner.hyps [of w'] False by (simp add: send_bytes.simps [of env cmd w])
      next
        case (bytes k w')
        then have "length (drop k cmd) < length cmd" by simp
        from less.hyps [OF this, of w'] obtain w'' where
          "send_bytes env (drop k cmd) w' = Some w''" "out w'' = out w' @ drop k cmd" "got w'' = got w'" by blast
        then show ?thesis using bytes False by (simp add: send_bytes.simps [of env cmd w])
      qed
    qed
  qed
qed

lemma send_newline_line:
  assumes "serial_line env out got reply stall"
  shows "\<exists>w'. send_newline env w = Some (True, w') \<and> out w' = out w @ [0x0A] \<and> got w' = got w"
proof (induction "stall w" arbitrary: w rule: less_induct)
  case less
  have ne: "[0x0A :: u8] \<noteq> []" by simp
  from assms ne show ?case
  proof (cases rule: serial_write [where w = w])
    case (stalled w')
    then show ?thesis using less.hyps [of w'] by (simp add: send_newline.simps [of env w])
  next
    case (bytes k w')
    then have "k = 1" by simp
    then show ?thesis using bytes by (simp add: send_newline.simps [of env w])
  qed
qed

lemma send_command_line:
  assumes "serial_line env out got reply stall"
  obtains w' where "remote_rs232_send_command env cmd w = Some (True, w')" "out w' = out w @ cmd @ [0x0A]" "got w' = got w"
proof -
  obtain w1 where 1: "send_bytes env cmd w = Some w1" "out w1 = out w @ cmd" "got w1 = got w"
    using send_bytes_line [OF assms] by blast
  obtain w2 where 2: "send_newline env w1 = Some (True, w2)" "out w2 = out w1 @ [0x0A]" "got w2 = got w1"
    using send_newline_line [OF assms] by blast
  show thesis by (rule that [of w2]) (simp_all add: remote_rs232_send_command_def 1 2)
qed

lemma response_loop_line:
  assumes "serial_line env out got reply stall" and "\<And>w. fst (t_time env w) < et"
  shows "pending out got reply w = line @ 0x0A # rest \<Longrightarrow> 0x0A \<notin> set line \<Longrightarrow> length wp \<le> len - 1 \<Longrightarrow>
    \<exists>w'. get_response_loop env len et wp w =
        Some (0, take (len - 1) (wp @ filter (\<lambda>c. sint c \<ge> 32 \<or> sint c < 0) line), w') \<and>
      out w' = out w \<and> got w' = got w + length line + 1"
proof (induction line arbitrary: wp w)
  case Nil
  then show ?case
  proof (induction "stall w" arbitrary: w rule: less_induct)
    case less
    obtain t w1 where t: "t_time env w = (t, w1)" "out w1 = out w" "got w1 = got w" "stall w1 = stall w"
      using serial_other(2) [OF assms(1)] by blast
    then have "t < et" using assms(2) [of w] by simp
    have p1: "pending out got reply w1 = 0x0A # rest" using less.prems t by (simp add: pending_def)
    then have "pending out got reply w1 \<noteq> []" by simp
    with assms(1) zero_less_one show ?case
    proof (cases rule: serial_read)
      case (stalled rd bs w')
      then show ?thesis using less.hyps [of w'] less.prems t p1 \<open>t < et\<close> by (simp add: get_response_loop.simps [of env len et wp w])
    next
      case (bytes bs w')
      then have "bs = [0x0A]" using p1 by (cases bs) simp_all
      then show ?thesis using bytes t less.prems \<open>t < et\<close> by (simp add: get_response_loop.simps [of env len et wp w])
    qed
  qed
next
  case (Cons c line)
  show ?case using Cons.prems
  proof (induction "stall w" arbitrary: w rule: less_induct)
    case less
    obtain t w1 where t: "t_time env w = (t, w1)" "out w1 = out w" "got w1 = got w" "stall w1 = stall w"
      using serial_other(2) [OF assms(1)] by blast
    then have "t < et" using assms(2) [of w] by simp
    have p1: "pending out got reply w1 = c # line @ 0x0A # rest" using less.prems t by (simp add: pending_def)
    then have "pending out got reply w1 \<noteq> []" by simp
    with assms(1) zero_less_one show ?case
    proof (cases rule: serial_read)
      case (stalled rd bs w')
      then show ?thesis using less.hyps [of w'] less.prems t p1 \<open>t < et\<close> by (simp add: get_response_loop.simps [of env len et wp w])
    next
      case (bytes bs w')
      then have bs: "bs = [c]" "pending out got reply w' = line @ 0x0A # rest" using p1 by (cases bs; simp)+
      let ?wp = "if sint c \<ge> 32 \<or> sint c < 0 then (if length wp < len - 1 then wp @ [c] else wp) else wp"
      have "length ?wp \<le> len - 1" using less.prems by auto
      from Cons.IH [OF bs(2) _ this] less.prems(2) show ?thesis using bs(1) bytes t less.prems \<open>t < et\<close>
        by (auto simp: get_response_loop.simps [of env len et wp w] Let_def take_Cons')
    qed
  qed
qed

lemma get_response_line:
  assumes "serial_line env out got reply stall" and "in_time env"
    and "pending out got reply w = line @ 0x0A # rest" and "0x0A \<notin> set line" and "timeout = 1000000"
  obtains w' where "remote_rs232_get_response env len timeout w =
      Some (if take 2 (line_text len line @ [0]) = bytes_of ''OK'' then 1 else 0, line_text len line, w')"
    "out w' = out w" "got w' = got w + length line + 1"
proof -
  obtain t w1 where t: "t_time env w = (t, w1)" "out w1 = out w" "got w1 = got w"
    using serial_other(2) [OF assms(1)] by blast
  let ?et = "t + uint ((timeout + 999999) div 1000000) + 1 + 1"
  have "uint ((timeout + 999999) div 1000000) = 1" unfolding assms(5) by code_simp
  then have et: "fst (t_time env w') < ?et" for w' using assms(2) t(1) unfolding in_time_def by (smt (verit) fst_conv)
  let ?w2 = "t_nonblock env True w1"
  have p: "pending out got reply ?w2 = line @ 0x0A # rest"
    using assms(3) t by (simp add: pending_def serial_other(3,4) [OF assms(1)])
  obtain w3 where "get_response_loop env len ?et [] ?w2 = Some (0, line_text len line, w3)"
    "out w3 = out ?w2" "got w3 = got ?w2 + length line + 1"
    using response_loop_line [OF assms(1) et p assms(4), of "[]" len] by (auto simp: line_text_def)
  then show thesis using that [of "t_nonblock env False w3"] t
    by (simp add: remote_rs232_get_response_def Let_def serial_other(3,4) [OF assms(1)])
qed

lemma rs232_read_line:
  assumes "serial_line env out got reply stall"
  shows "unat r \<le> length (pending out got reply w) \<Longrightarrow>
    \<exists>w'. rs232_read_loop env r bs w = Some (None, bs @ take (unat r) (pending out got reply w), w') \<and>
      out w' = out w \<and> got w' = got w + unat r"
proof (induction "unat r" arbitrary: r bs w rule: less_induct)
  case (less r)
  show ?case using less.prems
  proof (induction "stall w" arbitrary: w rule: less_induct)
    case inner: less
    show ?case
    proof (cases "r = 0")
      case True
      then show ?thesis by (simp add: rs232_read_loop.simps)
    next
      case False
      then have n: "0 < unat r" "pending out got reply w \<noteq> []" using inner.prems by (auto simp: unat_gt_0 unat_eq_zero)
      from assms n show ?thesis
      proof (cases rule: serial_read)
        case (stalled rd bs' w')
        then show ?thesis using inner.hyps [of w'] inner.prems False
          by (simp add: rs232_read_loop.simps [of env r bs w] word_neq_0_conv)
      next
        case (bytes cs w')
        then have k: "0 < length cs" "length cs \<le> unat r" by simp_all
        then have small: "length cs < 2 ^ LENGTH(32)" using le_less_trans [OF k(2) unat_bounds(3)] by simp
        then have le: "word_of_nat (length cs) \<le> r" using k by (simp add: word_le_nat_alt)
        have u: "unat (r - word_of_nat (length cs)) = unat r - length cs" using le small by (simp add: unat_sub)
        have "unat (r - word_of_nat (length cs)) < unat r" using u k n by linarith
        moreover have "unat (r - word_of_nat (length cs)) \<le> length (pending out got reply w')" using u bytes inner.prems by simp
        ultimately show ?thesis using less.hyps [of "r - word_of_nat (length cs)" w' "bs @ cs"] bytes False le u
          by (auto simp: rs232_read_loop.simps [of env r bs w] word_neq_0_conv)
      qed
    qed
  qed
qed

lemma unat_scast_small: "unat (r :: u32) < 2 ^ 31 \<Longrightarrow> unat (scast r :: u64) = unat r"
proof -
  assume r: "unat r < 2 ^ 31"
  have u: "uint r = int (unat r)" by (rule uint_nat)
  have "unat r < 2147483648" using r by simp
  then have "- 2147483648 \<le> uint r" "uint r < 2147483648" using u by linarith+
  then have "sint r = uint r" by (simp add: sint_uint signed_take_bit_int_eq_self)
  then have "(scast r :: u64) = of_int (int (unat r))" unfolding scast_eq u by simp
  also have "\<dots> = of_nat (unat r)" by (rule of_int_of_nat_eq)
  finally have "(scast r :: u64) = ucast r" by simp
  moreover have "unat r < 2 ^ 64" using r by simp
  ultimately show ?thesis by (simp add: unsigned_ucast_eq take_bit_nat_eq_self)
qed

text \<open>The data of a write reaches the line in order as long as no call fails.\<close>

lemma rs232_write_line:
  assumes "serial_line env out got reply stall" and "\<And>bs w. 0 \<le> fst (t_write env bs w)"
  shows "unat r = length p \<Longrightarrow> length p < 2 ^ 31 \<Longrightarrow>
    \<exists>w'. rs232_write_loop env r p w = Some (None, w') \<and> out w' = out w @ p \<and> got w' = got w"
proof (induction "length p" arbitrary: r p w rule: less_induct)
  case less
  show ?case
  proof (cases "p = []")
    case True
    then show ?thesis using less.prems by (simp add: rs232_write_loop.simps unat_eq_zero)
  next
    case False
    have sc: "unat (scast r :: u64) = length p" using unat_scast_small [of r] less.prems by simp
    from assms(1) False show ?thesis
    proof (cases rule: serial_write [where w = w])
      case (stalled w')
      then show ?thesis using assms(2) [of p w] by simp
    next
      case (bytes k w')
      have r0: "0 < r" using less.prems False by (metis length_0_conv unat_eq_zero word_neq_0_conv)
      have small: "k < 2 ^ LENGTH(32)" using bytes less.prems by simp
      then have le: "word_of_nat k \<le> r" using bytes less.prems by (simp add: word_le_nat_alt)
      have u: "unat (r - word_of_nat k) = length (drop k p)" using le small less.prems by (simp add: unat_sub)
      have "length (drop k p) < length p" using bytes by simp
      moreover have "length (drop k p) < 2 ^ 31" using less.prems(2) by simp
      ultimately obtain w'' where
        "rs232_write_loop env (r - word_of_nat k) (drop k p) w' = Some (None, w'')" "out w'' = out w' @ drop k p" "got w'' = got w'"
        using less.hyps [OF _ u] by blast
      then show ?thesis using bytes r0 le sc by (simp add: rs232_write_loop.simps [of env r p w])
    qed
  qed
qed

section \<open>Transfers\<close>

text \<open>A line for examples: it takes three bytes at a time, gives one at a time, and fails once before each byte.\<close>

definition slow_line :: "(u8 list \<Rightarrow> u8 list) \<Rightarrow> (u8 list \<times> nat \<times> nat) tty_env" where
  "slow_line reply = \<lparr>
     t_read = (\<lambda>n (o1, g, s).
       if s > 0 then (-1, [], (o1, g, s - 1)) else (1, take 1 (drop g (reply o1)), (o1, g + 1, 1))),
     t_write = (\<lambda>bs (o1, g, s). (int (min 3 (length bs)), (o1 @ take 3 bs, g, s))),
     t_select = (\<lambda>sec usec w. (1, w)),
     t_time = (\<lambda>w. (0, w)),
     t_nonblock = (\<lambda>b w. w),
     t_getattr = (\<lambda>w. (None, w)),
     t_setattr = (\<lambda>t w. (False, w))\<rparr>"

lemma slow_line_serial: "serial_line (slow_line reply) fst (fst \<circ> snd) reply (snd \<circ> snd)"
  by (auto simp: serial_line_def slow_line_def pending_def min_def Suc_le_eq)

lemma slow_line_write: "0 \<le> fst (t_write (slow_line reply) bs w)"
  by (cases w) (simp add: slow_line_def)

lemma slow_line_in_time: "in_time (slow_line reply)"
  by (simp add: in_time_def slow_line_def)

text \<open>
  C23. Reading memory over the serial line. The client sends exactly the request line, whatever parts the calls take, and when
  the debugger answers OK, a blank, as many bytes as were asked for and the end of the line, the client returns 1 and hands out
  exactly those bytes, however the calls split them and however often they fail first. It takes no byte more from the line.
\<close>

theorem rs232_read_ok:
  assumes "serial_line env out got reply stall"
    and "count = of_nat (length data)" and "length data < 2 ^ 32"
    and "drop (got w) (reply (out w @ readb_text addr count @ [0x0A])) = bytes_of ''OK '' @ data @ [0x0D, 0x0A] @ rest"
  shows "\<exists>w'. remote_rs232_read env addr count w = Some (Returned 1, data, w') \<and>
    out w' = out w @ readb_text addr count @ [0x0A] \<and> got w' = got w + length data + 5"
proof -
  obtain w1 where 1: "remote_rs232_send_command env (readb_text addr count) w = Some (True, w1)"
    "out w1 = out w @ readb_text addr count @ [0x0A]" "got w1 = got w"
    using send_command_line [OF assms(1)] by metis
  have p1: "pending out got reply w1 = bytes_of ''OK '' @ data @ [0x0D, 0x0A] @ rest" using assms(4) 1 by (simp add: pending_def)
  then obtain w2 where 2: "t_select env 3 0 w1 = (1, w2)" "out w2 = out w1" "got w2 = got w1"
    using serial_other(1) [OF assms(1), of w1] by fastforce
  have p2: "pending out got reply w2 = bytes_of ''OK '' @ data @ [0x0D, 0x0A] @ rest" using p1 2 by (simp add: pending_def)
  then obtain w3 where 3: "read_forced env 3 w2 = Some (3, bytes_of ''OK '', w3)" "out w3 = out w2" "got w3 = got w2 + 3"
    using read_forced_line [OF assms(1), of 3 w2 "[]"] by (auto simp: read_forced_def)
  have c: "unat count = length data" using assms(2,3) by simp
  have "pending out got reply w3 = drop 3 (pending out got reply w2)" using 3 by (simp add: pending_def add.commute)
  then have p3: "pending out got reply w3 = data @ [0x0D, 0x0A] @ rest" using p2 by simp
  then obtain w4 where 4: "rs232_read_loop env count [] w3 = Some (None, data, w4)" "out w4 = out w3" "got w4 = got w3 + length data"
    using rs232_read_line [OF assms(1), of count w3 "[]"] c by auto
  have "pending out got reply w4 = drop (length data) (pending out got reply w3)"
    using 4 by (simp add: pending_def add.commute)
  then have p4: "pending out got reply w4 = [0x0D, 0x0A] @ rest" using p3 by simp
  then obtain w5 where 5: "read_forced env 2 w4 = Some (2, [0x0D, 0x0A], w5)" "out w5 = out w4" "got w5 = got w4 + 2"
    using read_forced_line [OF assms(1), of 2 w4 "[]"] by (auto simp: read_forced_def)
  show ?thesis
    by (simp add: remote_rs232_read_def rs232_read_end_def 1 2 3(2-) 3(1) [simplified] 4 5 del: bytes_of_simps)
qed

lemma text_example:
  "readb_text 0x7C00 3 = bytes_of ''READB 7C00 3''" "writeb_text 0x7C00 2 = bytes_of ''WRITEB 7C00 2''"
  by (simp_all add: readb_text_def writeb_text_def print_hex.simps hexdigit_def hexes_def)

theorem rs232_read_ok_witness:
  "\<exists>w'. remote_rs232_read (slow_line (\<lambda>o1. bytes_of ''OK '' @ [7, 0x0A, 0] @ [0x0D, 0x0A])) 0x7C00 3 ([], 0, 0) = Some (Returned 1, [7, 0x0A, 0], w') \<and>
    fst w' = bytes_of ''READB 7C00 3'' @ [0x0A] \<and> fst (snd w') = 8"
proof -
  let ?r = "\<lambda>o1 :: u8 list. bytes_of ''OK '' @ [7, 0x0A, 0] @ [0x0D, 0x0A]"
  show ?thesis
    using rs232_read_ok [OF slow_line_serial [of ?r], where w = "([], 0, 0)" and count = 3 and addr = "0x7C00"
        and data = "[7, 0x0A, 0]" and rest = "[]"]
    unfolding text_example by simp
qed



text \<open>
  A failing call behaves differently in the two places: the command is sent again until the line takes it, the data of a write
  is not, because its result is compared as an unsigned number.
\<close>

lemma negative_result_large:
  assumes "wd < 0" and "- (2 ^ 31) \<le> wd"
  shows "2 ^ 31 \<le> unat (of_int wd :: u32)"
proof -
  have "(wd + 2 ^ 32) mod 2 ^ 32 = wd + 2 ^ 32" using assms by (intro mod_pos_pos_trivial) simp_all
  then have "uint (of_int wd :: u32) = wd + 2 ^ 32" by (simp add: uint_word_of_int)
  then have "2147483648 \<le> uint (of_int wd :: u32)" using assms by simp
  then have "2147483648 \<le> unat (of_int wd :: u32)" unfolding uint_nat by linarith
  then show ?thesis by simp
qed

text \<open>
  A failing write of the data ends the program: when the request line has been sent and the first write of the data gives
  any negative result, the assertion of \<^verbatim>\<open>remote_rs232_write\<close> fails, instead of the call being made again or an error returned.
\<close>

theorem rs232_write_failure_aborts:
  assumes "remote_rs232_send_command env (writeb_text addr count) w = Some (True, w1)"
    and "0 < count" and "count < 0x80000000"
    and "t_write env (take (unat count) buf) w1 = (wd, w2)" and "wd < 0" and "- (2 ^ 31) \<le> wd"
  shows "remote_rs232_write env addr count buf w = Some (Assertion_failed, w2)"
proof -
  have c: "unat count < 2 ^ 31" using assms(3) by (simp add: word_less_nat_alt)
  then have s: "unat (scast count :: u64) = unat count" by (rule unat_scast_small)
  have "\<not> (of_int wd :: u32) \<le> count" using negative_result_large [OF assms(5,6)] c by (simp add: word_le_nat_alt)
  then show ?thesis using assms by (simp add: remote_rs232_write_def rs232_write_loop.simps [of env count] s)
qed

theorem rs232_write_failure_aborts_witness:
  "remote_rs232_write ((slow_line (\<lambda>o1. []))\<lparr>t_write := (\<lambda>bs (o1, g, s). if bs = [1, 2] then (-1, (o1, g, s)) else (int (length bs), (o1 @ bs, g, s)))\<rparr>)
     0x7C00 2 [1, 2] ([], 0, 0) = Some (Assertion_failed, (bytes_of ''WRITEB 7C00 2'' @ [0x0A], 0, 0))"
  by (rule rs232_write_failure_aborts [where wd = "-1"])
    (simp_all add: text_example remote_rs232_send_command_def send_bytes.simps send_newline.simps)

section \<open>Waiting for a line\<close>

text \<open>One look at the clock and the line, and a clock that gets ahead however often it is asked.\<close>

definition rs232_poll :: "'w tty_env \<Rightarrow> 'w \<Rightarrow> 'w" where
  "rs232_poll env w = snd (snd (t_read env 1 (snd (t_time env w))))"

definition clock_runs :: "'w tty_env \<Rightarrow> bool" where
  "clock_runs env \<longleftrightarrow> (\<forall>w et. \<exists>n. fst (t_time env ((rs232_poll env ^^ n) w)) \<ge> et)"

definition line_ok :: "nat \<Rightarrow> u8 list \<Rightarrow> bool" where
  "line_ok len wp \<longleftrightarrow> length wp \<le> len - 1 \<and> (\<forall>c \<in> set wp. sint c \<ge> 32 \<or> sint c < 0)"

lemma response_loop_returns:
  "fst (t_time env ((rs232_poll env ^^ n) w)) \<ge> et \<Longrightarrow> line_ok len wp \<Longrightarrow>
    \<exists>r line w'. get_response_loop env len et wp w = Some (r, line, w') \<and> r \<in> {-1, 0} \<and> line_ok len line"
proof (induction n arbitrary: wp w)
  case 0
  then show ?case by (auto simp: get_response_loop.simps [of env len et wp w] split: prod.splits)
next
  case (Suc n)
  obtain t w1 where t: "t_time env w = (t, w1)" by fastforce
  obtain r bs w2 where r: "t_read env 1 w1 = (r, bs, w2)" by (metis prod_cases3)
  have w2: "fst (t_time env ((rs232_poll env ^^ n) w2)) \<ge> et"
    using Suc.prems(1) unfolding funpow_Suc_right by (simp add: rs232_poll_def [of env w] t r [unfolded One_nat_def])
  let ?c = "bs ! 0"
  let ?wp = "if sint ?c \<ge> 32 \<or> sint ?c < 0 then (if length wp < len - 1 then wp @ [?c] else wp) else wp"
  have e: "get_response_loop env len et wp w =
      (if t \<ge> et then Some (-1, wp, w1) else if r = 0 then Some (-1, wp, w2)
       else if r < 0 then get_response_loop env len et wp w2
       else if ?c \<noteq> 0x0A then get_response_loop env len et ?wp w2 else Some (0, ?wp, w2))"
    unfolding get_response_loop.simps [of env len et wp w] t r prod.case Let_def ..
  define Q where "Q x \<longleftrightarrow> (\<exists>r line w'. x = Some (r, line, w') \<and> r \<in> {-1, 0} \<and> line_ok len line)"
    for x :: "(int \<times> u8 list \<times> 'a) option"
  have wp: "line_ok len ?wp" using Suc.prems(2) by (auto simp: line_ok_def)
  have "Q (Some (-1, wp, w1))" "Q (Some (-1, wp, w2))" using Suc.prems(2) by (simp_all add: Q_def)
  moreover have "Q (Some (0, ?wp, w2))" using wp by (simp add: Q_def)
  moreover have "Q (get_response_loop env len et wp w2)" unfolding Q_def by (rule Suc.IH [OF w2 Suc.prems(2)])
  moreover have "Q (get_response_loop env len et ?wp w2)" unfolding Q_def by (rule Suc.IH [OF w2 wp])
  ultimately show ?case unfolding e Q_def [symmetric] by presburger
qed

text \<open>
  C38. While the clock runs, waiting for a line ends whatever the line and the debugger do. The text handed out has at most one
  character less than the buffer has room for and no control character; the result is -1, 0 or 1, and 1 only for a text that
  begins with OK.
\<close>

theorem rs232_get_response_returns:
  assumes "clock_runs env"
  shows "\<exists>r line w'. remote_rs232_get_response env len timeout w = Some (r, line, w') \<and> r \<in> {-1, 0, 1} \<and>
    length line \<le> len - 1 \<and> (\<forall>c \<in> set line. sint c \<ge> 32 \<or> sint c < 0) \<and>
    (r = 1 \<longrightarrow> take 2 line = bytes_of ''OK'') \<and> (r = 0 \<longrightarrow> take 2 line \<noteq> bytes_of ''OK'')"
proof -
  obtain t w1 where t: "t_time env w = (t, w1)" by fastforce
  let ?et = "t + uint ((timeout + 999999) div 1000000) + 1 + 1"
  have "\<exists>n. fst (t_time env ((rs232_poll env ^^ n) (t_nonblock env True w1))) \<ge> ?et"
    using assms unfolding clock_runs_def by (elim allE)
  then obtain n where n: "fst (t_time env ((rs232_poll env ^^ n) (t_nonblock env True w1))) \<ge> ?et" by (elim exE)
  have "line_ok len []" by (simp add: line_ok_def)
  from response_loop_returns [OF n this] obtain r line w2 where
    l: "get_response_loop env len ?et [] (t_nonblock env True w1) = Some (r, line, w2)" "r \<in> {-1, 0}" "line_ok len line"
    by (elim exE conjE)
  have ok: "take 2 (line @ [0]) = bytes_of ''OK'' \<longleftrightarrow> take 2 line = bytes_of ''OK''"
  proof (cases line)
    case (Cons c l)
    then show ?thesis by (cases l) simp_all
  qed simp
  have "remote_rs232_get_response env len timeout w =
      Some (if r = 0 \<and> take 2 line = bytes_of ''OK'' then 1 else r, line, t_nonblock env False w2)"
    unfolding ok [symmetric] using l(1) by (simp add: remote_rs232_get_response_def t Let_def del: bytes_of_simps)
  then show ?thesis using l(2,3) unfolding line_ok_def by (cases "take 2 line = bytes_of ''OK''") (auto simp del: bytes_of_simps)
qed

theorem rs232_get_response_returns_witness:
  "\<exists>r line w'. remote_rs232_get_response ((slow_line (\<lambda>o1. []))\<lparr>t_time := (\<lambda>(o1, g, s). (int g, (o1, g + 1, s)))\<rparr>) 128 1000000 ([], 0, 0) =
    Some (r, line, w') \<and> length line \<le> 127"
proof -
  let ?env = "(slow_line (\<lambda>o1. []))\<lparr>t_time := (\<lambda>(o1, g, s). (int g, (o1, g + 1, s)))\<rparr>"
  have step: "g < fst (snd (rs232_poll ?env (o1, g, s)))" for o1 g s
    by (simp add: rs232_poll_def slow_line_def)
  have far: "n \<le> fst (snd ((rs232_poll ?env ^^ n) w))" for n w
  proof (induction n)
    case (Suc n)
    obtain o1 g s where p: "(rs232_poll ?env ^^ n) w = (o1, g, s)" by (rule prod_cases3)
    then have "n \<le> g" using Suc by simp
    then show ?case using step [of g o1 s] p by simp
  qed simp
  have "clock_runs ?env" unfolding clock_runs_def
  proof (intro allI)
    fix w et
    have "et \<le> fst (t_time ?env ((rs232_poll ?env ^^ nat et) w))"
      using far [of "nat et" w] by (auto simp: split_beta)
    then show "\<exists>n. et \<le> fst (t_time ?env ((rs232_poll ?env ^^ n) w))" by blast
  qed
  from rs232_get_response_returns [OF this, of 128 1000000 "([], 0, 0)"] show ?thesis by auto
qed

text \<open>
  Whatever the attributes of the line were, the client sets it to eight data bits, one stop bit, no parity, 38400 baud in
  both directions and the receiver on, with no echo, line editing, signals or character translation; no other bit of the control
  flags changes.
\<close>

theorem rs232_attributes_raw_8n1:
  "c_cflag (rs232_attributes t) = (c_cflag t AND NOT 0x117F) OR 0xBF \<and>
   c_iflag (rs232_attributes t) AND 0x5EB = 0 \<and> c_oflag (rs232_attributes t) AND 1 = 0 \<and>
   c_lflag (rs232_attributes t) AND 0x804B = 0"
proof -
  have f: "(x AND NOT m) AND m = 0" for x m :: u32 by (simp add: bit_eq_iff bit_simps)
  have "((((((((c AND NOT 0x130) OR 0x30) AND NOT 0x100F) OR 0xF) AND NOT 0x100F) OR 0xF) AND NOT 0x30 OR 0x30) AND NOT 0x40) OR 0x80 =
      (c AND NOT 0x117F) OR (0xBF :: u32)" for c
  proof (rule bit_word_eqI)
    fix n assume "n < LENGTH(32)"
    then have "n \<in> set [0..<32]" by simp
    moreover have "\<forall>n \<in> set [0..<32]. \<forall>b. bit (0x130 :: u32) n = b \<or> True" by simp
    ultimately show "bit (((((((((c AND NOT 0x130) OR 0x30) AND NOT 0x100F) OR 0xF) AND NOT 0x100F) OR 0xF) AND NOT 0x30 OR 0x30) AND NOT 0x40) OR 0x80) n =
      bit ((c AND NOT 0x117F) OR (0xBF :: u32)) n"
      by (auto simp: upt_rec numeral_eq_Suc bit_simps)
  qed
  then show ?thesis by (simp add: rs232_attributes_def cfmakeraw_def cfsetspeed_B38400_def Let_def
        f [of _ "0x5EB", simplified] f [of _ 1, simplified] f [of _ "0x804B", simplified])
qed

end
