(* ===== verification/Ref_eth.thy ===== *)
theory Ref_eth
  imports Netdev
begin

text \<open>
  The stand-alone program \<^verbatim>\<open>src/eth/ref/eth.c\<close>, which brings up a RealTek card at port 0x3000 from Linux. The answer of
  \<^verbatim>\<open>iopl\<close> is an argument.
\<close>

section \<open>Operations\<close>

record ref_eth = bus +
  rtl_base_io :: u32
  rtl_mac_address :: "u8 list"

function ref_reset_wait :: "'h hw_scheme \<Rightarrow> u32 \<Rightarrow> 'a ref_eth_scheme \<Rightarrow> bool \<times> 'a ref_eth_scheme" where
  "ref_reset_wait h patience m =
    (let (c, m) = io_inb h (rtl_base_io m + 0x37) m
     in if c AND 0x10 = 0 then (True, m)
        else if patience - 1 \<noteq> 0 then (False, m)
        else ref_reset_wait h (patience - 1) m)"
  by pat_completeness auto
termination
  by (relation "measure (\<lambda>(h, patience, m). unat patience)") auto

declare ref_reset_wait.simps [simp del]

definition ref_configure :: "'a ref_eth_scheme \<Rightarrow> 'a ref_eth_scheme" where
  "ref_configure m =
    (let m = io_outw (rtl_base_io m + 0x3E) 0xFFFF m;
         m = io_outl (rtl_base_io m + 0x40) (0x0000 OR push_bit 24 3) m
     in io_outl (rtl_base_io m + 0x44) 0x008F m)"

definition ref_start :: "'a ref_eth_scheme \<Rightarrow> 'a ref_eth_scheme" where
  "ref_start m =
    (let m = io_outl (rtl_base_io m + 0x08) 0xFFFFFFFF m;
         m = io_outl (rtl_base_io m + 0x0C) 0xFFFFFFFF m;
         m = io_outw (rtl_base_io m + 0x62) 0x1200 m
     in io_outb (rtl_base_io m + 0x37) 0x0C m)"

definition ref_main :: "'h hw_scheme \<Rightarrow> int \<Rightarrow> 'a ref_eth_scheme \<Rightarrow> int \<times> 'a ref_eth_scheme" where
  "ref_main h iopl m =
    (if iopl \<noteq> 0 then (1, m)
     else
       let m = io_outw (rtl_base_io m + 0x3C) 0x0000 m;
           m = io_outb (rtl_base_io m + 0x37) 0x10 m;
           (done, m) = ref_reset_wait h 200 m
       in if \<not> done then (1, m)
          else
            let m = ref_configure m;
                (mac, m) = io_inb_seq h (map (\<lambda>i. rtl_base_io m + 0x00 + of_nat i) [0..<6]) m
            in (0, ref_start (m\<lparr>rtl_mac_address := mac\<rparr>)))"

section \<open>Properties\<close>

lemma ports_only_bus: "ports_only m m' \<Longrightarrow> mem m' = mem m \<and> fault m' = fault m"
proof -
  assume "ports_only m m'"
  then obtain hs where "m' = m\<lparr>hist := hs\<rparr>" by (auto simp: ports_only_def)
  then show ?thesis by simp
qed

lemma ref_reset_wait_first:
  "ref_reset_wait h 200 m =
    (fst (io_inb h (rtl_base_io m + 0x37) m) AND 0x10 = 0, snd (io_inb h (rtl_base_io m + 0x37) m))"
  by (subst ref_reset_wait.simps) (simp add: split_beta)

text \<open>What a run has done to the ports before its first look at the reset.\<close>

definition ref_resetting :: "'a ref_eth_scheme \<Rightarrow> io_event list" where
  "ref_resetting m = PortOut W8 (ucast (rtl_base_io m + 0x37)) 0x10 # PortOut W16 (ucast (rtl_base_io m + 0x3C)) 0 # hist m"


end
