(* ===== verification/Spec2Isabelle.thy ===== *)
theory Spec2Isabelle
  imports Link S_lib Ref_eth
begin

text \<open>
  \<^bold>\<open>Remote-x86: the Ethernet debugger and its client libraries.\<close>

  \<^bold>\<open>The program.\<close> \<^verbatim>\<open>src/eth\<close> is a freestanding program for a PC without an operating system. It brings up the
  machine (\<^verbatim>\<open>c_start\<close>), finds a network card, and then sits in a menu that also serves the network: each round of
  \<^verbatim>\<open>main_menu\<close> calls \<^verbatim>\<open>net_idle\<close>, which takes one frame from the driver of the chosen card, answers ARP, ICMP echo
  and the debugger's UDP commands on port 777 (TEST, READ, WRITE, LOW, EXEC), and gives the frame back. \<^verbatim>\<open>src/comm\<close> is
  the other side, on the developer's machine: \<^verbatim>\<open>e_lib.c\<close> sends these commands over a UDP socket, \<^verbatim>\<open>s_lib.c\<close> talks to
  the older serial debugger.

  \<^bold>\<open>Theories and sources\<close>, in the order of the imports:

  \<^item> \<open>Prelude\<close>: machine integers as words, byte strings, the rewrite collections, list and word lemmas.
  \<^item> \<open>Machine\<close>: byte memory, \<^verbatim>\<open>ioport.h\<close>, the string routines; \<open>Alloc\<close>: \<^verbatim>\<open>alloc.c\<close>.
  \<^item> \<open>Vga\<close>: \<^verbatim>\<open>vga.c\<close> and the console helpers of \<^verbatim>\<open>c-main.c\<close>; \<open>Keyb8042\<close>: \<^verbatim>\<open>keyb8042.c\<close>;
    \<open>Interrupt\<close>: \<^verbatim>\<open>interrupt.c\<close>, \<^verbatim>\<open>pic-8259.c\<close>, \<^verbatim>\<open>pit-8253.c\<close>; \<open>Pci\<close>: \<^verbatim>\<open>pci.c\<close>.
  \<^item> \<open>Netdev\<close>: \<^verbatim>\<open>network.h\<close> and the driver contract; \<open>Pcnet32\<close>, \<open>Rtl8101\<close> (with the disabled \<^verbatim>\<open>net-rtl8139.c\<close>) and
    \<open>Ne2000\<close>: the drivers \<^verbatim>\<open>net-*.c\<close>; \<open>Network\<close>: \<^verbatim>\<open>network.c\<close>; \<open>Ref_eth\<close>: the stand-alone \<^verbatim>\<open>ref/eth.c\<close>.
  \<^item> \<open>Packet\<close>, \<open>Debugger\<close>, \<open>Service\<close>, \<open>Dialog\<close>, \<open>MainMenu\<close>, \<open>Startup\<close>: \<^verbatim>\<open>c-main.c\<close>, from the checksums up to \<^verbatim>\<open>c_start\<close>.
  \<^item> \<open>E_lib\<close>: \<^verbatim>\<open>comm/e_lib.c\<close>; \<open>S_lib\<close>: \<^verbatim>\<open>comm/s_lib.c\<close>; \<open>Card\<close>: the NE-2000 driver together with a card
    that answers through the ports; \<open>Link\<close>: the client of \<open>E_lib\<close> joined to the debugger, card to card through \<^verbatim>\<open>net_idle\<close>.

  \<^bold>\<open>State.\<close> The globals of the program are one record that each theory extends: memory and port history (\<open>bus\<close>), heap
  pointer, console, interrupt tables, PCI table, network globals, the three drivers, the debugger (\<open>dbg\<close>). An operation
  is a function on every extension of the record it needs, under the name of the C function, and returns the new state.
  The parts of a C function that are proved separately have their own definition, named in the map of the manifest.

  \<^bold>\<open>Hardware.\<close> What a port read returns is a parameter that sees the whole port history (\<open>hw\<close>); what a card does to
  descriptors and memory by DMA is a parameter applied at each read of a volatile field (\<open>pcnet32_hw\<close>, \<open>rtl8101_hw\<close>);
  calling an uploaded program is a parameter on memory and history. Nothing is assumed of them but what a theorem states.
  The addresses the linker chooses are parameters too. For the clients, sockets, clock, serial line and the contents of
  fresh stack arrays are parameters (\<open>sock_env\<close>, \<open>tty_env\<close>); what they are relied on for is \<open>sock_ok\<close> and \<open>serial_line\<close>.

  \<^bold>\<open>Errors and loops.\<close> A call through a null driver pointer and the use of a missing return value are recorded in the
  state (\<open>fault\<close>). A loop without a bound (polling a device, parsing a number in memory, a dialog) is \<open>while_option\<close>
  or a partial function into \<open>option\<close>, and \<open>None\<close> means that it never returns; there is no fuel. That such loops do
  return is proved as such: \<open>keyb8042_read_buffer_spec\<close>, \<open>pcnet32_prepare_send_spec\<close>, \<open>net_idle_returns\<close>,
  \<open>rs232_get_response_returns\<close>. In \<open>E_lib\<close>, whose loops are bounded, \<open>None\<close> is an access outside an array. A failing
  assertion of \<open>S_lib\<close> is an outcome of its own.

  \<^bold>\<open>Interfaces.\<close> \<open>net_driver\<close> is what the packet code relies on in a driver; the four drivers and the call through the
  chosen one are interpretations. \<open>ui_dialog\<close> is what a dialog keeps of the state, interpreted for all of the state and
  for the display. \<open>sock\<close> and \<open>debug_link\<close> are what the client relies on; \<open>Link\<close> interprets them by the model of the
  debugger itself, so the client's contract is discharged by the other half of the program.

  \<^bold>\<open>What is shown.\<close>

  \<^item> The service: one round of \<^verbatim>\<open>net_idle\<close> answers a READ with the bytes of memory, keeps driver and addresses
    consistent whatever arrives, makes no wild call while a driver is open, and returns; the menu and the start-up keep
    that state, with one exception that is described and proved to be a crash.
  \<^item> The protocol: the IPv4 filter equals a specification on bytes; checksums equal the one's complement sum and those
    installed are accepted; numbers printed are read back; ARP, ICMP, and each UDP command are specified by the frame
    they send and the memory they change.
  \<^item> Client and debugger together, from the socket calls through the ports of an NE-2000 and back: what is written is
    read back, a read returns memory, an address of 4 GB or more is refused.
  \<^item> The drivers: rings are disjoint, consistent and handed back; every branch of receiving is decided by the status
    the card wrote; nothing is written outside a buffer;
    a packet of the NE-2000 is a frame the card sent, whole and unchanged.
  \<^item> The console refines an abstract terminal and writes nothing else; the dialogs, the PCI scan, the interrupt table
    and the keyboard are specified.
  \<^item> The clients: no access outside an array whatever the network sends; serial transfers are exact however the calls
    split them, and waiting ends.

  \<^bold>\<open>Bounds of the model.\<close> Memory is separate from the program's own variables: a WRITE or EXEC that overwrites the
  debugger itself is not described. Interrupts are not interleaved with the main program; their handlers are modelled as
  operations. On the client side \<^verbatim>\<open>unsigned long\<close> has 64 bits.

  \<^bold>\<open>Not modelled.\<close> The assembly: boot code, the entry stub of the Ethernet debugger and the serial debugger
  (\<^verbatim>\<open>stage*.asm\<close>, \<^verbatim>\<open>*boot*\<close>), with \<^verbatim>\<open>multiboot.h\<close>, which only it uses. The bodies of \<^verbatim>\<open>net-rtl8139.c\<close> that the
  preprocessor removes. Messages to standard error. The manual test programs \<^verbatim>\<open>e_test.c\<close>, \<^verbatim>\<open>s_test.c\<close> and
  \<^verbatim>\<open>cpu_tests.c\<close>, which call the libraries, start assembly programs and print.
\<close>

end
